(* ===== verification/Prelude.thy ===== *)
theory Prelude
  imports Main "HOL-Library.Sublist"
begin

text \<open>
  The prelude holds what every component shares: the collections of simplification facts,
  generic lemmas on lists and maps, and the parts of Go's \<open>strings\<close> package the program
  calls. A Go \<open>string\<close> is a sequence of bytes, and an Isabelle \<open>string\<close> is a list of
  \<open>char\<close>, which are bytes too, so the model's strings are exactly Go's: \<open>length\<close> counts bytes
  and a rune outside ASCII is the list of the bytes of its UTF-8 encoding.
\<close>

named_theorems go_defs "definitions of Go library functions, unfolded to evaluate them"
named_theorems trim_simps "facts about strings.TrimSpace"

section \<open>Lists and maps\<close>

lemma suffix_refl_drop: "suffix (drop n xs) xs"
  by (simp add: suffix_drop)

lemma find_SomeD: "find P xs = Some x \<Longrightarrow> x \<in> set xs \<and> P x"
  by (induction xs) (auto split: if_splits)

lemma find_NoneD: "find P xs = None \<Longrightarrow> x \<in> set xs \<Longrightarrow> \<not> P x"
  by (induction xs) (auto split: if_splits)

lemma find_None_iff_all: "find P xs = None \<longleftrightarrow> (\<forall>x \<in> set xs. \<not> P x)"
  by (induction xs) (auto split: if_splits)

lemma map_le_add_left: "m \<subseteq>\<^sub>m n ++ m"
  by (auto simp: map_le_def map_add_def)

section \<open>strings.TrimSpace\<close>

text \<open>
  \<open>strings.TrimSpace\<close> removes the leading and trailing runes for which
  \<open>unicode.IsSpace\<close> holds. \<open>space_encodings\<close> lists the UTF-8 encodings of these runes: the
  ASCII ones (tab, line feed, vertical tab, form feed, carriage return, space), U+0085,
  U+00A0, U+1680, U+2000 to U+200A, U+2028, U+2029, U+202F, U+205F and U+3000. None of
  them is a proper prefix or suffix of another, and each starts with the only byte that can
  start a rune, so matching the bytes decides what Go decides by decoding.
\<close>

definition space_encodings :: "string list" where
  "space_encodings =
     [[CHR 0x20], [CHR 0x09], [CHR 0x0A], [CHR 0x0B], [CHR 0x0C], [CHR 0x0D],
      [CHR 0xC2, CHR 0x85], [CHR 0xC2, CHR 0xA0],
      [CHR 0xE1, CHR 0x9A, CHR 0x80],
      [CHR 0xE2, CHR 0x80, CHR 0x80], [CHR 0xE2, CHR 0x80, CHR 0x81],
      [CHR 0xE2, CHR 0x80, CHR 0x82], [CHR 0xE2, CHR 0x80, CHR 0x83],
      [CHR 0xE2, CHR 0x80, CHR 0x84], [CHR 0xE2, CHR 0x80, CHR 0x85],
      [CHR 0xE2, CHR 0x80, CHR 0x86], [CHR 0xE2, CHR 0x80, CHR 0x87],
      [CHR 0xE2, CHR 0x80, CHR 0x88], [CHR 0xE2, CHR 0x80, CHR 0x89],
      [CHR 0xE2, CHR 0x80, CHR 0x8A],
      [CHR 0xE2, CHR 0x80, CHR 0xA8], [CHR 0xE2, CHR 0x80, CHR 0xA9],
      [CHR 0xE2, CHR 0x80, CHR 0xAF],
      [CHR 0xE2, CHR 0x81, CHR 0x9F],
      [CHR 0xE3, CHR 0x80, CHR 0x80]]"

text \<open>\<open>strip ps s\<close> removes elements of \<open>ps\<close> from the front of \<open>s\<close> as long as one matches.\<close>

function strip :: "string list \<Rightarrow> string \<Rightarrow> string" where
  "strip ps s =
     (case find (\<lambda>p. p \<noteq> [] \<and> prefix p s) ps of
        None \<Rightarrow> s
      | Some p \<Rightarrow> strip ps (drop (length p) s))"
  by pat_completeness auto
termination
proof (relation "measure (\<lambda>(ps, s). length s)", goal_cases)
  case 1
  then show ?case by simp
next
  case (2 ps s p)
  then have "p \<noteq> []" "prefix p s" by (auto dest: find_SomeD)
  then show ?case by (cases s) (auto simp: prefix_def)
qed

declare strip.simps [simp del]

definition trim_left :: "string \<Rightarrow> string" where
  "trim_left s = strip space_encodings s"

definition trim_right :: "string \<Rightarrow> string" where
  "trim_right s = rev (strip (map rev space_encodings) (rev s))"

definition trim_space :: "string \<Rightarrow> string" where
  "trim_space s = trim_right (trim_left s)"

lemma strip_suffix: "suffix (strip ps s) s"
proof (induction ps s rule: strip.induct)
  case (1 ps s)
  show ?case
  proof (cases "find (\<lambda>p. p \<noteq> [] \<and> prefix p s) ps")
    case None
    then show ?thesis by (simp add: strip.simps [of ps s])
  next
    case (Some p)
    with 1 have "suffix (strip ps (drop (length p) s)) (drop (length p) s)" by simp
    then have "suffix (strip ps (drop (length p) s)) s"
      by (meson suffix_refl_drop suffix_order.trans)
    with Some show ?thesis by (simp add: strip.simps [of ps s])
  qed
qed

lemma strip_stuck: "p \<in> set ps \<Longrightarrow> p \<noteq> [] \<Longrightarrow> \<not> prefix p (strip ps s)"
proof (induction ps s rule: strip.induct)
  case (1 ps s)
  show ?case
  proof (cases "find (\<lambda>p. p \<noteq> [] \<and> prefix p s) ps")
    case None
    with 1 show ?thesis by (auto simp: strip.simps [of ps s] dest: find_NoneD)
  next
    case (Some q)
    with 1 show ?thesis by (simp add: strip.simps [of ps s])
  qed
qed

lemma strip_id: "(\<And>p. p \<in> set ps \<Longrightarrow> p \<noteq> [] \<Longrightarrow> \<not> prefix p s) \<Longrightarrow> strip ps s = s"
proof -
  assume "\<And>p. p \<in> set ps \<Longrightarrow> p \<noteq> [] \<Longrightarrow> \<not> prefix p s"
  then have "find (\<lambda>p. p \<noteq> [] \<and> prefix p s) ps = None"
    by (auto simp: find_None_iff_all)
  then show ?thesis by (simp add: strip.simps [of ps s])
qed

lemma strip_idem: "strip ps (strip ps s) = strip ps s"
  by (rule strip_id) (rule strip_stuck)

lemma strip_Nil: "strip ps [] = []"
  using strip_suffix [of ps "[]"] by simp

lemma trim_right_prefix: "prefix (trim_right s) s"
  using strip_suffix [of "map rev space_encodings" "rev s"]
  by (simp add: trim_right_def suffix_to_prefix)

lemma trim_left_suffix: "suffix (trim_left s) s"
  by (simp add: trim_left_def strip_suffix)

text \<open>
  Trimming once is enough: what \<open>TrimSpace\<close> returns has no space at either end, because a
  prefix of a string without a leading space has none either.
\<close>

lemma trim_left_trim_space: "trim_left (trim_space s) = trim_space s"
  unfolding trim_left_def
proof (rule strip_id)
  fix p :: string
  assume p: "p \<in> set space_encodings" "p \<noteq> []"
  have "\<not> prefix p (trim_left s)"
    unfolding trim_left_def using p by (rule strip_stuck)
  then show "\<not> prefix p (trim_space s)"
    unfolding trim_space_def by (meson trim_right_prefix prefix_order.trans)
qed

lemma trim_right_trim_space: "trim_right (trim_space s) = trim_space s"
  by (simp add: trim_space_def trim_right_def strip_idem)

lemma trim_space_idem [simp, trim_simps]: "trim_space (trim_space s) = trim_space s"
  by (metis trim_left_trim_space trim_right_trim_space trim_space_def)

lemma trim_space_Nil [simp, trim_simps]: "trim_space [] = []"
  by (simp add: trim_space_def trim_left_def trim_right_def strip_Nil)

lemma set_trim_space: "set (trim_space s) \<subseteq> set s"
proof -
  have "set (trim_right (trim_left s)) \<subseteq> set (trim_left s)"
    by (rule set_mono_prefix) (rule trim_right_prefix)
  moreover have "set (trim_left s) \<subseteq> set s"
    by (rule set_mono_suffix) (rule trim_left_suffix)
  ultimately show ?thesis by (simp add: trim_space_def)
qed

lemma length_trim_space: "length (trim_space s) \<le> length s"
  unfolding trim_space_def
  by (meson le_trans prefix_length_le suffix_length_le trim_left_suffix trim_right_prefix)

text \<open>
  A string whose first and last byte cannot be part of a space is left alone.
  \<open>space_bytes\<close> are the bytes that occur in an encoding of a space.
\<close>

definition space_bytes :: "char set" where
  "space_bytes = set (concat space_encodings)"

lemma trim_space_id:
  assumes "s = [] \<or> (hd s \<notin> space_bytes \<and> last s \<notin> space_bytes)"
  shows "trim_space s = s"
proof (cases "s = []")
  case True
  then show ?thesis by simp
next
  case False
  with assms have ends: "hd s \<notin> space_bytes" "last s \<notin> space_bytes" by auto
  have "trim_left s = s"
    unfolding trim_left_def
  proof (rule strip_id)
    fix p :: string
    assume p: "p \<in> set space_encodings" "p \<noteq> []"
    then have "hd p \<in> space_bytes"
      by (auto simp: space_bytes_def intro!: bexI [of _ p])
    with ends p show "\<not> prefix p s" by (auto simp: prefix_def)
  qed
  moreover have "trim_right s = s"
  proof -
    have "strip (map rev space_encodings) (rev s) = rev s"
    proof (rule strip_id)
      fix p :: string
      assume p: "p \<in> set (map rev space_encodings)" "p \<noteq> []"
      then obtain q where q: "q \<in> set space_encodings" "p = rev q" by auto
      then have "hd p \<in> space_bytes"
        using p by (auto simp: space_bytes_def hd_rev intro!: bexI [of _ q])
      moreover have "hd (rev s) \<notin> space_bytes" using ends False by (simp add: hd_rev)
      ultimately show "\<not> prefix p (rev s)" using p by (auto simp: prefix_def)
    qed
    then show ?thesis by (simp add: trim_right_def)
  qed
  ultimately show ?thesis by (simp add: trim_space_def)
qed

text \<open>What follows a byte that is in no space may keep its trimmed end.\<close>

lemma trim_space_append_id:
  assumes u: "u \<noteq> []" "hd u \<notin> space_bytes" "last u \<notin> space_bytes" and x: "trim_right x = x"
  shows "trim_space (u @ x) = u @ x"
proof -
  have "trim_left (u @ x) = u @ x"
    unfolding trim_left_def
  proof (rule strip_id)
    fix p :: string
    assume p: "p \<in> set space_encodings" "p \<noteq> []"
    then have "hd p \<in> space_bytes" by (auto simp: space_bytes_def intro!: bexI [of _ p])
    with u p show "\<not> prefix p (u @ x)" by (auto simp: prefix_def) (metis hd_append2)
  qed
  moreover have "strip (map rev space_encodings) (rev (u @ x)) = rev (u @ x)"
  proof (rule strip_id)
    fix p :: string
    assume p: "p \<in> set (map rev space_encodings)" "p \<noteq> []"
    then have b: "set p \<subseteq> space_bytes" by (auto simp: space_bytes_def)
    have "strip (map rev space_encodings) (rev x) = rev x"
      using x unfolding trim_right_def by (metis rev_swap)
    with strip_stuck [OF p, of "rev x"] have n: "\<not> prefix p (rev x)" by simp
    show "\<not> prefix p (rev (u @ x))"
    proof
      assume "prefix p (rev (u @ x))"
      with n obtain us where us: "p = rev x @ us" "prefix us (rev u)" by (auto simp: prefix_append)
      with n have "us \<noteq> []" by auto
      with us u(1) have "hd us = last u" by (auto simp: prefix_def) (metis hd_append2 hd_rev)
      moreover have "hd us \<in> set p" using us \<open>us \<noteq> []\<close> by simp
      ultimately show False using b u(3) by auto
    qed
  qed
  ultimately show ?thesis by (simp add: trim_space_def trim_right_def)
qed

lemma strip_removed: "set s \<subseteq> set (strip ps s) \<union> set (concat ps)"
proof (induction ps s rule: strip.induct)
  case (1 ps s)
  show ?case
  proof (cases "find (\<lambda>p. p \<noteq> [] \<and> prefix p s) ps")
    case None
    then show ?thesis by (simp add: strip.simps [of ps s])
  next
    case (Some p)
    then have p: "p \<in> set ps" "prefix p s" by (auto dest: find_SomeD)
    then have "set s = set p \<union> set (drop (length p) s)"
      by (auto simp: prefix_def)
    with 1 Some p show ?thesis by (auto simp: strip.simps [of ps s])
  qed
qed

lemma trim_space_removed: "set s \<subseteq> set (trim_space s) \<union> space_bytes"
proof -
  have "set s \<subseteq> set (trim_left s) \<union> space_bytes"
    using strip_removed [of s space_encodings] by (simp add: trim_left_def space_bytes_def)
  moreover have "set (trim_left s) \<subseteq> set (trim_space s) \<union> space_bytes"
    using strip_removed [of "rev (trim_left s)" "map rev space_encodings"]
    by (simp add: trim_space_def trim_right_def space_bytes_def)
  ultimately show ?thesis by auto
qed

section \<open>strings.ToLower, Split, Join, HasPrefix\<close>

text \<open>
  \<open>strings.ToLower\<close>, as far as the program can observe it. The program compares the lowered
  string with ASCII constants, or lowers the name of a struct field, which is ASCII. Two
  runes outside ASCII have an ASCII lower case, U+0130 (to \<open>i\<close>) and U+212A (to \<open>k\<close>); every
  other rune outside ASCII stays outside ASCII when lowered, and its bytes are kept.
\<close>

definition ascii_lower :: "char \<Rightarrow> char" where
  "ascii_lower c =
     (if (65::nat) \<le> of_char c \<and> of_char c \<le> (90::nat) then char_of (of_char c + (32::nat)) else c)"

fun to_lower :: "string \<Rightarrow> string" where
  "to_lower [] = []"
| "to_lower (c # cs) =
     (if c = CHR 0xC4 \<and> take 1 cs = [CHR 0xB0] then CHR ''i'' # to_lower (drop 1 cs)
      else if c = CHR 0xE2 \<and> take 2 cs = [CHR 0x84, CHR 0xAA] then CHR ''k'' # to_lower (drop 2 cs)
      else ascii_lower c # to_lower cs)"

text \<open>\<open>strings.Split\<close> with a separator of one byte: never empty, one part more than separators.\<close>

fun split_on :: "char \<Rightarrow> string \<Rightarrow> string list" where
  "split_on c [] = [[]]"
| "split_on c (x # xs) =
     (if x = c then [] # split_on c xs
      else (case split_on c xs of [] \<Rightarrow> [[x]] | p # ps \<Rightarrow> (x # p) # ps))"

text \<open>\<open>strings.Join\<close>.\<close>

fun join_with :: "string \<Rightarrow> string list \<Rightarrow> string" where
  "join_with sep [] = []"
| "join_with sep [x] = x"
| "join_with sep (x # y # zs) = x @ sep @ join_with sep (y # zs)"

lemma split_on_not_Nil [simp]: "split_on c s \<noteq> []"
  by (induction s) (auto split: list.splits)

lemma split_on_parts: "p \<in> set (split_on c s) \<Longrightarrow> c \<notin> set p"
  by (induction s arbitrary: p) (auto split: list.splits if_splits)

lemma split_on_no_sep: "c \<notin> set s \<Longrightarrow> split_on c s = [s]"
  by (induction s) auto

lemma split_on_append_sep:
  "c \<notin> set x \<Longrightarrow> split_on c (x @ c # ys) = x # split_on c ys"
  by (induction x) auto

lemma split_on_join:
  "xs \<noteq> [] \<Longrightarrow> (\<And>x. x \<in> set xs \<Longrightarrow> c \<notin> set x) \<Longrightarrow> split_on c (join_with [c] xs) = xs"
proof (induction "[c]" xs rule: join_with.induct)
  case 1
  then show ?case by simp
next
  case (2 x)
  then show ?case by (simp add: split_on_no_sep)
next
  case (3 x y zs)
  then show ?case by (simp add: split_on_append_sep)
qed

lemma join_split_on: "join_with [c] (split_on c s) = s"
proof (induction s)
  case Nil
  then show ?case by simp
next
  case (Cons x xs)
  obtain p ps where p: "split_on c xs = p # ps"
    by (cases "split_on c xs") auto
  with Cons show ?case by (cases ps) auto
qed

end
