(* ===== verification/GoStd.thy ===== *)
theory GoStd
  imports Prelude
begin

text \<open>
  The parsers of Go's standard library that the configuration rests on: \<open>strconv.Atoi\<close>,
  \<open>strconv.ParseBool\<close> and \<open>time.ParseDuration\<close>, written after their sources with the overflow
  checks and the wrap-around of \<open>uint64\<close>. The program looks only at whether they fail, so an
  error is \<open>None\<close>. A \<open>time.Duration\<close> is the number of its nanoseconds, an \<open>int\<close> in the range
  of \<open>int64\<close>. The one floating point expression of \<open>ParseDuration\<close> is computed by rounding exact
  fractions to 53 bits, ties to even, as IEEE 754 doubles do.
\<close>

section \<open>Digits and strconv.Atoi\<close>

definition int64_max :: int where [go_defs]: "int64_max = 2 ^ 63 - 1"
definition int64_min :: int where [go_defs]: "int64_min = - (2 ^ 63)"

definition in_int64 :: "int \<Rightarrow> bool" where
  [go_defs]: "in_int64 i \<longleftrightarrow> int64_min \<le> i \<and> i \<le> int64_max"

definition is_digit :: "char \<Rightarrow> bool" where
  "is_digit c \<longleftrightarrow> (48::nat) \<le> of_char c \<and> of_char c \<le> (57::nat)"

definition digit_val :: "char \<Rightarrow> int" where
  "digit_val c = of_char c - 48"

fun digits_val :: "int \<Rightarrow> string \<Rightarrow> int option" where
  "digits_val a [] = Some a"
| "digits_val a (c # cs) = (if is_digit c then digits_val (10 * a + digit_val c) cs else None)"

text \<open>An optional sign, as \<open>Atoi\<close> and \<open>ParseDuration\<close> read it: whether it is a minus, and the rest.\<close>

definition split_sign :: "string \<Rightarrow> bool \<times> string" where
  "split_sign s =
     (case s of
        [] \<Rightarrow> (False, [])
      | c # cs \<Rightarrow>
          if c = CHR ''-'' then (True, cs) else if c = CHR ''+'' then (False, cs) else (False, s))"

definition atoi :: "string \<Rightarrow> int option" where
  "atoi s =
     (let (neg, ds) = split_sign s in
      if ds = [] then None
      else (case digits_val 0 ds of
              None \<Rightarrow> None
            | Some n \<Rightarrow>
                let i = (if neg then - n else n) in
                if in_int64 i then Some i else None))"

text \<open>The decimal rendering of a number, against which the parsers are specified.\<close>

fun nat_digits :: "nat \<Rightarrow> string" where
  "nat_digits n =
     (if n < 10 then [char_of (48 + n)] else nat_digits (n div 10) @ [char_of (48 + n mod 10)])"

declare nat_digits.simps [simp del]

definition itoa :: "int \<Rightarrow> string" where
  "itoa i = (if i < 0 then CHR ''-'' # nat_digits (nat (- i)) else nat_digits (nat i))"

lemma digits_val_append:
  "digits_val a (xs @ ys) = (case digits_val a xs of None \<Rightarrow> None | Some b \<Rightarrow> digits_val b ys)"
  by (induction xs arbitrary: a) auto

lemma of_char_digit: "(n::nat) < 10 \<Longrightarrow> (of_char (char_of (48 + n) :: char) :: int) = 48 + int n"
proof -
  assume n: "n < 10"
  have "(of_char (char_of (48 + n) :: char) :: int) = int (of_char (char_of (48 + n) :: char))"
    by (rule of_nat_of_char [symmetric])
  also have "\<dots> = int ((48 + n) mod 256)"
    by (simp only: of_char_of)
  finally show ?thesis using n by simp
qed

lemma is_digit_char_of [simp]: "(n::nat) < 10 \<Longrightarrow> is_digit (char_of (48 + n))"
  by (simp add: is_digit_def)

lemma digit_val_char_of [simp]: "(n::nat) < 10 \<Longrightarrow> digit_val (char_of (48 + n)) = int n"
  by (simp add: digit_val_def of_char_digit)

lemma digit_val_bounds: "is_digit c \<Longrightarrow> 0 \<le> digit_val c \<and> digit_val c \<le> 9"
proof -
  assume "is_digit c"
  moreover have "(of_char c :: int) = int (of_char c)" by (rule of_nat_of_char [symmetric])
  ultimately show ?thesis by (simp add: is_digit_def digit_val_def)
qed

lemma digits_val_nat_digits: "digits_val 0 (nat_digits n) = Some (int n)"
proof (induction n rule: nat_digits.induct)
  case (1 n)
  show ?case
  proof (cases "n < 10")
    case True
    then show ?thesis by (simp add: nat_digits.simps [of n])
  next
    case False
    with 1 have "digits_val 0 (nat_digits (n div 10)) = Some (int (n div 10))" by simp
    moreover have "10 * int (n div 10) + int (n mod 10) = int n" by presburger
    ultimately show ?thesis using False
      by (simp add: nat_digits.simps [of n] digits_val_append)
  qed
qed

lemma nat_digits_not_Nil [simp]: "nat_digits n \<noteq> []"
  by (simp add: nat_digits.simps [of n])

lemma nat_digits_all: "c \<in> set (nat_digits n) \<Longrightarrow> is_digit c"
proof (induction n rule: nat_digits.induct)
  case (1 n)
  then show ?case
    by (cases "n < 10") (auto simp: nat_digits.simps [of n])
qed

lemma is_digit_not_sign: "is_digit c \<Longrightarrow> c \<noteq> CHR ''-'' \<and> c \<noteq> CHR ''+'' \<and> c \<noteq> CHR ''.''"
  by (auto simp: is_digit_def)

lemma split_sign_nat_digits: "split_sign (nat_digits n @ u) = (False, nat_digits n @ u)"
proof -
  obtain c cs where c: "nat_digits n = c # cs" by (cases "nat_digits n") auto
  then have "is_digit c" using nat_digits_all [of c n] by simp
  then show ?thesis using is_digit_not_sign [of c] by (simp add: split_sign_def c)
qed

lemma atoi_itoa_eq: "atoi (itoa i) = (if in_int64 i then Some i else None)"
proof (cases "i < 0")
  case True
  then show ?thesis
    by (simp add: atoi_def itoa_def split_sign_def digits_val_nat_digits)
next
  case False
  then show ?thesis
    using split_sign_nat_digits [of "nat i" "[]"]
    by (simp add: atoi_def itoa_def digits_val_nat_digits)
qed

lemma atoi_in_int64: "atoi s = Some i \<Longrightarrow> in_int64 i"
  by (auto simp: atoi_def Let_def split: prod.splits if_splits option.splits)

section \<open>strconv.ParseBool\<close>

definition parse_bool :: "string \<Rightarrow> bool option" where
  "parse_bool s =
     (if s \<in> set [''1'', ''t'', ''T'', ''TRUE'', ''true'', ''True''] then Some True
      else if s \<in> set [''0'', ''f'', ''F'', ''FALSE'', ''false'', ''False''] then Some False
      else None)"

section \<open>Doubles\<close>

text \<open>
  A double that is not negative is a fraction \<open>(n, d)\<close> of integers. \<open>round_double\<close> rounds a
  fraction to 53 significant bits; the values of \<open>ParseDuration\<close> are far from the ends of the
  exponent range, so there is neither overflow nor a subnormal result.
\<close>

function bit_len :: "int \<Rightarrow> int" where
  "bit_len n = (if n \<le> 0 then 0 else 1 + bit_len (n div 2))"
  by pat_completeness auto
termination by (relation "measure nat") auto

declare bit_len.simps [simp del]

definition round_half_even :: "int \<Rightarrow> int \<Rightarrow> int" where
  "round_half_even n d =
     (let q = n div d; r = n mod d in
      if 2 * r < d then q else if d < 2 * r then q + 1 else if even q then q else q + 1)"

definition scale_by :: "int \<Rightarrow> int \<times> int \<Rightarrow> int \<times> int" where
  "scale_by e nd =
     (if 0 \<le> e then (fst nd, snd nd * 2 ^ nat e) else (fst nd * 2 ^ nat (- e), snd nd))"

definition round_double :: "int \<times> int \<Rightarrow> int \<times> int" where
  "round_double nd =
     (if fst nd = 0 then (0, 1)
      else let e1 = bit_len (fst nd) - bit_len (snd nd) - 52;
               nd1 = scale_by e1 nd;
               e = (if snd nd1 * 2 ^ 52 \<le> fst nd1 then e1 else e1 - 1);
               nd2 = scale_by e nd;
               m = round_half_even (fst nd2) (snd nd2)
           in if 0 \<le> e then (m * 2 ^ nat e, 1) else (m, 2 ^ nat (- e)))"

text \<open>\<open>uint64(float64(f) * (float64(unit) / scale))\<close>\<close>

definition frac_nanos :: "int \<Rightarrow> int \<Rightarrow> int \<Rightarrow> int" where
  "frac_nanos f unit scale =
     (let (a, b) = round_double (f, 1);
          (c, d) = round_double (unit, scale);
          (p, q) = round_double (a * c, b * d)
      in p div q)"

section \<open>time.ParseDuration\<close>

definition nanosecond :: int where [go_defs]: "nanosecond = 1"
definition microsecond :: int where [go_defs]: "microsecond = 1000"
definition millisecond :: int where [go_defs]: "millisecond = 1000000"
definition second :: int where [go_defs]: "second = 1000000000"
definition minute :: int where [go_defs]: "minute = 60 * second"
definition hour :: int where [go_defs]: "hour = 60 * minute"

text \<open>\<open>unitMap\<close>: microseconds are also written with the micro sign U+00B5 and with the letter U+03BC.\<close>

definition unit_map :: "(string \<times> int) list" where
  "unit_map =
     [(''ns'', nanosecond), (''us'', microsecond),
      ([CHR 0xC2, CHR 0xB5, CHR ''s''], microsecond), ([CHR 0xCE, CHR 0xBC, CHR ''s''], microsecond),
      (''ms'', millisecond), (''s'', second), (''m'', minute), (''h'', hour)]"

text \<open>\<open>leadingInt\<close>: the value of the leading digits and the rest; it fails above \<open>2^63\<close>.\<close>

fun leading_int :: "int \<Rightarrow> string \<Rightarrow> (int \<times> string) option" where
  "leading_int x [] = Some (x, [])"
| "leading_int x (c # cs) =
     (if \<not> is_digit c then Some (x, c # cs)
      else if 2 ^ 63 div 10 < x then None
      else let x' = x * 10 + digit_val c in
           if 2 ^ 63 < x' then None else leading_int x' cs)"

text \<open>
  \<open>leadingFraction\<close>: digits after the point, the power of ten they are counted in, and the
  rest; digits that no longer fit are skipped.
\<close>

fun leading_fraction :: "int \<Rightarrow> int \<Rightarrow> bool \<Rightarrow> string \<Rightarrow> int \<times> int \<times> string" where
  "leading_fraction x scale overflow [] = (x, scale, [])"
| "leading_fraction x scale overflow (c # cs) =
     (if \<not> is_digit c then (x, scale, c # cs)
      else if overflow then leading_fraction x scale True cs
      else if (2 ^ 63 - 1) div 10 < x then leading_fraction x scale True cs
      else let y = x * 10 + digit_val c in
           if 2 ^ 63 < y then leading_fraction x scale True cs
           else leading_fraction y (scale * 10) False cs)"

definition is_unit_char :: "char \<Rightarrow> bool" where
  "is_unit_char c \<longleftrightarrow> c \<noteq> CHR ''.'' \<and> \<not> is_digit c"

text \<open>One round of the loop of \<open>ParseDuration\<close>: a number, its unit, and what is left.\<close>

definition parse_dur_item :: "string \<Rightarrow> (int \<times> string) option" where
  "parse_dur_item s =
     (if s = [] \<or> \<not> (hd s = CHR ''.'' \<or> is_digit (hd s)) then None
      else (case leading_int 0 s of
              None \<Rightarrow> None
            | Some (v, s1) \<Rightarrow>
                let pre = (length s1 \<noteq> length s);
                    dot = (s1 \<noteq> [] \<and> hd s1 = CHR ''.'');
                    (f, scale, s2) = (if dot then leading_fraction 0 1 False (tl s1) else (0, 1, s1));
                    post = (dot \<and> length s2 \<noteq> length (tl s1));
                    u = takeWhile is_unit_char s2
                in if \<not> pre \<and> \<not> post \<or> u = [] then None
                   else (case map_of unit_map u of
                           None \<Rightarrow> None
                         | Some unit \<Rightarrow>
                             if 2 ^ 63 div unit < v then None
                             else let w = v * unit + (if 0 < f then frac_nanos f unit scale else 0) in
                                  if 0 < f \<and> 2 ^ 63 < w then None
                                  else Some (w, dropWhile is_unit_char s2))))"

lemma leading_int_length: "leading_int x s = Some (v, s') \<Longrightarrow> length s' \<le> length s"
  by (induction x s rule: leading_int.induct) (auto simp: Let_def split: if_splits)

lemma leading_fraction_length:
  "leading_fraction x scale ov s = (f, sc, s') \<Longrightarrow> length s' \<le> length s"
  by (induction x scale ov s rule: leading_fraction.induct)
    (auto simp: Let_def split: if_splits)

lemma dropWhile_shorter: "takeWhile P xs \<noteq> [] \<Longrightarrow> length (dropWhile P xs) < length xs"
  by (cases xs) (auto split: if_splits simp: le_imp_less_Suc length_dropWhile_le)

lemma parse_dur_item_shorter: "parse_dur_item s = Some (w, s') \<Longrightarrow> length s' < length s"
proof -
  assume "parse_dur_item s = Some (w, s')"
  then obtain v s1 f scale s2 where
      i: "leading_int 0 s = Some (v, s1)"
      and fr: "(if s1 \<noteq> [] \<and> hd s1 = CHR ''.'' then leading_fraction 0 1 False (tl s1)
            else (0, 1, s1)) = (f, scale, s2)"
      and u: "takeWhile is_unit_char s2 \<noteq> []" and s': "s' = dropWhile is_unit_char s2"
    by (auto simp: parse_dur_item_def Let_def split: if_splits option.splits prod.splits)
  from fr have "length s2 \<le> length s1"
    by (auto split: if_splits dest!: leading_fraction_length)
  with leading_int_length [OF i] dropWhile_shorter [OF u] s' show ?thesis by simp
qed

text \<open>The sum is a \<open>uint64\<close>: it wraps around before it is compared with \<open>1 << 63\<close>.\<close>

function parse_dur_loop :: "int \<Rightarrow> string \<Rightarrow> int option" where
  "parse_dur_loop d s =
     (if s = [] then Some d
      else (case parse_dur_item s of
              None \<Rightarrow> None
            | Some (v, s') \<Rightarrow>
                let d' = (d + v) mod 2 ^ 64 in
                if 2 ^ 63 < d' then None else parse_dur_loop d' s'))"
  by pat_completeness auto
termination
  by (relation "measure (\<lambda>(d, s). length s)") (auto dest: parse_dur_item_shorter)

declare parse_dur_loop.simps [simp del]

definition parse_duration :: "string \<Rightarrow> int option" where
  "parse_duration s =
     (let (neg, t) = split_sign s in
      if t = ''0'' then Some 0
      else if t = [] then None
      else (case parse_dur_loop 0 t of
              None \<Rightarrow> None
            | Some d \<Rightarrow> if neg then Some (- d) else if 2 ^ 63 - 1 < d then None else Some d))"

text \<open>
  A whole number with a unit parses to that many units, or fails when the result is not an
  \<open>int64\<close>: the three overflow checks of the loop together refuse exactly these.
\<close>

lemma digits_val_ge: "digits_val x ds = Some v \<Longrightarrow> 0 \<le> x \<Longrightarrow> x \<le> v"
proof (induction ds arbitrary: x)
  case Nil
  then show ?case by simp
next
  case (Cons c cs)
  then have "is_digit c" "digits_val (10 * x + digit_val c) cs = Some v"
    by (auto split: if_splits)
  with Cons.IH [of "10 * x + digit_val c"] Cons.prems digit_val_bounds [of c] show ?case by simp
qed

lemma leading_int_digits:
  assumes "digits_val x ds = Some v" "0 \<le> x" "x \<le> 2 ^ 63" "u \<noteq> [] \<Longrightarrow> \<not> is_digit (hd u)"
  shows "leading_int x (ds @ u) = (if v \<le> 2 ^ 63 then Some (v, u) else None)"
  using assms
proof (induction ds arbitrary: x)
  case Nil
  then show ?case by (cases u) auto
next
  case (Cons c cs)
  then have c: "is_digit c" and cs: "digits_val (10 * x + digit_val c) cs = Some v"
    by (auto split: if_splits)
  have y: "0 \<le> 10 * x + digit_val c" "10 * x + digit_val c \<le> v"
    using digits_val_ge [OF cs] digit_val_bounds [OF c] Cons.prems by auto
  show ?case
  proof (cases "10 * x + digit_val c \<le> 2 ^ 63")
    case True
    moreover from True have "x \<le> 2 ^ 63 div 10" using digit_val_bounds [OF c] by simp
    ultimately show ?thesis using Cons.IH [OF cs] Cons.prems y c by (simp add: mult.commute)
  next
    case False
    with y c show ?thesis by (simp add: mult.commute)
  qed
qed

lemma int_div_less_iff:
  fixes k v w :: int
  assumes "0 < w"
  shows "k div w < v \<longleftrightarrow> k < v * w"
proof
  assume "k div w < v"
  then have "(k div w + 1) * w \<le> v * w" using assms by (intro mult_right_mono) auto
  moreover have "k < (k div w + 1) * w"
    using div_mult_mod_eq [of k w] pos_mod_bound [OF assms, of k] unfolding distrib_right by linarith
  ultimately show "k < v * w" by simp
next
  assume k: "k < v * w"
  show "k div w < v"
  proof (rule ccontr)
    assume "\<not> k div w < v"
    then have "v * w \<le> k div w * w" using assms by (intro mult_right_mono) auto
    also have "\<dots> \<le> k" using div_mult_mod_eq [of k w] pos_mod_sign [OF assms, of k] by linarith
    finally show False using k by simp
  qed
qed

definition unit_name :: "string \<Rightarrow> bool" where
  "unit_name u \<longleftrightarrow> u \<noteq> [] \<and> (\<forall>c \<in> set u. is_unit_char c)"

lemma unit_name_map: "map_of unit_map u = Some w \<Longrightarrow> unit_name u \<and> 0 < w"
  by (auto simp: unit_map_def unit_name_def is_unit_char_def is_digit_def go_defs
      split: if_splits)

lemma parse_dur_item_whole:
  assumes w: "map_of unit_map u = Some w"
  shows "parse_dur_item (nat_digits n @ u) =
           (if int n * w \<le> 2 ^ 63 then Some (int n * w, []) else None)"
proof -
  have u: "u \<noteq> []" "\<And>c. c \<in> set u \<Longrightarrow> is_unit_char c" "0 < w"
    using unit_name_map [OF w] by (auto simp: unit_name_def)
  then have hu: "\<not> is_digit (hd u)" "hd u \<noteq> CHR ''.''" by (auto simp: is_unit_char_def)
  have hd: "is_digit (hd (nat_digits n @ u))" using nat_digits_all [of _ n] by simp
  have tw: "takeWhile is_unit_char u = u" "dropWhile is_unit_char u = []"
    using u(2) by (auto simp: takeWhile_eq_all_conv dropWhile_eq_Nil_conv)
  have li: "leading_int 0 (nat_digits n @ u) = (if int n \<le> 2 ^ 63 then Some (int n, u) else None)"
    by (rule leading_int_digits [OF digits_val_nat_digits]) (use hu in auto)
  have iff: "2 ^ 63 div w < int n \<longleftrightarrow> 2 ^ 63 < int n * w"
    using u(3) by (rule int_div_less_iff)
  have big: "2 ^ 63 < int n \<Longrightarrow> 2 ^ 63 < int n * w"
  proof -
    assume n: "2 ^ 63 < int n"
    have "int n * 1 \<le> int n * w" using u(3) by (intro mult_left_mono) auto
    with n show ?thesis by linarith
  qed
  show ?thesis
  proof (cases "int n \<le> 2 ^ 63")
    case True
    with hd u(1) hu w iff li show ?thesis by (simp add: parse_dur_item_def Let_def tw)
  next
    case False
    with hd u(1) li big show ?thesis by (simp add: parse_dur_item_def)
  qed
qed

lemma parse_duration_whole:
  assumes w: "map_of unit_map u = Some w"
  shows "parse_duration (nat_digits n @ u) =
           (if int n * w < 2 ^ 63 then Some (int n * w) else None)"
proof -
  have u: "u \<noteq> []" "is_unit_char (last u)" "0 < w"
    using unit_name_map [OF w] by (auto simp: unit_name_def)
  have not0: "nat_digits n @ u \<noteq> ''0''"
  proof
    assume eq: "nat_digits n @ u = ''0''"
    then have "last u = CHR ''0''" using u(1) by (metis last.simps last_appendR)
    with u(2) show False by (simp add: is_unit_char_def is_digit_def)
  qed
  have "0 \<le> int n * w" using u(3) by simp
  then show ?thesis
    using not0 by (auto simp: parse_duration_def split_sign_nat_digits parse_dur_loop.simps
        parse_dur_item_whole [OF w])
qed

lemma parse_dur_loop_bounds: "parse_dur_loop d s = Some r \<Longrightarrow> 0 \<le> d \<Longrightarrow> d \<le> 2 ^ 63 \<Longrightarrow> 0 \<le> r \<and> r \<le> 2 ^ 63"
proof (induction d s rule: parse_dur_loop.induct)
  case (1 d s)
  show ?case
  proof (cases "s = []")
    case True
    with 1 show ?thesis by (simp add: parse_dur_loop.simps)
  next
    case False
    with "1.prems" obtain v s' where v: "parse_dur_item s = Some (v, s')"
        "(d + v) mod 2 ^ 64 \<le> 2 ^ 63" "parse_dur_loop ((d + v) mod 2 ^ 64) s' = Some r"
      by (subst (asm) parse_dur_loop.simps) (auto simp: Let_def split: option.splits if_splits)
    with 1(1) [OF False v(1)] show ?thesis by simp
  qed
qed

lemma parse_duration_in_int64: "parse_duration s = Some d \<Longrightarrow> in_int64 d"
  by (auto simp: parse_duration_def go_defs Let_def
      split: prod.splits if_splits option.splits dest!: parse_dur_loop_bounds)

section \<open>Duration.String\<close>

text \<open>\<open>fmtFrac\<close>: the last \<open>n\<close> digits of \<open>v\<close> as a fraction without trailing zeros, and what is before them.\<close>

fun fmt_frac :: "nat \<Rightarrow> nat \<Rightarrow> bool \<Rightarrow> string \<Rightarrow> nat \<times> string" where
  "fmt_frac 0 v print acc = (v, if print then CHR ''.'' # acc else acc)"
| "fmt_frac (Suc n) v print acc =
     (let digit = v mod 10; print = (print \<or> digit \<noteq> 0) in
      fmt_frac n (v div 10) print (if print then char_of (48 + digit) # acc else acc))"

definition show_duration :: "int \<Rightarrow> string" where
  "show_duration d =
     (let u = nat \<bar>d\<bar>;
          body =
            (if u = 0 then ''0s''
             else if u < 1000 then nat_digits u @ ''ns''
             else if u < 1000000
             then (case fmt_frac 3 u False [CHR 0xC2, CHR 0xB5, CHR ''s''] of (v, out) \<Rightarrow> nat_digits v @ out)
             else if u < 1000000000 then (case fmt_frac 6 u False ''ms'' of (v, out) \<Rightarrow> nat_digits v @ out)
             else
               (case fmt_frac 9 u False ''s'' of
                  (v, out) \<Rightarrow>
                    let out = nat_digits (v mod 60) @ out; v = v div 60 in
                    if v = 0 then out
                    else let out = nat_digits (v mod 60) @ ''m'' @ out; v = v div 60 in
                         if v = 0 then out else nat_digits v @ ''h'' @ out))
      in if d < 0 then CHR ''-'' # body else body)"

lemma fmt_frac_numeral [simp]:
  "fmt_frac (numeral k) v print acc =
     (let digit = v mod 10; print = (print \<or> digit \<noteq> 0) in
      fmt_frac (pred_numeral k) (v div 10) print (if print then char_of (48 + digit) # acc else acc))"
  unfolding numeral_eq_Suc [of k] by (rule fmt_frac.simps)

lemma show_duration_examples:
  "show_duration (2 * second) = ''2s''" "show_duration (90 * minute + 1500 * millisecond) = ''1h30m1.5s''"
  by (simp_all add: show_duration_def go_defs nat_digits.simps char_of_def Let_def bit_0)

end
