(* ===== verification/Config.thy ===== *)
theory Config
  imports GoStd
begin

text \<open>
  The package \<open>config\<close>: the typed configuration (\<open>config/types.go\<close>), its reading from the
  environment (\<open>config/config.go\<close>) and the preloading of dotenv files
  (\<open>config/runtime.go\<close>). The environment is a partial map; \<open>os.Getenv\<close> cannot tell an unset
  variable from an empty one.
\<close>

section \<open>The configuration types\<close>

record server_config =
  srv_port :: string
  srv_gin_mode :: string
  srv_trusted_proxies :: "string list"
  srv_request_timeout :: int

record postgres_config =
  pg_dsn :: string
  pg_log_level :: string
  pg_max_idle_conns :: int
  pg_max_open_conns :: int
  pg_conn_max_lifetime :: int
  pg_conn_max_idle_time :: int

record redis_config =
  rds_addr :: string
  rds_password :: string
  rds_cache_db :: int
  rds_queue_db :: int

record auth_config =
  auth_jwt_secret :: string
  auth_jwt_issuer :: string
  auth_jwt_ttl :: int

record cors_config =
  cors_allow_origins :: "string list"

record log_config =
  log_level :: string
  log_format :: string
  log_stacktrace_level :: string
  log_audit_enabled :: bool
  log_audit_excludes :: "string list"

record rate_limit_config =
  rl_requests_per_minute :: int

record config =
  cfg_server :: server_config
  cfg_postgres :: postgres_config
  cfg_redis :: redis_config
  cfg_auth :: auth_config
  cfg_cors :: cors_config
  cfg_log :: log_config
  cfg_rate_limit :: rate_limit_config

section \<open>Reading variables\<close>

type_synonym env = "string \<rightharpoonup> string"

definition getenv :: "env \<Rightarrow> string \<Rightarrow> string" where
  "getenv env k = (case env k of None \<Rightarrow> [] | Some v \<Rightarrow> v)"

definition get_env_or_default :: "env \<Rightarrow> string \<Rightarrow> string \<Rightarrow> string" where
  "get_env_or_default env key fallback =
     (let value = trim_space (getenv env key) in if value \<noteq> [] then value else fallback)"

fun parse_csv_loop :: "string list \<Rightarrow> string list" where
  "parse_csv_loop [] = []"
| "parse_csv_loop (part # parts) =
     (let part = trim_space part in
      if part \<noteq> [] then part # parse_csv_loop parts else parse_csv_loop parts)"

definition parse_csv :: "string \<Rightarrow> string list" where
  "parse_csv value = parse_csv_loop (split_on (CHR '','') value)"

definition int_env :: "env \<Rightarrow> string \<Rightarrow> int \<Rightarrow> int" where
  "int_env env key fallback =
     (let raw = trim_space (getenv env key) in
      if raw = [] then fallback
      else (case atoi raw of None \<Rightarrow> fallback | Some parsed \<Rightarrow> parsed))"

definition bool_env :: "env \<Rightarrow> string \<Rightarrow> bool \<Rightarrow> bool" where
  "bool_env env key fallback =
     (let raw = trim_space (getenv env key) in
      if raw = [] then fallback
      else (case parse_bool raw of None \<Rightarrow> fallback | Some parsed \<Rightarrow> parsed))"

definition duration_env :: "env \<Rightarrow> string \<Rightarrow> int \<Rightarrow> int" where
  "duration_env env key fallback =
     (let raw = trim_space (getenv env key) in
      if raw = [] then fallback
      else (case parse_duration raw of None \<Rightarrow> fallback | Some parsed \<Rightarrow> parsed))"

section \<open>Load\<close>

definition load :: "env \<Rightarrow> config" where
  "load env =
     (let port = get_env_or_default env ''SERVER_PORT'' '':3000'';
          gin_mode = get_env_or_default env ''GIN_MODE'' ''release'';
          level = get_env_or_default env ''LOG_LEVEL'' ''info'';
          format = get_env_or_default env ''LOG_FORMAT'' ''json'';
          stacktrace_level = get_env_or_default env ''LOG_STACKTRACE_LEVEL'' ''error''
      in \<lparr>cfg_server =
            \<lparr>srv_port = port, srv_gin_mode = gin_mode,
             srv_trusted_proxies = parse_csv (getenv env ''TRUSTED_PROXIES''),
             srv_request_timeout = duration_env env ''REQUEST_TIMEOUT'' (30 * second)\<rparr>,
          cfg_postgres =
            \<lparr>pg_dsn = getenv env ''POSTGRES'', pg_log_level = getenv env ''GORM_LOG_LEVEL'',
             pg_max_idle_conns = int_env env ''DB_MAX_IDLE_CONNS'' 15,
             pg_max_open_conns = int_env env ''DB_MAX_OPEN_CONNS'' 30,
             pg_conn_max_lifetime = duration_env env ''DB_CONN_MAX_LIFETIME'' (30 * minute),
             pg_conn_max_idle_time = duration_env env ''DB_CONN_MAX_IDLE_TIME'' (5 * minute)\<rparr>,
          cfg_redis =
            \<lparr>rds_addr = getenv env ''REDIS_ADDR'', rds_password = getenv env ''REDIS_PASSWORD'',
             rds_cache_db = int_env env ''REDIS_CACHE_DB'' 0,
             rds_queue_db = int_env env ''REDIS_QUEUE_DB'' 6\<rparr>,
          cfg_auth =
            \<lparr>auth_jwt_secret = getenv env ''JWT_SECRET'',
             auth_jwt_issuer = get_env_or_default env ''JWT_ISSUER'' ''ginblade'',
             auth_jwt_ttl = duration_env env ''JWT_TTL'' (24 * hour)\<rparr>,
          cfg_cors = \<lparr>cors_allow_origins = parse_csv (getenv env ''CORS_ALLOW_ORIGINS'')\<rparr>,
          cfg_log =
            \<lparr>log_level = level, log_format = format, log_stacktrace_level = stacktrace_level,
             log_audit_enabled = bool_env env ''AUDIT_LOG_ENABLED'' True,
             log_audit_excludes = parse_csv (getenv env ''AUDIT_LOG_EXCLUDE_PATHS'')\<rparr>,
          cfg_rate_limit =
            \<lparr>rl_requests_per_minute = int_env env ''RATE_LIMIT_PER_MINUTE'' 0\<rparr>\<rparr>)"

section \<open>LoadEnv\<close>

text \<open>
  \<open>godotenv.Load\<close> is third-party code: \<open>load_file f env\<close> is the environment after it has
  loaded the file \<open>f\<close>, whether or not it reported an error, which \<open>LoadEnv\<close> drops.
\<close>

definition load_env :: "(string \<Rightarrow> env \<Rightarrow> env) \<Rightarrow> string list \<Rightarrow> env \<Rightarrow> env" where
  "load_env load_file paths env = fold load_file (paths @ [''.env'']) env"

text \<open>
  What its documentation states: \<open>Load\<close> reads the file's variables (\<open>read f\<close>, \<open>None\<close> where the
  file cannot be read or parsed) and sets those the environment does not have yet.
\<close>

definition godotenv_spec :: "(string \<Rightarrow> env \<Rightarrow> env) \<Rightarrow> (string \<Rightarrow> env option) \<Rightarrow> bool" where
  "godotenv_spec load_file read \<longleftrightarrow>
     (\<forall>f env. load_file f env = (case read f of None \<Rightarrow> env | Some m \<Rightarrow> m ++ env))"

text \<open>The value the first file that defines \<open>k\<close> gives it.\<close>

fun first_defined :: "(string \<Rightarrow> env option) \<Rightarrow> string list \<Rightarrow> string \<Rightarrow> string option" where
  "first_defined read [] k = None"
| "first_defined read (f # fs) k =
     (case read f of
        None \<Rightarrow> first_defined read fs k
      | Some m \<Rightarrow> (case m k of None \<Rightarrow> first_defined read fs k | Some v \<Rightarrow> Some v))"

section \<open>Facts about the readers\<close>

lemma getenv_upd [simp]: "getenv (env(k \<mapsto> v)) k' = (if k' = k then v else getenv env k')"
  by (simp add: getenv_def)

lemma getenv_unset [simp]: "getenv (env(k := None)) k' = (if k' = k then [] else getenv env k')"
  by (simp add: getenv_def)

lemma getenv_empty [simp]: "getenv Map.empty k = []"
  by (simp add: getenv_def)

lemma parse_csv_loop_filter:
  "parse_csv_loop ps = filter (\<lambda>p. p \<noteq> []) (map trim_space ps)"
  by (induction ps) (auto simp: Let_def)

definition csv_item :: "string \<Rightarrow> bool" where
  "csv_item x \<longleftrightarrow> x \<noteq> [] \<and> trim_space x = x \<and> CHR '','' \<notin> set x"

lemma parse_csv_items: "x \<in> set (parse_csv v) \<Longrightarrow> csv_item x"
  unfolding parse_csv_def parse_csv_loop_filter csv_item_def
  using set_trim_space split_on_parts by fastforce

lemma parse_csv_join_items:
  assumes "\<And>x. x \<in> set xs \<Longrightarrow> csv_item x"
  shows "parse_csv (join_with '','' xs) = xs"
proof (cases "xs = []")
  case True
  then show ?thesis by (simp add: parse_csv_def parse_csv_loop_filter)
next
  case False
  then have "split_on (CHR '','') (join_with '','' xs) = xs"
    using assms by (intro split_on_join) (auto simp: csv_item_def)
  then show ?thesis
    using assms by (auto simp: parse_csv_def parse_csv_loop_filter csv_item_def
        intro!: filter_True map_idI trans [OF filter_True])
qed

lemma digit_not_space: "is_digit c \<Longrightarrow> c \<notin> space_bytes"
  by (auto simp: space_bytes_def space_encodings_def is_digit_def)

lemma minus_not_space: "CHR ''-'' \<notin> space_bytes"
  by (simp add: space_bytes_def space_encodings_def)

lemma trim_space_itoa: "trim_space (itoa i) = itoa i"
proof (rule trim_space_id)
  have d: "hd (nat_digits n) \<notin> space_bytes" "last (nat_digits n) \<notin> space_bytes" for n
    using nat_digits_all [of _ n] by (simp_all add: digit_not_space)
  show "itoa i = [] \<or> hd (itoa i) \<notin> space_bytes \<and> last (itoa i) \<notin> space_bytes"
    by (simp add: itoa_def d minus_not_space)
qed

lemma itoa_not_Nil [simp]: "itoa i \<noteq> []"
  by (simp add: itoa_def)

lemma trim_space_duration:
  assumes "map_of unit_map u = Some w"
  shows "trim_space (nat_digits n @ u) = nat_digits n @ u"
proof (rule trim_space_id)
  have "u \<noteq> []" "last u \<notin> space_bytes"
    using assms
    by (auto simp: unit_map_def space_bytes_def space_encodings_def split: if_splits)
  moreover have "hd (nat_digits n) \<notin> space_bytes"
    using nat_digits_all [of _ n] by (simp add: digit_not_space)
  ultimately show "nat_digits n @ u = [] \<or>
      hd (nat_digits n @ u) \<notin> space_bytes \<and> last (nat_digits n @ u) \<notin> space_bytes"
    by simp
qed

lemma int_env_in_int64: "in_int64 fb \<Longrightarrow> in_int64 (int_env env k fb)"
  by (auto simp: int_env_def Let_def split: option.splits dest: atoi_in_int64)

lemma duration_env_in_int64: "in_int64 fb \<Longrightarrow> in_int64 (duration_env env k fb)"
  by (auto simp: duration_env_def Let_def split: option.splits dest: parse_duration_in_int64)

text \<open>The readers that trim do not see a value of spaces only.\<close>

lemmas reader_defs =
  get_env_or_default_def int_env_def bool_env_def duration_env_def

lemma comma_not_space: "CHR '','' \<notin> space_bytes"
  by (simp add: space_bytes_def space_encodings_def)

lemma parse_csv_blank: "trim_space v = [] \<Longrightarrow> parse_csv v = []"
proof -
  assume v: "trim_space v = []"
  then have "CHR '','' \<notin> set v" using trim_space_removed [of v] comma_not_space by auto
  with v show ?thesis by (simp add: parse_csv_def split_on_no_sep Let_def)
qed

lemma parse_csv_list_all: "list_all csv_item (parse_csv v)"
  by (simp add: list_all_iff parse_csv_items)

lemma get_env_or_default_not_Nil: "fb \<noteq> [] \<Longrightarrow> get_env_or_default env k fb \<noteq> []"
  by (simp add: get_env_or_default_def Let_def)

lemma fold_load_lookup:
  assumes "godotenv_spec load_file read"
  shows "fold load_file fs env k =
           (case env k of None \<Rightarrow> first_defined read fs k | Some v \<Rightarrow> Some v)"
proof (induction fs arbitrary: env)
  case Nil
  then show ?case by (simp split: option.splits)
next
  case (Cons f fs)
  have "load_file f env = (case read f of None \<Rightarrow> env | Some m \<Rightarrow> m ++ env)"
    using assms by (simp add: godotenv_spec_def)
  then show ?case by (auto simp: Cons.IH map_add_def split: option.splits)
qed

section \<open>Well-formed configurations\<close>

text \<open>Every number fits its Go type, and the lists hold trimmed items that are not empty.\<close>

definition config_wf :: "config \<Rightarrow> bool" where
  "config_wf c \<longleftrightarrow>
     list_all csv_item (srv_trusted_proxies (cfg_server c)) \<and>
     list_all csv_item (cors_allow_origins (cfg_cors c)) \<and>
     list_all csv_item (log_audit_excludes (cfg_log c)) \<and>
     srv_port (cfg_server c) \<noteq> [] \<and> srv_gin_mode (cfg_server c) \<noteq> [] \<and>
     log_level (cfg_log c) \<noteq> [] \<and> log_format (cfg_log c) \<noteq> [] \<and>
     log_stacktrace_level (cfg_log c) \<noteq> [] \<and> auth_jwt_issuer (cfg_auth c) \<noteq> [] \<and>
     in_int64 (srv_request_timeout (cfg_server c)) \<and>
     in_int64 (pg_max_idle_conns (cfg_postgres c)) \<and>
     in_int64 (pg_max_open_conns (cfg_postgres c)) \<and>
     in_int64 (pg_conn_max_lifetime (cfg_postgres c)) \<and>
     in_int64 (pg_conn_max_idle_time (cfg_postgres c)) \<and>
     in_int64 (rds_cache_db (cfg_redis c)) \<and> in_int64 (rds_queue_db (cfg_redis c)) \<and>
     in_int64 (auth_jwt_ttl (cfg_auth c)) \<and>
     in_int64 (rl_requests_per_minute (cfg_rate_limit c))"

section \<open>Properties\<close>

text \<open>With no variable set, \<open>Load\<close> returns exactly the documented defaults.\<close>

theorem load_defaults:
  "load Map.empty =
     \<lparr>cfg_server = \<lparr>srv_port = '':3000'', srv_gin_mode = ''release'', srv_trusted_proxies = [],
                    srv_request_timeout = 30000000000\<rparr>,
      cfg_postgres = \<lparr>pg_dsn = [], pg_log_level = [], pg_max_idle_conns = 15,
                      pg_max_open_conns = 30, pg_conn_max_lifetime = 1800000000000,
                      pg_conn_max_idle_time = 300000000000\<rparr>,
      cfg_redis = \<lparr>rds_addr = [], rds_password = [], rds_cache_db = 0, rds_queue_db = 6\<rparr>,
      cfg_auth = \<lparr>auth_jwt_secret = [], auth_jwt_issuer = ''ginblade'',
                  auth_jwt_ttl = 86400000000000\<rparr>,
      cfg_cors = \<lparr>cors_allow_origins = []\<rparr>,
      cfg_log = \<lparr>log_level = ''info'', log_format = ''json'', log_stacktrace_level = ''error'',
                 log_audit_enabled = True, log_audit_excludes = []\<rparr>,
      cfg_rate_limit = \<lparr>rl_requests_per_minute = 0\<rparr>\<rparr>"
  by (simp add: load_def reader_defs parse_csv_blank go_defs)

text \<open>
  C34. Whatever the environment holds, malformed values included, \<open>Load\<close> returns a well-formed
  configuration: numbers in the range of \<open>int64\<close>, settings with a default never empty, lists
  of trimmed items with no comma and no empty one.
\<close>

theorem load_wf: "config_wf (load env)"
proof -
  have "in_int64 0" "in_int64 6" "in_int64 15" "in_int64 30" "in_int64 (30 * second)"
    "in_int64 (30 * minute)" "in_int64 (5 * minute)" "in_int64 (24 * hour)"
    by (simp_all add: go_defs)
  then show ?thesis
    by (simp add: config_wf_def load_def parse_csv_list_all get_env_or_default_not_Nil
        int_env_in_int64 duration_env_in_int64)
qed

text \<open>
  A variable of spaces only counts as unset, for every variable but the five that \<open>Load\<close>
  passes on untrimmed.
\<close>

theorem load_blank_is_unset:
  assumes "trim_space v = []"
    and "k \<notin> set [''POSTGRES'', ''GORM_LOG_LEVEL'', ''REDIS_ADDR'', ''REDIS_PASSWORD'', ''JWT_SECRET'']"
  shows "load (env(k \<mapsto> v)) = load (env(k := None))"
proof -
  have "get_env_or_default (env(k \<mapsto> v)) = get_env_or_default (env(k := None))"
    "int_env (env(k \<mapsto> v)) = int_env (env(k := None))"
    "bool_env (env(k \<mapsto> v)) = bool_env (env(k := None))"
    "duration_env (env(k \<mapsto> v)) = duration_env (env(k := None))"
    using assms(1) by (simp_all add: reader_defs fun_eq_iff)
  moreover have "parse_csv (getenv (env(k \<mapsto> v)) k') = parse_csv (getenv (env(k := None)) k')" for k'
    using assms(1) by (simp add: parse_csv_blank)
  moreover have "''POSTGRES'' \<noteq> k" "''GORM_LOG_LEVEL'' \<noteq> k" "''REDIS_ADDR'' \<noteq> k"
    "''REDIS_PASSWORD'' \<noteq> k" "''JWT_SECRET'' \<noteq> k"
    using assms(2) by auto
  ultimately show ?thesis by (simp add: load_def)
qed

theorem load_blank_is_unset_witness:
  "load (Map.empty(''SERVER_PORT'' \<mapsto> ''   '')) = load Map.empty"
proof -
  have "trim_space ''   '' = []" by code_simp
  then show ?thesis
    using load_blank_is_unset [of "''   ''" "''SERVER_PORT''" Map.empty] by simp
qed

text \<open>
  \<open>intEnv\<close> reads back every integer written in decimal that is an \<open>int64\<close>, and falls back on
  every other integer, instead of wrapping around.
\<close>

theorem int_env_itoa:
  "int_env (env(k \<mapsto> itoa i)) k fallback = (if in_int64 i then i else fallback)"
  by (simp add: int_env_def trim_space_itoa atoi_itoa_eq)

text \<open>
  \<open>durationEnv\<close> reads \<open>n\<close> of a unit as that many units, and falls back when the duration
  does not fit in an \<open>int64\<close> of nanoseconds.
\<close>

theorem duration_env_whole:
  assumes "map_of unit_map u = Some w"
  shows "duration_env (env(k \<mapsto> nat_digits n @ u)) k fallback =
           (if int n * w < 2 ^ 63 then int n * w else fallback)"
  using assms
  by (simp add: duration_env_def trim_space_duration parse_duration_whole)

theorem duration_env_whole_witness:
  "duration_env (Map.empty(''JWT_TTL'' \<mapsto> nat_digits 90 @ ''s'')) ''JWT_TTL'' (24 * hour) = 90 * second
   \<and> duration_env (Map.empty(''JWT_TTL'' \<mapsto> nat_digits 9999999 @ ''h'')) ''JWT_TTL'' (24 * hour) = 24 * hour"
  using duration_env_whole [of "''s''" second Map.empty "''JWT_TTL''" 90 "24 * hour"]
    duration_env_whole [of "''h''" hour Map.empty "''JWT_TTL''" 9999999 "24 * hour"]
  by (simp add: unit_map_def go_defs)

text \<open>
  \<open>parseCSV\<close> inverts joining with commas: a list of trimmed items without commas, none
  empty, is read back as it was.
\<close>

theorem parse_csv_join:
  assumes "list_all csv_item xs"
  shows "parse_csv (join_with '','' xs) = xs"
  using assms by (intro parse_csv_join_items) (simp add: list_all_iff)

theorem parse_csv_join_witness: "parse_csv (join_with '','' [''a.com'', ''b.com'']) = [''a.com'', ''b.com'']"
proof (rule parse_csv_join)
  show "list_all csv_item [''a.com'', ''b.com'']" by code_simp
qed

text \<open>
  \<open>LoadEnv\<close> never overrides a variable that is set, and otherwise gives it the value of the
  first file, in the order of the arguments with the root \<open>.env\<close> last, that defines it.
\<close>

theorem load_env_lookup:
  assumes "godotenv_spec load_file read"
  shows "load_env load_file paths env k =
           (case env k of
              None \<Rightarrow> first_defined read (paths @ [''.env'']) k
            | Some v \<Rightarrow> Some v)"
  unfolding load_env_def by (rule fold_load_lookup [OF assms])

definition sample_read :: "string \<Rightarrow> env option" where
  "sample_read f =
     (if f = ''cmd/api/.env'' then Some [''A'' \<mapsto> ''1'']
      else if f = ''.env'' then Some [''A'' \<mapsto> ''2'', ''B'' \<mapsto> ''2'', ''C'' \<mapsto> ''2''] else None)"

definition sample_load_file :: "string \<Rightarrow> env \<Rightarrow> env" where
  "sample_load_file f env = (case sample_read f of None \<Rightarrow> env | Some m \<Rightarrow> m ++ env)"

theorem load_env_lookup_witness:
  "map (load_env sample_load_file [''cmd/api/.env''] [''C'' \<mapsto> ''0'']) [''A'', ''B'', ''C'', ''D''] =
     [Some ''1'', Some ''2'', Some ''0'', None]"
proof -
  have "godotenv_spec sample_load_file sample_read"
    by (simp add: godotenv_spec_def sample_load_file_def)
  from load_env_lookup [OF this] show ?thesis by (simp add: sample_read_def)
qed

end
