(* ===== verification/Errcode.thy ===== *)
theory Errcode
  imports Prelude
begin

text \<open>
  Errors: the API error definitions of \<open>internal/errcode\<close>, Go's error values as far as the
  program builds and inspects them, and the client messages of \<open>pkg/validator\<close>.
\<close>

section \<open>internal/errcode\<close>

record errcode =
  ec_code :: int
  ec_reason :: string

definition new_error :: "int \<Rightarrow> string \<Rightarrow> errcode" where
  "new_error code reason = \<lparr>ec_code = code, ec_reason = reason\<rparr>"

definition code_of :: "errcode \<Rightarrow> int" where
  "code_of e = (if ec_code e \<le> 0 then 0 else ec_code e)"

definition reason_of :: "errcode \<Rightarrow> string" where
  "reason_of e = (if ec_reason e = [] then ''UNKNOWN_ERROR'' else ec_reason e)"

definition InvalidParams :: errcode where
  "InvalidParams = new_error 1001 ''INVALID_PARAMS''"
definition Unauthorized :: errcode where
  "Unauthorized = new_error 1002 ''UNAUTHORIZED''"
definition PermissionDenied :: errcode where
  "PermissionDenied = new_error 1003 ''PERMISSION_DENIED''"
definition TooManyRequests :: errcode where
  "TooManyRequests = new_error 1004 ''TOO_MANY_REQUESTS''"
definition RequestTimeout :: errcode where
  "RequestTimeout = new_error 1005 ''REQUEST_TIMEOUT''"
definition InternalError :: errcode where
  "InternalError = new_error 9001 ''INTERNAL_ERROR''"
definition DatabaseError :: errcode where
  "DatabaseError = new_error 9002 ''DATABASE_ERROR''"
definition QueueUnavailable :: errcode where
  "QueueUnavailable = new_error 9003 ''QUEUE_UNAVAILABLE''"
definition QueueError :: errcode where
  "QueueError = new_error 9004 ''QUEUE_ERROR''"

definition all_errcodes :: "errcode list" where
  "all_errcodes =
     [InvalidParams, Unauthorized, PermissionDenied, TooManyRequests, RequestTimeout,
      InternalError, DatabaseError, QueueUnavailable, QueueError]"

lemmas errcode_defs =
  InvalidParams_def Unauthorized_def PermissionDenied_def TooManyRequests_def RequestTimeout_def
  InternalError_def DatabaseError_def QueueUnavailable_def QueueError_def
  new_error_def code_of_def reason_of_def

section \<open>Error values\<close>

text \<open>
  A value of Go's \<open>error\<close> interface that is not nil. \<open>Plain\<close> is \<open>errors.New\<close> or \<open>fmt.Errorf\<close>
  without \<open>%w\<close> (the program's sentinels have pairwise different texts, so that equality of
  values decides identity); \<open>Coded\<close> is an \<open>errcode.Error\<close>; \<open>Wrapped pre e post\<close> is
  \<open>fmt.Errorf\<close> with \<open>%w\<close> between two texts; \<open>Joined\<close> is \<open>errors.Join\<close>; \<open>Validation\<close> is
  \<open>validator.ValidationErrors\<close> with its text; \<open>Foreign\<close> is any other error of a library, of
  which the program reads only the text. A function that returns \<open>error\<close> returns a
  \<open>go_error option\<close>, with \<open>None\<close> for nil.
\<close>

record field_error =
  fe_field :: string
  fe_tag :: string
  fe_param :: string

datatype go_error =
    Plain string
  | Coded errcode
  | Wrapped string go_error string
  | Joined "go_error list"
  | Validation "field_error list" string
  | Foreign string

fun error_text :: "go_error \<Rightarrow> string" where
  "error_text (Plain s) = s"
| "error_text (Coded e) = reason_of e"
| "error_text (Wrapped pre e post) = pre @ error_text e @ post"
| "error_text (Joined es) = join_with [CHR 0x0A] (map error_text es)"
| "error_text (Validation fs s) = s"
| "error_text (Foreign s) = s"

fun first_some :: "'a option list \<Rightarrow> 'a option" where
  "first_some [] = None"
| "first_some (None # xs) = first_some xs"
| "first_some (Some x # xs) = Some x"

text \<open>\<open>errors.As\<close> with a target of type \<open>errcode.Error\<close>: the first in the tree, depth first.\<close>

fun as_errcode :: "go_error \<Rightarrow> errcode option" where
  "as_errcode (Coded e) = Some e"
| "as_errcode (Wrapped pre e post) = as_errcode e"
| "as_errcode (Joined es) = first_some (map as_errcode es)"
| "as_errcode _ = None"

text \<open>\<open>errors.Is\<close>.\<close>

fun error_is :: "go_error \<Rightarrow> go_error \<Rightarrow> bool" where
  "error_is (Wrapped pre e post) t = (Wrapped pre e post = t \<or> error_is e t)"
| "error_is (Joined es) t = (Joined es = t \<or> list_ex (\<lambda>e. error_is e t) es)"
| "error_is e t = (e = t)"

text \<open>\<open>errors.Join\<close> drops the nil errors and is nil when nothing is left.\<close>

definition errors_join :: "go_error option list \<Rightarrow> go_error option" where
  "errors_join es =
     (case map the (filter (\<lambda>e. e \<noteq> None) es) of [] \<Rightarrow> None | fs \<Rightarrow> Some (Joined fs))"

definition wrap :: "string \<Rightarrow> go_error \<Rightarrow> go_error" where
  "wrap prefix_text e = Wrapped (prefix_text @ '': '') e []"

lemma as_errcode_wrap [simp]: "as_errcode (wrap m e) = as_errcode e"
  by (simp add: wrap_def)

lemma error_is_refl [simp]: "error_is e e"
  by (cases e) auto

lemma error_is_wrap: "error_is e t \<Longrightarrow> error_is (wrap m e) t"
  by (simp add: wrap_def)

section \<open>pkg/validator\<close>

definition handle_validator_error :: "field_error list \<Rightarrow> string" where
  "handle_validator_error errs =
     (case errs of
        [] \<Rightarrow> ''invalid request parameters''
      | err # _ \<Rightarrow>
          let field = to_lower (fe_field err) in
          if fe_tag err = ''required'' then field @ '' is required''
          else if fe_tag err = ''min'' then field @ '' must be at least '' @ fe_param err
          else if fe_tag err = ''max'' then field @ '' must be at most '' @ fe_param err
          else field @ '' is invalid'')"

section \<open>Properties\<close>

text \<open>
  The error codes are pairwise different and positive, the reasons are pairwise different
  and not empty, and \<open>Code\<close> and \<open>Reason\<close> return them unchanged: a client can tell every error
  from every other one by its code or by its reason.
\<close>

theorem errcodes_distinct:
  "distinct (map code_of all_errcodes) \<and> distinct (map reason_of all_errcodes) \<and>
   map code_of all_errcodes = map ec_code all_errcodes \<and>
   map reason_of all_errcodes = map ec_reason all_errcodes \<and>
   code_of e \<ge> 0 \<and> reason_of e \<noteq> []"
  by (simp add: all_errcodes_def errcode_defs)

end
