(* ===== verification/Logging.thy ===== *)
theory Logging
  imports Errcode
begin

text \<open>
  \<open>pkg/log\<close>: trace ids carried by contexts, the global logger, and its initialisation; and the
  part of Go's \<open>context\<close> package the program uses. The zap library is a parameter.
\<close>

section \<open>Contexts\<close>

text \<open>
  A context is the chain of what was derived from \<open>context.Background()\<close>, innermost first. The
  key types of the program are unexported structs, so only \<open>pkg/log\<close> writes \<open>TraceEntry\<close> and
  only \<open>internal/repository\<close> writes \<open>TxEntry\<close>. \<open>DeadlineEntry\<close> is \<open>context.WithTimeout\<close>.
  A nil context is \<open>None\<close>.
\<close>

datatype 'tx ctx_entry = TraceEntry string | TxEntry "'tx option" | DeadlineEntry int

type_synonym 'tx ctx = "'tx ctx_entry list"

definition background :: "'tx ctx" where
  "background = []"

fun ctx_trace :: "'tx ctx \<Rightarrow> string option" where
  "ctx_trace [] = None"
| "ctx_trace (TraceEntry t # c) = Some t"
| "ctx_trace (_ # c) = ctx_trace c"

fun ctx_tx :: "'tx ctx \<Rightarrow> 'tx option option" where
  "ctx_tx [] = None"
| "ctx_tx (TxEntry t # c) = Some t"
| "ctx_tx (_ # c) = ctx_tx c"

text \<open>\<open>ctx.Deadline()\<close>: the earliest deadline of the chain.\<close>

fun ctx_deadline :: "'tx ctx \<Rightarrow> int option" where
  "ctx_deadline [] = None"
| "ctx_deadline (DeadlineEntry d # c) =
     (case ctx_deadline c of None \<Rightarrow> Some d | Some d' \<Rightarrow> Some (min d d'))"
| "ctx_deadline (_ # c) = ctx_deadline c"

definition with_timeout :: "int \<Rightarrow> int \<Rightarrow> 'tx ctx \<Rightarrow> 'tx ctx" where
  "with_timeout now timeout c = DeadlineEntry (now + timeout) # c"

section \<open>Trace ids\<close>

definition with_trace_id :: "'tx ctx option \<Rightarrow> string \<Rightarrow> 'tx ctx" where
  "with_trace_id c trace_id =
     (let c = (case c of None \<Rightarrow> background | Some c \<Rightarrow> c) in TraceEntry trace_id # c)"

definition trace_id_from :: "'tx ctx option \<Rightarrow> string" where
  "trace_id_from c =
     (case c of
        None \<Rightarrow> []
      | Some c \<Rightarrow> (case ctx_trace c of Some v \<Rightarrow> v | None \<Rightarrow> []))"

definition ensure_trace_id :: "'tx ctx option \<Rightarrow> string \<Rightarrow> 'tx ctx" where
  "ensure_trace_id c trace_id =
     (let c = (case c of None \<Rightarrow> background | Some c \<Rightarrow> c) in
      if trace_id_from (Some c) \<noteq> [] then c
      else let trace_id = trim_space trace_id in
           if trace_id = [] then c else with_trace_id (Some c) trace_id)"

fun clean_parts :: "string list \<Rightarrow> string list" where
  "clean_parts [] = []"
| "clean_parts (part # parts) =
     (let part = trim_space part in
      if part \<noteq> [] then part # clean_parts parts else clean_parts parts)"

definition new_trace_id :: "string list \<Rightarrow> string" where
  "new_trace_id parts = join_with '':'' (clean_parts parts)"

section \<open>The global logger\<close>

text \<open>
  The zap functions the package calls, over a type \<open>'l\<close> of loggers and \<open>'v\<close> of levels.
  \<open>zap_level_set\<close> is \<open>zapcore.Level.Set\<close>, with its own error for an unknown level; \<open>zap_sync\<close> flushes a
  logger. \<open>zap_quote\<close> is the verb \<open>%q\<close> of \<open>fmt\<close>, which rests on Unicode's table of printable runes.
\<close>

datatype encoder = JSONEncoder | ConsoleEncoder

record 'v logger_opts =
  lo_encoder :: encoder
  lo_dev_encoder_config :: bool
  lo_level :: 'v
  lo_stacktrace :: 'v
  lo_development :: bool

record ('l, 'v) zap =
  zap_nop :: 'l
  zap_new :: "'v logger_opts \<Rightarrow> 'l"
  zap_with :: "string \<Rightarrow> string \<Rightarrow> 'l \<Rightarrow> 'l"
  zap_level_set :: "string \<Rightarrow> go_error + 'v"
  zap_sync :: "'l \<Rightarrow> go_error option"
  zap_quote :: "string \<Rightarrow> string"

record logger_config =
  lc_level :: string
  lc_format :: string
  lc_stacktrace_level :: string
  lc_service :: string

text \<open>The two globals: the package's atomic pointer and zap's own.\<close>

record 'l log_state =
  default_logger :: 'l
  zap_global :: 'l

text \<open>Before any \<open>Init\<close>: the package's \<open>init\<close> stores a logger that drops everything, as zap does.\<close>

definition log_start :: "('l, 'v) zap \<Rightarrow> 'l log_state" where
  "log_start z = \<lparr>default_logger = zap_nop z, zap_global = zap_nop z\<rparr>"

definition parse_level :: "('l, 'v) zap \<Rightarrow> string \<Rightarrow> go_error + 'v" where
  "parse_level z level =
     (let level = (if level = [] then ''info'' else level) in
      case zap_level_set z level of
        Inl err \<Rightarrow> Inl (wrap (''parse log level '' @ zap_quote z level) err)
      | Inr parsed \<Rightarrow> Inr parsed)"

definition store_logger :: "'l \<Rightarrow> 'l log_state \<Rightarrow> 'l log_state" where
  "store_logger l st = st\<lparr>default_logger := l, zap_global := l\<rparr>"

text \<open>\<open>Init\<close>: the error, or the logger and the new state.\<close>

definition log_init :: "('l, 'v) zap \<Rightarrow> logger_config \<Rightarrow> 'l log_state \<Rightarrow> go_error + 'l \<times> 'l log_state" where
  "log_init z cfg st =
     (case parse_level z (lc_level cfg) of
        Inl err \<Rightarrow> Inl err
      | Inr level \<Rightarrow>
          (case parse_level z (lc_stacktrace_level cfg) of
             Inl err \<Rightarrow> Inl err
           | Inr stacktrace_level \<Rightarrow>
               let development = (lc_format cfg = ''console'') in
               case (if lc_format cfg \<in> set [[], ''json''] then Some JSONEncoder
                     else if lc_format cfg = ''console'' then Some ConsoleEncoder else None) of
                 None \<Rightarrow> Inl (Plain (''unsupported log format '' @ zap_quote z (lc_format cfg)))
               | Some enc \<Rightarrow>
                   let logger = zap_new z \<lparr>lo_encoder = enc, lo_dev_encoder_config = development,
                                  lo_level = level, lo_stacktrace = stacktrace_level,
                                  lo_development = development\<rparr>;
                       logger = (if lc_service cfg \<noteq> []
                                 then zap_with z ''service'' (lc_service cfg) logger else logger)
                   in Inr (logger, store_logger logger st)))"

definition log_L :: "'l log_state \<Rightarrow> 'l" where
  "log_L st = default_logger st"

text \<open>\<open>SetLogger\<close> returns the new state and the function that restores the previous logger.\<close>

definition set_logger ::
    "('l, 'v) zap \<Rightarrow> 'l option \<Rightarrow> 'l log_state \<Rightarrow> 'l log_state \<times> ('l log_state \<Rightarrow> 'l log_state)" where
  "set_logger z logger st =
     (let logger = (case logger of None \<Rightarrow> zap_nop z | Some l \<Rightarrow> l);
          previous = default_logger st
      in (store_logger logger st, store_logger previous))"

definition log_sync :: "('l, 'v) zap \<Rightarrow> 'l log_state \<Rightarrow> go_error option" where
  "log_sync z st = zap_sync z (default_logger st)"

definition logger_from_context :: "('l, 'v) zap \<Rightarrow> 'l log_state \<Rightarrow> 'tx ctx option \<Rightarrow> 'l" where
  "logger_from_context z st c =
     (let entry = default_logger st; trace_id = trace_id_from c in
      if trace_id \<noteq> [] then zap_with z ''trace_id'' trace_id entry else entry)"

section \<open>Log entries\<close>

text \<open>
  What a call such as \<open>applog.FromContext(ctx).Info(msg, fields...)\<close> asks the logger to write:
  the other components keep the list of these calls as part of their effect. \<open>le_trace\<close> is the
  trace id \<open>FromContext\<close> attached, empty for none.
\<close>

datatype field_val = FStr string | FInt int | FBool bool | FErr go_error

record log_entry =
  le_severity :: string
  le_msg :: string
  le_trace :: string
  le_fields :: "(string \<times> field_val) list"

text \<open>\<open>Error\<close>: the fields it adds, zap's skipped field for nil.\<close>

definition log_error :: "go_error option \<Rightarrow> (string \<times> field_val) list" where
  "log_error err = (case err of None \<Rightarrow> [] | Some e \<Rightarrow> [(''error'', FErr e)])"

definition ctx_log :: "'tx ctx option \<Rightarrow> string \<Rightarrow> string \<Rightarrow> (string \<times> field_val) list \<Rightarrow> log_entry" where
  "ctx_log c severity msg flds =
     \<lparr>le_severity = severity, le_msg = msg, le_trace = trace_id_from c, le_fields = flds\<rparr>"

section \<open>Lemmas\<close>

lemma trace_id_from_with [simp]: "trace_id_from (Some (with_trace_id c t)) = t"
  by (simp add: trace_id_from_def with_trace_id_def Let_def)

lemma trace_id_from_nil [simp]: "trace_id_from None = []"
  by (simp add: trace_id_from_def)

lemma trace_id_from_background [simp]: "trace_id_from (Some background) = []"
  by (simp add: trace_id_from_def background_def)

lemma trace_id_from_entry [simp]:
  "trace_id_from (Some []) = []" "trace_id_from (Some (TraceEntry t # c)) = t"
  by (simp_all add: trace_id_from_def)

lemma trace_id_from_timeout [simp]:
  "trace_id_from (Some (with_timeout now t c)) = trace_id_from (Some c)"
  by (simp add: trace_id_from_def with_timeout_def)

lemma trace_id_from_tx [simp]: "trace_id_from (Some (TxEntry t # c)) = trace_id_from (Some c)"
  by (simp add: trace_id_from_def)

lemma ctx_tx_with_trace [simp]: "ctx_tx (with_trace_id (Some c) t) = ctx_tx c"
  by (simp add: with_trace_id_def Let_def)

lemma ensure_trace_id_cases:
  "ensure_trace_id c t =
     (if trace_id_from c \<noteq> [] \<or> trim_space t = [] then (case c of None \<Rightarrow> background | Some c \<Rightarrow> c)
      else with_trace_id c (trim_space t))"
  by (cases c) (auto simp: ensure_trace_id_def with_trace_id_def Let_def)

lemma trace_id_from_ensure:
  "trace_id_from (Some (ensure_trace_id c t)) =
     (if trace_id_from c \<noteq> [] then trace_id_from c else trim_space t)"
  by (cases c) (auto simp: ensure_trace_id_cases)

lemma clean_parts_filter: "clean_parts ps = filter (\<lambda>p. p \<noteq> []) (map trim_space ps)"
  by (induction ps) (auto simp: Let_def)

lemma store_store [simp]: "store_logger a (store_logger b st) = store_logger a st"
  by (simp add: store_logger_def)

lemma default_store [simp]:
  "default_logger (store_logger a st) = a" "zap_global (store_logger a st) = a"
  by (simp_all add: store_logger_def)

section \<open>Properties\<close>

text \<open>
  \<open>EnsureTraceID\<close> never replaces a trace id a context has, otherwise attaches the trimmed one
  it is given; it leaves a transaction in the context alone and doing it again changes nothing.
\<close>

theorem ensure_trace_id_spec:
  "trace_id_from (Some (ensure_trace_id c t)) =
     (if trace_id_from c \<noteq> [] then trace_id_from c else trim_space t) \<and>
   ensure_trace_id (Some (ensure_trace_id c t)) t' =
     (if trace_id_from c = [] \<and> trim_space t = [] then ensure_trace_id c t' else ensure_trace_id c t) \<and>
   ctx_tx (ensure_trace_id c t) = (case c of None \<Rightarrow> None | Some c \<Rightarrow> ctx_tx c)"
  by (cases c) (auto simp: ensure_trace_id_cases with_trace_id_def background_def)

text \<open>
  \<open>SetLogger\<close> and the function it returns nest like brackets: whatever loggers are installed
  in between, restoring in reverse order gives back the logger that was there, for the package
  and for zap's global; a nil logger counts as the no-op logger.
\<close>

theorem set_logger_restore:
  assumes "set_logger z l st = (st1, restore1)" and "set_logger z l' st1 = (st2, restore2)"
  shows "log_L st1 = (case l of None \<Rightarrow> zap_nop z | Some l \<Rightarrow> l) \<and> zap_global st1 = log_L st1 \<and>
         log_L (restore2 st2) = log_L st1 \<and>
         log_L (restore1 (restore2 st2)) = log_L st \<and> zap_global (restore1 (restore2 st2)) = log_L st"
  using assms by (auto simp: set_logger_def log_L_def Let_def)

definition sample_zap :: "(string, nat) zap" where
  "sample_zap =
     \<lparr>zap_nop = ''nop'', zap_new = (\<lambda>opts. ''core''), zap_with = (\<lambda>k v l. l @ '' '' @ k @ ''='' @ v),
      zap_level_set = (\<lambda>s. case map_of [(''debug'', 0), (''info'', 1), (''warn'', 2), (''error'', 3)] s of
                              None \<Rightarrow> Inl (Foreign ''unrecognized level'') | Some v \<Rightarrow> Inr v),
      zap_sync = (\<lambda>l. None), zap_quote = (\<lambda>s. s)\<rparr>"

theorem set_logger_restore_witness:
  "\<exists>st1 st2 restore1 restore2.
     set_logger sample_zap (Some ''a'') \<lparr>default_logger = ''d'', zap_global = ''d''\<rparr> = (st1, restore1) \<and>
     set_logger sample_zap None st1 = (st2, restore2) \<and> log_L st1 = ''a'' \<and> log_L st2 = ''nop'' \<and>
     log_L (restore2 st2) = ''a'' \<and> log_L (restore1 (restore2 st2)) = ''d''"
proof -
  define st where "st = \<lparr>default_logger = ''d'', zap_global = ''d''\<rparr>"
  obtain st1 restore1 where 1: "set_logger sample_zap (Some ''a'') st = (st1, restore1)" by fastforce
  obtain st2 restore2 where 2: "set_logger sample_zap None st1 = (st2, restore2)" by fastforce
  have "log_L st = ''d''" by (simp add: st_def log_L_def)
  moreover have "log_L st2 = ''nop''"
    using 2 by (auto simp: set_logger_def Let_def log_L_def sample_zap_def)
  ultimately show ?thesis
    using 1 2 set_logger_restore [OF 1 2] unfolding st_def by auto
qed

text \<open>
  \<open>Init\<close> succeeds exactly when the format is empty, \<open>json\<close> or \<open>console\<close> and both levels
  are known to zap, the empty one counting as \<open>info\<close>; then the logger it returns is the one
  installed, for the package and as zap's global.
\<close>

theorem log_init_installs:
  "(\<exists>l st'. log_init z cfg st = Inr (l, st')) =
     (lc_format cfg \<in> {[], ''json'', ''console''} \<and>
      (\<exists>v. zap_level_set z (if lc_level cfg = [] then ''info'' else lc_level cfg) = Inr v) \<and>
      (\<exists>v. zap_level_set z (if lc_stacktrace_level cfg = [] then ''info'' else lc_stacktrace_level cfg) = Inr v)) \<and>
   \<not> (\<exists>l st'. log_init z cfg st = Inr (l, st') \<and> \<not> (log_L st' = l \<and> zap_global st' = l))"
  by (auto simp: log_init_def parse_level_def log_L_def store_logger_def Let_def
      split: sum.splits option.splits if_splits)

end
