(* ===== verification/Effects.thy ===== *)
theory Effects
  imports Logging
begin

text \<open>
  What running a piece of the program does: it changes the state of the services outside it (a
  type \<open>'w\<close>: the database, Redis, the network), adds log entries, and returns or panics.
\<close>

record 'w app =
  app_world :: 'w
  app_logs :: "log_entry list"

text \<open>A panic carries its value, which the program only ever prints.\<close>

datatype ('a, 's) outcome = Returned 'a 's | Panicked string 's

fun and_then :: "('a, 's) outcome \<Rightarrow> ('a \<Rightarrow> 's \<Rightarrow> ('b, 's) outcome) \<Rightarrow> ('b, 's) outcome" where
  "and_then (Returned a s) k = k a s"
| "and_then (Panicked p s) k = Panicked p s"

fun outcome_state :: "('a, 's) outcome \<Rightarrow> 's" where
  "outcome_state (Returned a s) = s"
| "outcome_state (Panicked p s) = s"

definition nil_dereference :: string where
  "nil_dereference = ''runtime error: invalid memory address or nil pointer dereference''"

text \<open>A call of a library function on the outside state.\<close>

definition call_world :: "('w \<Rightarrow> 'a \<times> 'w) \<Rightarrow> 'w app \<Rightarrow> 'a \<times> 'w app" where
  "call_world f s = (case f (app_world s) of (a, w) \<Rightarrow> (a, s\<lparr>app_world := w\<rparr>))"

definition add_log :: "log_entry \<Rightarrow> 'w app \<Rightarrow> 'w app" where
  "add_log e s = s\<lparr>app_logs := app_logs s @ [e]\<rparr>"

text \<open>An entry of the global logger \<open>applog.L()\<close>, which attaches no trace id.\<close>

definition global_log :: "string \<Rightarrow> string \<Rightarrow> (string \<times> field_val) list \<Rightarrow> log_entry" where
  "global_log severity msg flds = ctx_log (None :: unit ctx option) severity msg flds"

lemma and_then_assoc: "and_then (and_then m k) k' = and_then m (\<lambda>a s. and_then (k a s) k')"
  by (cases m) simp_all

lemma and_then_Returned [simp]: "and_then m Returned = m"
  by (cases m) simp_all

lemma add_log_simps [simp]:
  "app_world (add_log e s) = app_world s" "app_logs (add_log e s) = app_logs s @ [e]"
  by (simp_all add: add_log_def)

lemma call_world_simps [simp]:
  "fst (call_world f s) = fst (f (app_world s))"
  "app_world (snd (call_world f s)) = snd (f (app_world s))"
  "app_logs (snd (call_world f s)) = app_logs s"
  by (simp_all add: call_world_def split: prod.split)

lemma call_world_eqI:
  "f (app_world s) = (a, w) \<Longrightarrow> call_world f s = (a, s\<lparr>app_world := w\<rparr>)"
  by (simp add: call_world_def)

end
