(* ===== verification/Infra.thy ===== *)
theory Infra
  imports Effects GoStd
begin

text \<open>
  \<open>pkg/cache\<close> and \<open>pkg/database\<close>: the nil-safe wrappers of the Redis client and of the GORM
  connection, and the settings of the connection pool. go-redis, GORM and the Postgres driver
  are parameters.
\<close>

section \<open>pkg/cache\<close>

record cache_config =
  kc_addr :: string
  kc_password :: string
  kc_db :: int

text \<open>
  The functions of go-redis, on a client \<open>'r\<close>; \<open>redis_quote\<close> is the verb \<open>%q\<close> of fmt.
\<close>

record ('r, 'db, 'w) redis_lib =
  redis_new :: "cache_config \<Rightarrow> 'w \<Rightarrow> 'r \<times> 'w"
  redis_ping :: "'r \<Rightarrow> 'db ctx \<Rightarrow> 'w \<Rightarrow> go_error option \<times> 'w"
  redis_close :: "'r \<Rightarrow> 'w \<Rightarrow> go_error option \<times> 'w"
  redis_get :: "'r \<Rightarrow> 'db ctx \<Rightarrow> string \<Rightarrow> 'w \<Rightarrow> (go_error + string) \<times> 'w"
  redis_set :: "'r \<Rightarrow> 'db ctx \<Rightarrow> string \<Rightarrow> string \<Rightarrow> int \<Rightarrow> 'w \<Rightarrow> go_error option \<times> 'w"
  redis_quote :: "string \<Rightarrow> string"

definition redis_Nil :: go_error where
  "redis_Nil = Foreign ''redis: nil''"

text \<open>A \<open>*Client\<close> is \<open>None\<close> when nil.\<close>

record 'r cache_client =
  cc_rdb :: "'r option"

definition underlying :: "'r cache_client option \<Rightarrow> 'r option" where
  "underlying c = (case c of None \<Rightarrow> None | Some c \<Rightarrow> cc_rdb c)"

definition new_cache_client ::
    "('r, 'db, 'w) redis_lib \<Rightarrow> cache_config \<Rightarrow> 'w app \<Rightarrow> (go_error + 'r cache_client) \<times> 'w app" where
  "new_cache_client L cfg s =
     (if trim_space (kc_addr cfg) = [] then (Inl (Plain ''redis address is required''), s)
      else
        (case call_world (redis_new L cfg) s of
           (rdb, s) \<Rightarrow>
             (case call_world (redis_ping L rdb background) s of
                (Some err, s) \<Rightarrow> (Inl (wrap ''connect to redis'' err), s)
              | (None, s) \<Rightarrow>
                  (Inr \<lparr>cc_rdb = Some rdb\<rparr>,
                   add_log (global_log ''info'' ''redis connection successful''
                     [(''addr'', FStr (kc_addr cfg)), (''db'', FInt (kc_db cfg))]) s))))"

definition cache_ping ::
    "('r, 'db, 'w) redis_lib \<Rightarrow> 'r cache_client option \<Rightarrow> 'db ctx \<Rightarrow> 'w \<Rightarrow> go_error option \<times> 'w" where
  "cache_ping L c ctx w =
     (case underlying c of
        None \<Rightarrow> (Some (Plain ''redis client is not configured''), w)
      | Some rdb \<Rightarrow>
          (case redis_ping L rdb ctx w of
             (Some err, w) \<Rightarrow> (Some (wrap ''ping redis'' err), w)
           | (None, w) \<Rightarrow> (None, w)))"

definition cache_close ::
    "('r, 'db, 'w) redis_lib \<Rightarrow> 'r cache_client option \<Rightarrow> 'w \<Rightarrow> go_error option \<times> 'w" where
  "cache_close L c w = (case underlying c of None \<Rightarrow> (None, w) | Some rdb \<Rightarrow> redis_close L rdb w)"

definition cache_get ::
    "('r, 'db, 'w) redis_lib \<Rightarrow> 'r cache_client option \<Rightarrow> 'db ctx \<Rightarrow> string \<Rightarrow> 'w \<Rightarrow> (go_error + string) \<times> 'w" where
  "cache_get L c ctx key w =
     (case underlying c of
        None \<Rightarrow> (Inl (Plain ''redis client is not configured''), w)
      | Some rdb \<Rightarrow>
          (case redis_get L rdb ctx key w of
             (Inl err, w) \<Rightarrow>
               if err = redis_Nil then (Inr [], w)
               else (Inl (wrap (''redis get '' @ redis_quote L key) err), w)
           | (Inr val, w) \<Rightarrow> (Inr val, w)))"

definition cache_set ::
    "('r, 'db, 'w) redis_lib \<Rightarrow> 'r cache_client option \<Rightarrow> 'db ctx \<Rightarrow> string \<Rightarrow> string \<Rightarrow> int \<Rightarrow> 'w \<Rightarrow>
     go_error option \<times> 'w" where
  "cache_set L c ctx key val ttl w =
     (case underlying c of
        None \<Rightarrow> (Some (Plain ''redis client is not configured''), w)
      | Some rdb \<Rightarrow>
          (case redis_set L rdb ctx key val ttl w of
             (Some err, w) \<Rightarrow> (Some (wrap (''redis set '' @ redis_quote L key) err), w)
           | (None, w) \<Rightarrow> (None, w)))"

section \<open>database/sql's pool\<close>

text \<open>
  The settings of a \<open>sql.DB\<close> and its setters, from Go's standard library: an idle count of 0
  means the default of 2, a negative one none; the idle count is cut to the open count.
\<close>

record sql_pool =
  sp_max_idle_count :: int
  sp_max_open :: int
  sp_max_lifetime :: int
  sp_max_idle_time :: int

definition max_idle_conns :: "sql_pool \<Rightarrow> int" where
  "max_idle_conns p =
     (let n = sp_max_idle_count p in if n = 0 then 2 else if n < 0 then 0 else n)"

definition set_max_idle_conns :: "int \<Rightarrow> sql_pool \<Rightarrow> sql_pool" where
  "set_max_idle_conns n p =
     (let p = p\<lparr>sp_max_idle_count := (if 0 < n then n else - 1)\<rparr> in
      if 0 < sp_max_open p \<and> sp_max_open p < max_idle_conns p
      then p\<lparr>sp_max_idle_count := sp_max_open p\<rparr> else p)"

definition set_max_open_conns :: "int \<Rightarrow> sql_pool \<Rightarrow> sql_pool" where
  "set_max_open_conns n p =
     (let p = p\<lparr>sp_max_open := (if n < 0 then 0 else n)\<rparr> in
      if 0 < sp_max_open p \<and> sp_max_open p < max_idle_conns p then set_max_idle_conns n p else p)"

definition set_conn_max_lifetime :: "int \<Rightarrow> sql_pool \<Rightarrow> sql_pool" where
  "set_conn_max_lifetime d p = p\<lparr>sp_max_lifetime := (if d < 0 then 0 else d)\<rparr>"

definition set_conn_max_idle_time :: "int \<Rightarrow> sql_pool \<Rightarrow> sql_pool" where
  "set_conn_max_idle_time d p = p\<lparr>sp_max_idle_time := (if d < 0 then 0 else d)\<rparr>"

section \<open>pkg/database\<close>

record database_config =
  dc_dsn :: string
  dc_log_level :: string
  dc_max_idle_conns :: int
  dc_max_open_conns :: int
  dc_conn_max_lifetime :: int
  dc_conn_max_idle_time :: int

record pool_settings =
  ps_max_idle_conns :: int
  ps_max_open_conns :: int
  ps_conn_max_lifetime :: int
  ps_conn_max_idle_time :: int

datatype gorm_log_level = GormSilent | GormError | GormWarn | GormInfo

text \<open>GORM's levels are numbers: the higher, the more is logged.\<close>

fun gorm_level_number :: "gorm_log_level \<Rightarrow> nat" where
  "gorm_level_number GormSilent = 1"
| "gorm_level_number GormError = 2"
| "gorm_level_number GormWarn = 3"
| "gorm_level_number GormInfo = 4"

instantiation gorm_log_level :: linorder
begin

definition less_eq_gorm_log_level :: "gorm_log_level \<Rightarrow> gorm_log_level \<Rightarrow> bool" where
  "a \<le> b \<longleftrightarrow> gorm_level_number a \<le> gorm_level_number b"

definition less_gorm_log_level :: "gorm_log_level \<Rightarrow> gorm_log_level \<Rightarrow> bool" where
  "a < b \<longleftrightarrow> gorm_level_number a < gorm_level_number b"

instance
proof
  fix a b :: gorm_log_level
  show "a \<le> b \<Longrightarrow> b \<le> a \<Longrightarrow> a = b"
    by (cases a; cases b) (simp_all add: less_eq_gorm_log_level_def)
qed (auto simp: less_eq_gorm_log_level_def less_gorm_log_level_def)

end

text \<open>
  \<open>db_open\<close> is \<open>gorm.Open\<close> with the Postgres driver, \<open>db_sql\<close> is \<open>DB.DB()\<close>; \<open>sql_update\<close> changes
  the pool settings of a \<open>sql.DB\<close> by one of its setters.
\<close>

record ('db, 'sql, 'w) db_lib =
  db_open :: "string \<Rightarrow> gorm_log_level \<Rightarrow> 'w \<Rightarrow> (go_error + 'db) \<times> 'w"
  db_sql :: "'db \<Rightarrow> go_error + 'sql"
  sql_ping :: "'sql \<Rightarrow> 'db ctx \<Rightarrow> 'w \<Rightarrow> go_error option \<times> 'w"
  sql_close :: "'sql \<Rightarrow> 'w \<Rightarrow> go_error option \<times> 'w"
  sql_update :: "'sql \<Rightarrow> (sql_pool \<Rightarrow> sql_pool) \<Rightarrow> 'w \<Rightarrow> 'w"

record 'db db_manager =
  dm_primary :: "'db option"

definition dm_db :: "'db db_manager option \<Rightarrow> 'db option" where
  "dm_db m = (case m of None \<Rightarrow> None | Some m \<Rightarrow> dm_primary m)"

definition new_test_manager :: "'db option \<Rightarrow> 'db db_manager" where
  "new_test_manager db = \<lparr>dm_primary = db\<rparr>"

definition normalize_pool_settings :: "database_config \<Rightarrow> pool_settings" where
  "normalize_pool_settings cfg =
     (let st = \<lparr>ps_max_idle_conns = dc_max_idle_conns cfg, ps_max_open_conns = dc_max_open_conns cfg,
                ps_conn_max_lifetime = dc_conn_max_lifetime cfg,
                ps_conn_max_idle_time = dc_conn_max_idle_time cfg\<rparr>;
          st = (if ps_max_idle_conns st \<le> 0 then st\<lparr>ps_max_idle_conns := 15\<rparr> else st);
          st = (if ps_max_open_conns st \<le> 0 then st\<lparr>ps_max_open_conns := 30\<rparr> else st);
          st = (if ps_conn_max_lifetime st \<le> 0 then st\<lparr>ps_conn_max_lifetime := 30 * minute\<rparr> else st)
      in if ps_conn_max_idle_time st \<le> 0 then st\<lparr>ps_conn_max_idle_time := 5 * minute\<rparr> else st)"

definition parse_log_level :: "string \<Rightarrow> 'w app \<Rightarrow> gorm_log_level \<times> 'w app" where
  "parse_log_level level s =
     (let l = to_lower (trim_space level) in
      if l = ''silent'' then (GormSilent, s)
      else if l = ''error'' then (GormError, s)
      else if l = ''info'' then (GormInfo, s)
      else if l = ''warn'' \<or> l = ''warning'' \<or> l = [] then (GormWarn, s)
      else (GormWarn,
            add_log (global_log ''warn'' ''unknown gorm log level; falling back to warn''
              [(''level'', FStr level)]) s))"

definition new_gorm_logger :: "string \<Rightarrow> 'w app \<Rightarrow> gorm_log_level \<times> 'w app" where
  "new_gorm_logger level s = parse_log_level level s"

definition pool_setters :: "pool_settings \<Rightarrow> (sql_pool \<Rightarrow> sql_pool) list" where
  "pool_setters pool =
     [set_max_idle_conns (ps_max_idle_conns pool), set_max_open_conns (ps_max_open_conns pool),
      set_conn_max_lifetime (ps_conn_max_lifetime pool), set_conn_max_idle_time (ps_conn_max_idle_time pool)]"

definition tune_pool ::
    "('db, 'sql, 'w) db_lib \<Rightarrow> 'db \<Rightarrow> pool_settings \<Rightarrow> 'w \<Rightarrow> go_error option \<times> 'w" where
  "tune_pool D db pool w =
     (case db_sql D db of
        Inl err \<Rightarrow> (Some (wrap ''get sql.DB'' err), w)
      | Inr sql \<Rightarrow> (None, fold (sql_update D sql) (pool_setters pool) w))"

definition database_init ::
    "('db, 'sql, 'w) db_lib \<Rightarrow> database_config \<Rightarrow> 'w app \<Rightarrow> (go_error + 'db db_manager) \<times> 'w app" where
  "database_init D cfg s =
     (if trim_space (dc_dsn cfg) = [] then (Inr \<lparr>dm_primary = None\<rparr>, s)
      else
        let pool = normalize_pool_settings cfg in
        case new_gorm_logger (dc_log_level cfg) s of
          (level, s) \<Rightarrow>
            (case call_world (db_open D (dc_dsn cfg) level) s of
               (Inl err, s) \<Rightarrow> (Inl (wrap ''connect to postgres'' err), s)
             | (Inr primary, s) \<Rightarrow>
                 (case call_world (tune_pool D primary pool) s of
                    (Some err, s) \<Rightarrow> (Inl err, s)
                  | (None, s) \<Rightarrow>
                      (Inr \<lparr>dm_primary = Some primary\<rparr>,
                       add_log (global_log ''info'' ''postgres connected'' []) s))))"

definition dm_ping ::
    "('db, 'sql, 'w) db_lib \<Rightarrow> 'db db_manager option \<Rightarrow> 'db ctx \<Rightarrow> 'w \<Rightarrow> go_error option \<times> 'w" where
  "dm_ping D m ctx w =
     (case dm_db m of
        None \<Rightarrow> (Some (Plain ''database is not configured''), w)
      | Some primary \<Rightarrow>
          (case db_sql D primary of
             Inl err \<Rightarrow> (Some (wrap ''get sql.DB'' err), w)
           | Inr sql \<Rightarrow>
               (case sql_ping D sql ctx w of
                  (Some err, w) \<Rightarrow> (Some (wrap ''ping database'' err), w)
                | (None, w) \<Rightarrow> (None, w))))"

definition dm_close ::
    "('db, 'sql, 'w) db_lib \<Rightarrow> 'db db_manager option \<Rightarrow> 'w \<Rightarrow> go_error option \<times> 'w" where
  "dm_close D m w =
     (case dm_db m of
        None \<Rightarrow> (None, w)
      | Some primary \<Rightarrow>
          (case db_sql D primary of
             Inl err \<Rightarrow> (Some err, w)
           | Inr sql \<Rightarrow> sql_close D sql w))"

section \<open>Lemmas\<close>

text \<open>A new \<open>sql.DB\<close>, and what its setters do to the settings seen through \<open>view\<close>.\<close>

definition new_sql_pool :: sql_pool where
  "new_sql_pool = \<lparr>sp_max_idle_count = 0, sp_max_open = 0, sp_max_lifetime = 0, sp_max_idle_time = 0\<rparr>"

definition sql_update_ok :: "('db, 'sql, 'w) db_lib \<Rightarrow> ('sql \<Rightarrow> 'w \<Rightarrow> sql_pool) \<Rightarrow> bool" where
  "sql_update_ok D view \<longleftrightarrow> (\<forall>sql f w. view sql (sql_update D sql f w) = f (view sql w))"

lemma view_fold:
  "sql_update_ok D view \<Longrightarrow> view sql (fold (sql_update D sql) fs w) = fold (\<lambda>f. f) fs (view sql w)"
  by (induction fs arbitrary: w) (simp_all add: sql_update_ok_def)

lemma tuned_pool:
  assumes "0 < ps_max_idle_conns st" "0 < ps_max_open_conns st" "0 < ps_conn_max_lifetime st" "0 < ps_conn_max_idle_time st"
  shows "fold (\<lambda>f. f) (pool_setters st) new_sql_pool =
    \<lparr>sp_max_idle_count = min (ps_max_idle_conns st) (ps_max_open_conns st), sp_max_open = ps_max_open_conns st,
     sp_max_lifetime = ps_conn_max_lifetime st, sp_max_idle_time = ps_conn_max_idle_time st\<rparr>"
  using assms
  by (simp add: pool_setters_def set_max_idle_conns_def set_max_open_conns_def set_conn_max_lifetime_def
      set_conn_max_idle_time_def new_sql_pool_def max_idle_conns_def Let_def min_def)

lemma normalize_pool_settings_eq:
  "normalize_pool_settings cfg =
     \<lparr>ps_max_idle_conns = (if 0 < dc_max_idle_conns cfg then dc_max_idle_conns cfg else 15),
      ps_max_open_conns = (if 0 < dc_max_open_conns cfg then dc_max_open_conns cfg else 30),
      ps_conn_max_lifetime = (if 0 < dc_conn_max_lifetime cfg then dc_conn_max_lifetime cfg else 30 * minute),
      ps_conn_max_idle_time = (if 0 < dc_conn_max_idle_time cfg then dc_conn_max_idle_time cfg else 5 * minute)\<rparr>"
  by (simp add: normalize_pool_settings_def Let_def)

section \<open>Properties\<close>

text \<open>
  SQL statements, which GORM logs from the info level on, are logged only when the level asks for
  them by name, in any case and with spaces around; every other text is the level warn or less.
\<close>

lemma parse_log_level_quiet:
  "fst (parse_log_level level s) \<le> GormWarn \<longleftrightarrow> to_lower (trim_space level) \<noteq> ''info''"
  by (simp add: parse_log_level_def less_eq_gorm_log_level_def Let_def)

text \<open>
  The wrappers are safe without a connection: on a nil client or manager, or one without a
  connection, closing succeeds and does nothing, and everything else is an error without effect.
  A blank DSN gives such a manager, not an error.
\<close>

theorem unconfigured_is_safe:
  assumes "underlying c = None" and "dm_db m = None"
  shows "cache_close L c w = (None, w) \<and>
      cache_ping L c ctx w = (Some (Plain ''redis client is not configured''), w) \<and>
      cache_get L c ctx k w = (Inl (Plain ''redis client is not configured''), w) \<and>
      cache_set L c ctx k v ttl w = (Some (Plain ''redis client is not configured''), w) \<and>
      dm_close D m w = (None, w) \<and>
      dm_ping D m ctx w = (Some (Plain ''database is not configured''), w) \<and>
      database_init D (cfg\<lparr>dc_dsn := '' ''\<rparr>) s = (Inr \<lparr>dm_primary = None\<rparr>, s)"
proof -
  have "trim_space '' '' = []" by code_simp
  with assms show ?thesis
    by (simp add: cache_close_def cache_ping_def cache_get_def cache_set_def dm_close_def dm_ping_def database_init_def)
qed

theorem unconfigured_is_safe_witness:
  "cache_close (L :: (unit, unit, nat) redis_lib) None 7 = (None, 7) \<and>
   dm_ping (D :: (unit, unit, nat) db_lib) (Some \<lparr>dm_primary = None\<rparr>) background 7 =
     (Some (Plain ''database is not configured''), 7)"
  using unconfigured_is_safe [where c = "None :: unit cache_client option" and m = "Some \<lparr>dm_primary = (None :: unit option)\<rparr>"
      and L = L and D = D and w = 7 and ctx = background]
  by (simp add: underlying_def dm_db_def)

text \<open>
  C38. A database connection is never left with an unusable pool: whatever the configuration, the
  settings \<open>tunePool\<close> leaves allow at least one open connection, keep at least one and at most as
  many idle ones as open ones, and close connections after a positive time; a positive setting is
  kept, except that the idle count is cut to the open one.
\<close>

theorem tuned_pool_usable:
  assumes "sql_update_ok D view" and "view sql w = new_sql_pool" and "db_sql D db = Inr sql"
    and "tune_pool D db (normalize_pool_settings cfg) w = (r, w')"
  shows "r = None \<and> 1 \<le> max_idle_conns (view sql w') \<and> max_idle_conns (view sql w') \<le> sp_max_open (view sql w') \<and>
     0 < sp_max_lifetime (view sql w') \<and> 0 < sp_max_idle_time (view sql w') \<and>
     sp_max_open (view sql w') = (if 0 < dc_max_open_conns cfg then dc_max_open_conns cfg else 30) \<and>
     max_idle_conns (view sql w') =
       min (if 0 < dc_max_idle_conns cfg then dc_max_idle_conns cfg else 15) (sp_max_open (view sql w'))"
proof -
  define st where "st = normalize_pool_settings cfg"
  have pos: "0 < ps_max_idle_conns st" "0 < ps_max_open_conns st" "0 < ps_conn_max_lifetime st" "0 < ps_conn_max_idle_time st"
    by (simp_all add: st_def normalize_pool_settings_eq minute_def second_def)
  have "r = None" "w' = fold (sql_update D sql) (pool_setters st) w"
    using assms(3,4) by (simp_all add: tune_pool_def st_def)
  moreover from this have v: "view sql w' =
    \<lparr>sp_max_idle_count = min (ps_max_idle_conns st) (ps_max_open_conns st), sp_max_open = ps_max_open_conns st,
     sp_max_lifetime = ps_conn_max_lifetime st, sp_max_idle_time = ps_conn_max_idle_time st\<rparr>"
    using view_fold [OF assms(1)] assms(2) tuned_pool [OF pos] by simp
  moreover have "max_idle_conns (view sql w') = min (ps_max_idle_conns st) (ps_max_open_conns st)"
    using pos v by (simp add: max_idle_conns_def Let_def min_def)
  moreover have "ps_max_open_conns st = (if 0 < dc_max_open_conns cfg then dc_max_open_conns cfg else 30)"
      "ps_max_idle_conns st = (if 0 < dc_max_idle_conns cfg then dc_max_idle_conns cfg else 15)"
    by (simp_all add: st_def normalize_pool_settings_eq)
  ultimately show ?thesis using pos by simp
qed

definition sample_db_lib :: "(unit, unit, sql_pool) db_lib" where
  "sample_db_lib =
     \<lparr>db_open = (\<lambda>dsn level w. (Inr (), w)), db_sql = (\<lambda>db. Inr ()), sql_ping = (\<lambda>sql ctx w. (None, w)),
      sql_close = (\<lambda>sql w. (None, w)), sql_update = (\<lambda>sql f w. f w)\<rparr>"

theorem tuned_pool_usable_witness:
  "\<exists>w'. tune_pool sample_db_lib () (normalize_pool_settings
      \<lparr>dc_dsn = ''d'', dc_log_level = [], dc_max_idle_conns = 50, dc_max_open_conns = 10,
       dc_conn_max_lifetime = 0, dc_conn_max_idle_time = 0\<rparr>) new_sql_pool = (None, w') \<and> max_idle_conns w' = 10"
proof -
  let ?cfg = "\<lparr>dc_dsn = ''d'', dc_log_level = [], dc_max_idle_conns = 50, dc_max_open_conns = 10,
       dc_conn_max_lifetime = 0, dc_conn_max_idle_time = 0\<rparr>"
  obtain r w' where t: "tune_pool sample_db_lib () (normalize_pool_settings ?cfg) new_sql_pool = (r, w')" by fastforce
  have "sql_update_ok sample_db_lib (\<lambda>sql w. w)" by (simp add: sql_update_ok_def sample_db_lib_def)
  from tuned_pool_usable [OF this _ _ t, of "()"] t show ?thesis by (simp add: sample_db_lib_def)
qed

text \<open>What Redis promises of a plain \<open>SET\<close> without expiry: it can be read back, other keys are kept.\<close>

definition redis_store_ok :: "('r, 'db, 'w) redis_lib \<Rightarrow> ('r \<Rightarrow> 'w \<Rightarrow> string \<rightharpoonup> string) \<Rightarrow> bool" where
  "redis_store_ok L db \<longleftrightarrow>
     (\<forall>r ctx k w. case redis_get L r ctx k w of
        (Inr v, w') \<Rightarrow> db r w k = Some v \<and> db r w' = db r w
      | (Inl e, w') \<Rightarrow> (e = redis_Nil \<longrightarrow> db r w k = None) \<and> db r w' = db r w) \<and>
     (\<forall>r ctx k v w w'. redis_set L r ctx k v 0 w = (None, w') \<longrightarrow> db r w' = (db r w)(k \<mapsto> v))"

text \<open>
  What was set is what is got: after a successful \<open>Set\<close> without expiry, a \<open>Get\<close> that
  succeeds returns the value for this key, and for another key what it returned before: its
  value, or the empty string when there is none.
\<close>

theorem cache_get_set:
  assumes "redis_store_ok L db" and "underlying c = Some r"
    and "cache_set L c ctx k v 0 w = (None, w')" and "cache_get L c ctx k' w' = (Inr x, w'')"
  shows "x = (if k' = k then v else case db r w k' of None \<Rightarrow> [] | Some y \<Rightarrow> y)"
proof -
  have "redis_set L r ctx k v 0 w = (None, w')"
    using assms(2,3) by (auto simp: cache_set_def split: prod.splits option.splits)
  then have w': "db r w' = (db r w)(k \<mapsto> v)" using assms(1) unfolding redis_store_ok_def by blast
  have "case redis_get L r ctx k' w' of
        (Inr v, w'') \<Rightarrow> db r w' k' = Some v \<and> db r w'' = db r w'
      | (Inl e, w'') \<Rightarrow> (e = redis_Nil \<longrightarrow> db r w' k' = None) \<and> db r w'' = db r w'"
    using assms(1) unfolding redis_store_ok_def by (elim conjE) (elim allE)
  then show ?thesis
    using assms(2,4) w' by (auto simp: cache_get_def split: prod.splits sum.splits if_splits)
qed

definition sample_redis :: "(unit, unit, string \<rightharpoonup> string) redis_lib" where
  "sample_redis =
     \<lparr>redis_new = (\<lambda>cfg w. ((), w)), redis_ping = (\<lambda>r ctx w. (None, w)), redis_close = (\<lambda>r w. (None, w)),
      redis_get = (\<lambda>r ctx k w. (case w k of None \<Rightarrow> Inl redis_Nil | Some v \<Rightarrow> Inr v, w)),
      redis_set = (\<lambda>r ctx k v ttl w. (None, w(k \<mapsto> v))), redis_quote = (\<lambda>k. k)\<rparr>"

theorem cache_get_set_witness:
  "\<exists>w' x w''. cache_set sample_redis (Some \<lparr>cc_rdb = Some ()\<rparr>) background ''k'' ''v'' 0 Map.empty = (None, w') \<and>
     cache_get sample_redis (Some \<lparr>cc_rdb = Some ()\<rparr>) background ''k'' w' = (Inr x, w'') \<and> x = ''v''"
proof -
  have ok: "redis_store_ok sample_redis (\<lambda>r w. w)"
    by (auto simp: redis_store_ok_def sample_redis_def split: option.split)
  have u: "underlying (Some \<lparr>cc_rdb = Some ()\<rparr>) = Some ()" by (simp add: underlying_def)
  have s: "cache_set sample_redis (Some \<lparr>cc_rdb = Some ()\<rparr>) background ''k'' ''v'' 0 Map.empty = (None, [''k'' \<mapsto> ''v''])"
    by (simp add: cache_set_def underlying_def sample_redis_def)
  obtain x where g: "cache_get sample_redis (Some \<lparr>cc_rdb = Some ()\<rparr>) background ''k'' [''k'' \<mapsto> ''v''] = (Inr x, [''k'' \<mapsto> ''v''])"
    by (simp add: cache_get_def underlying_def sample_redis_def)
  from cache_get_set [OF ok u s g] s g show ?thesis by auto
qed

section \<open>Libraries that always connect\<close>

text \<open>The outside counts how many connections are open; opening one always works.\<close>

definition open_db :: "(nat, nat, nat) db_lib" where
  "open_db =
     \<lparr>db_open = (\<lambda>dsn level w. (Inr w, w + 1)), db_sql = (\<lambda>db. Inr db), sql_ping = (\<lambda>sql ctx w. (None, w)),
      sql_close = (\<lambda>sql w. (None, w - 1)), sql_update = (\<lambda>sql f w. w)\<rparr>"

definition open_redis :: "(nat, nat, nat) redis_lib" where
  "open_redis =
     \<lparr>redis_new = (\<lambda>cfg w. (w, w + 1)), redis_ping = (\<lambda>r ctx w. (None, w)), redis_close = (\<lambda>r w. (None, w - 1)),
      redis_get = (\<lambda>r ctx k w. (Inl redis_Nil, w)), redis_set = (\<lambda>r ctx k v ttl w. (None, w)), redis_quote = (\<lambda>k. k)\<rparr>"

end
