(* ===== verification/Json.thy ===== *)
theory Json
  imports GoStd
begin

text \<open>
  The part of Go's \<open>encoding/json\<close> the tasks rest on: \<open>Marshal\<close> of a struct of strings, with its
  escapes, and \<open>Unmarshal\<close> of any JSON text into a struct of strings. Both work on bytes; a byte
  that is not part of a valid UTF-8 encoding becomes U+FFFD, on either way.
\<close>

section \<open>UTF-8\<close>

definition byte_in :: "char \<Rightarrow> nat \<Rightarrow> nat \<Rightarrow> bool" where
  "byte_in c lo hi \<longleftrightarrow> lo \<le> of_char c \<and> of_char c \<le> hi"

text \<open>
  The length of the valid encoding at the front of a string, 0 when there is none: the first
  byte tells the length and the range of the second one, the others are continuation bytes.
\<close>

definition lead_size :: "char \<Rightarrow> nat" where
  "lead_size c =
     (if byte_in c 0 0x7F then 1 else if byte_in c 0xC2 0xDF then 2
      else if byte_in c 0xE0 0xEF then 3 else if byte_in c 0xF0 0xF4 then 4 else 0)"

definition second_ok :: "char \<Rightarrow> char \<Rightarrow> bool" where
  "second_ok b0 b1 =
     byte_in b1 (if b0 = CHR 0xE0 then 0xA0 else if b0 = CHR 0xF0 then 0x90 else 0x80)
                (if b0 = CHR 0xED then 0x9F else if b0 = CHR 0xF4 then 0x8F else 0xBF)"

fun encoding_ok :: "string \<Rightarrow> bool" where
  "encoding_ok [] = False"
| "encoding_ok [b0] = True"
| "encoding_ok (b0 # b1 # bs) = (second_ok b0 b1 \<and> list_all (\<lambda>b. byte_in b 0x80 0xBF) bs)"

definition utf8_size :: "string \<Rightarrow> nat" where
  "utf8_size s =
     (if s = [] then 0
      else let n = lead_size (hd s) in
           if n \<noteq> 0 \<and> n \<le> length s \<and> encoding_ok (take n s) then n else 0)"

definition encode_rune :: "nat \<Rightarrow> string" where
  "encode_rune r =
     (if r < 0x80 then [char_of r]
      else if r < 0x800 then [char_of (0xC0 + r div 64), char_of (0x80 + r mod 64)]
      else if r < 0x10000 then
        [char_of (0xE0 + r div 4096), char_of (0x80 + r div 64 mod 64), char_of (0x80 + r mod 64)]
      else
        [char_of (0xF0 + r div 262144), char_of (0x80 + r div 4096 mod 64),
         char_of (0x80 + r div 64 mod 64), char_of (0x80 + r mod 64)])"

definition replacement :: string where
  "replacement = [CHR 0xEF, CHR 0xBF, CHR 0xBD]"

lemma utf8_size_le: "utf8_size s \<le> length s"
  by (simp add: utf8_size_def Let_def)

lemma utf8_size_append: "utf8_size s \<noteq> 0 \<Longrightarrow> utf8_size (take (utf8_size s) s @ t) = utf8_size s"
  by (auto simp: utf8_size_def Let_def hd_append split: if_splits)

lemma utf8_size_ascii: "of_char c < (0x80::nat) \<Longrightarrow> utf8_size (c # s) = 1"
  by (simp add: utf8_size_def lead_size_def byte_in_def)

text \<open>Every byte that starts no valid encoding replaced by U+FFFD.\<close>

function to_valid_utf8 :: "string \<Rightarrow> string" where
  "to_valid_utf8 s =
     (if s = [] then []
      else if utf8_size s = 0 then replacement @ to_valid_utf8 (tl s)
      else take (utf8_size s) s @ to_valid_utf8 (drop (utf8_size s) s))"
  by pat_completeness auto
termination by (relation "measure length") (auto simp: less_Suc_eq_le)

declare to_valid_utf8.simps [simp del]

lemma to_valid_utf8_step:
  "utf8_size s \<noteq> 0 \<Longrightarrow>
   to_valid_utf8 s = take (utf8_size s) s @ to_valid_utf8 (drop (utf8_size s) s)"
  by (subst to_valid_utf8.simps) (auto simp: utf8_size_def)

definition valid_utf8 :: "string \<Rightarrow> bool" where
  "valid_utf8 s \<longleftrightarrow> to_valid_utf8 s = s"

section \<open>Marshal\<close>

definition hex_digit :: "nat \<Rightarrow> char" where
  "hex_digit n = (if n < 10 then char_of (48 + n) else char_of (87 + n))"

text \<open>The bytes copied as they are; \<open>Marshal\<close> also escapes what is special in HTML.\<close>

definition html_safe :: "char \<Rightarrow> bool" where
  "html_safe c \<longleftrightarrow>
     (0x20::nat) \<le> of_char c \<and> c \<noteq> CHR 0x22 \<and> c \<noteq> CHR 0x5C \<and> c \<noteq> CHR ''<'' \<and> c \<noteq> CHR ''>'' \<and> c \<noteq> CHR ''&''"

definition json_escape :: "char \<Rightarrow> string" where
  "json_escape c =
     CHR 0x5C #
       (if c = CHR 0x5C \<or> c = CHR 0x22 then [c]
        else if c = CHR 0x08 then ''b''
        else if c = CHR 0x0C then ''f''
        else if c = CHR 0x0A then ''n''
        else if c = CHR 0x0D then ''r''
        else if c = CHR 0x09 then ''t''
        else ''u00'' @ [hex_digit (of_char c div 16), hex_digit (of_char c mod 16)])"

function json_chars :: "string \<Rightarrow> string" where
  "json_chars s =
     (case s of
        [] \<Rightarrow> []
      | c # cs \<Rightarrow>
          if of_char c < (0x80::nat) then
            (if html_safe c then [c] else json_escape c) @ json_chars cs
          else if utf8_size s = 0 then CHR 0x5C # ''ufffd'' @ json_chars cs
          else if take 3 s = [CHR 0xE2, CHR 0x80, CHR 0xA8] then
            CHR 0x5C # ''u2028'' @ json_chars (drop 3 s)
          else if take 3 s = [CHR 0xE2, CHR 0x80, CHR 0xA9] then
            CHR 0x5C # ''u2029'' @ json_chars (drop 3 s)
          else take (utf8_size s) s @ json_chars (drop (utf8_size s) s))"
  by pat_completeness auto
termination by (relation "measure length") auto

declare json_chars.simps [simp del]

definition json_quote :: "string \<Rightarrow> string" where
  "json_quote s = CHR 0x22 # json_chars s @ [CHR 0x22]"

definition json_member :: "string \<times> string \<Rightarrow> string" where
  "json_member kv = json_quote (fst kv) @ '':'' @ json_quote (snd kv)"

text \<open>A struct is the list of its fields that are not omitted, in order.\<close>

definition json_marshal :: "(string \<times> string) list \<Rightarrow> string" where
  "json_marshal fs = ''{'' @ join_with '','' (map json_member fs) @ ''}''"

section \<open>Unmarshal: strings\<close>

definition hex_val :: "char \<Rightarrow> nat option" where
  "hex_val c =
     (if byte_in c 48 57 then Some (of_char c - 48)
      else if byte_in c 97 102 then Some (of_char c - 87)
      else if byte_in c 65 70 then Some (of_char c - 55)
      else None)"

definition hex4 :: "string \<Rightarrow> nat option" where
  "hex4 s =
     (case s of
        a # b # c # d # _ \<Rightarrow>
          (case (hex_val a, hex_val b, hex_val c, hex_val d) of
             (Some w, Some x, Some y, Some z) \<Rightarrow> Some (w * 4096 + x * 256 + y * 16 + z)
           | _ \<Rightarrow> None)
      | _ \<Rightarrow> None)"

definition is_surrogate :: "nat \<Rightarrow> bool" where
  "is_surrogate r \<longleftrightarrow> 0xD800 \<le> r \<and> r < 0xE000"

text \<open>\<open>utf16.DecodeRune\<close>: the rune of a surrogate pair.\<close>

definition decode_pair :: "nat \<Rightarrow> nat \<Rightarrow> nat option" where
  "decode_pair r1 r2 =
     (if 0xD800 \<le> r1 \<and> r1 < 0xDC00 \<and> 0xDC00 \<le> r2 \<and> r2 < 0xE000
      then Some ((r1 - 0xD800) * 1024 + (r2 - 0xDC00) + 0x10000) else None)"

text \<open>
  What a \<open>\u\<close> escape (the text after the \<open>u\<close>) stands for, and how many bytes of the text it
  takes: a second escape is taken too when the two are a surrogate pair.
\<close>

definition unicode_escape :: "string \<Rightarrow> (string \<times> nat) option" where
  "unicode_escape s =
     (case hex4 s of
        None \<Rightarrow> None
      | Some r \<Rightarrow>
          if is_surrogate r then
            (case (if take 2 (drop 4 s) = [CHR 0x5C, CHR ''u''] then hex4 (drop 6 s) else None) of
               None \<Rightarrow> Some (replacement, 4)
             | Some r2 \<Rightarrow>
                 (case decode_pair r r2 of
                    None \<Rightarrow> Some (replacement, 4)
                  | Some rr \<Rightarrow> Some (encode_rune rr, 10)))
          else Some (encode_rune r, 4))"

definition simple_escape :: "char \<Rightarrow> char option" where
  "simple_escape c =
     (if c = CHR 0x22 \<or> c = CHR 0x5C \<or> c = CHR ''/'' then Some c
      else if c = CHR ''b'' then Some (CHR 0x08)
      else if c = CHR ''f'' then Some (CHR 0x0C)
      else if c = CHR ''n'' then Some (CHR 0x0A)
      else if c = CHR ''r'' then Some (CHR 0x0D)
      else if c = CHR ''t'' then Some (CHR 0x09)
      else None)"

text \<open>A string literal after its opening quote: its value, and the text after its closing quote.\<close>

function parse_string :: "string \<Rightarrow> (string \<times> string) option" where
  "parse_string s =
     (case s of
        [] \<Rightarrow> None
      | c # cs \<Rightarrow>
          if c = CHR 0x22 then Some ([], cs)
          else if c = CHR 0x5C then
            (case cs of
               [] \<Rightarrow> None
             | e # es \<Rightarrow>
                 if e = CHR ''u'' then
                   (case unicode_escape es of
                      None \<Rightarrow> None
                    | Some (v, n) \<Rightarrow> map_option (\<lambda>(w, r). (v @ w, r)) (parse_string (drop n es)))
                 else
                   (case simple_escape e of
                      None \<Rightarrow> None
                    | Some v \<Rightarrow> map_option (\<lambda>(w, r). (v # w, r)) (parse_string es)))
          else if of_char c < (0x20::nat) then None
          else if utf8_size s = 0 then map_option (\<lambda>(w, r). (replacement @ w, r)) (parse_string cs)
          else map_option (\<lambda>(w, r). (take (utf8_size s) s @ w, r)) (parse_string (drop (utf8_size s) s)))"
  by pat_completeness auto
termination by (relation "measure length") auto

declare parse_string.simps [simp del]

section \<open>Unmarshal: values\<close>

datatype json =
    JNull
  | JBool bool
  | JNumber
  | JString string
  | JArray "json list"
  | JObject "(string \<times> json) list"

definition skip_ws :: "string \<Rightarrow> string" where
  "skip_ws s =
     dropWhile (\<lambda>c. c = CHR 0x20 \<or> c = CHR 0x09 \<or> c = CHR 0x0D \<or> c = CHR 0x0A) s"

text \<open>One or more digits, and the rest.\<close>

definition scan_digits :: "string \<Rightarrow> string option" where
  "scan_digits s = (if s \<noteq> [] \<and> is_digit (hd s) then Some (dropWhile is_digit s) else None)"

definition scan_number :: "string \<Rightarrow> string option" where
  "scan_number s =
     (let s0 = (if s \<noteq> [] \<and> hd s = CHR ''-'' then tl s else s);
          int_part = (if s0 \<noteq> [] \<and> hd s0 = CHR ''0'' then Some (tl s0) else scan_digits s0)
      in Option.bind int_part (\<lambda>s1.
         Option.bind (if s1 \<noteq> [] \<and> hd s1 = CHR ''.'' then scan_digits (tl s1) else Some s1) (\<lambda>s2.
         if s2 \<noteq> [] \<and> (hd s2 = CHR ''e'' \<or> hd s2 = CHR ''E'') then
           scan_digits (if tl s2 \<noteq> [] \<and> (hd (tl s2) = CHR ''+'' \<or> hd (tl s2) = CHR ''-'')
                        then tl (tl s2) else tl s2)
         else Some s2)))"

text \<open>
  A value, the members of an object after its brace or a comma, the elements of an array. The
  scanner refuses more than 10000 open brackets (\<open>d\<close>). Each call uses one unit of fuel and
  consumes a byte before it calls again, so fuel beyond twice the length of the text is
  enough (\<open>parse_fuel_enough\<close> below).
\<close>

fun parse_value :: "nat \<Rightarrow> nat \<Rightarrow> string \<Rightarrow> (json \<times> string) option"
  and parse_members :: "nat \<Rightarrow> nat \<Rightarrow> string \<Rightarrow> ((string \<times> json) list \<times> string) option"
  and parse_elements :: "nat \<Rightarrow> nat \<Rightarrow> string \<Rightarrow> (json list \<times> string) option"
where
  "parse_value 0 d s = None"
| "parse_value (Suc f) d s =
     (case skip_ws s of
        [] \<Rightarrow> None
      | c # cs \<Rightarrow>
          if c = CHR 0x22 then map_option (\<lambda>(w, r). (JString w, r)) (parse_string cs)
          else if c = CHR ''{'' then
            (if 10000 \<le> d then None
             else case skip_ws cs of
               [] \<Rightarrow> None
             | b # bs \<Rightarrow>
                 if b = CHR ''}'' then Some (JObject [], bs)
                 else map_option (\<lambda>(ms, r). (JObject ms, r)) (parse_members f (Suc d) cs))
          else if c = CHR ''['' then
            (if 10000 \<le> d then None
             else case skip_ws cs of
               [] \<Rightarrow> None
             | b # bs \<Rightarrow>
                 if b = CHR '']'' then Some (JArray [], bs)
                 else map_option (\<lambda>(vs, r). (JArray vs, r)) (parse_elements f (Suc d) cs))
          else if take 4 (c # cs) = ''true'' then Some (JBool True, drop 3 cs)
          else if take 5 (c # cs) = ''false'' then Some (JBool False, drop 4 cs)
          else if take 4 (c # cs) = ''null'' then Some (JNull, drop 3 cs)
          else map_option (\<lambda>r. (JNumber, r)) (scan_number (c # cs)))"
| "parse_members 0 d s = None"
| "parse_members (Suc f) d s =
     (case skip_ws s of
        [] \<Rightarrow> None
      | q # qs \<Rightarrow>
          if q \<noteq> CHR 0x22 then None
          else (case parse_string qs of
                  None \<Rightarrow> None
                | Some (k, s1) \<Rightarrow>
                    (case skip_ws s1 of
                       [] \<Rightarrow> None
                     | c # s2 \<Rightarrow>
                         if c \<noteq> CHR '':'' then None
                         else (case parse_value f d s2 of
                                 None \<Rightarrow> None
                               | Some (v, s3) \<Rightarrow>
                                   (case skip_ws s3 of
                                      [] \<Rightarrow> None
                                    | e # s4 \<Rightarrow>
                                        if e = CHR '','' then
                                          map_option (\<lambda>(ms, r). ((k, v) # ms, r)) (parse_members f d s4)
                                        else if e = CHR ''}'' then Some ([(k, v)], s4)
                                        else None)))))"
| "parse_elements 0 d s = None"
| "parse_elements (Suc f) d s =
     (case parse_value f d s of
        None \<Rightarrow> None
      | Some (v, s1) \<Rightarrow>
          (case skip_ws s1 of
             [] \<Rightarrow> None
           | e # s2 \<Rightarrow>
               if e = CHR '','' then map_option (\<lambda>(vs, r). (v # vs, r)) (parse_elements f d s2)
               else if e = CHR '']'' then Some ([v], s2)
               else None))"

definition parse_json :: "string \<Rightarrow> json option" where
  "parse_json s =
     (case parse_value (2 * length s + 2) 0 s of
        None \<Rightarrow> None
      | Some (v, r) \<Rightarrow> if skip_ws r = [] then Some v else None)"

section \<open>Unmarshal into a struct of strings\<close>

text \<open>
  \<open>names\<close> are the JSON names of the fields, all in lower case ASCII without \<open>k\<close> or \<open>s\<close> (the two
  letters with a case variant outside ASCII). A member goes to the field of its name, else to
  one of this name in another case; a null leaves the field alone, a value that is no string is
  an error that is reported after the whole object has been read.
\<close>

definition find_field :: "string list \<Rightarrow> string \<Rightarrow> string option" where
  "find_field names key =
     (if key \<in> set names then Some key else find (\<lambda>n. map ascii_lower key = n) names)"

definition decode_member ::
    "string list \<Rightarrow> string \<times> json \<Rightarrow> (string \<Rightarrow> string) \<times> bool \<Rightarrow> (string \<Rightarrow> string) \<times> bool" where
  "decode_member names kv st =
     (case find_field names (fst kv) of
        None \<Rightarrow> st
      | Some n \<Rightarrow>
          (case snd kv of
             JString v \<Rightarrow> ((fst st)(n := v), snd st)
           | JNull \<Rightarrow> st
           | _ \<Rightarrow> (fst st, False)))"

text \<open>The fields, and whether there was no error.\<close>

definition json_unmarshal :: "string list \<Rightarrow> string \<Rightarrow> (string \<Rightarrow> string) \<times> bool" where
  "json_unmarshal names text =
     (case parse_json text of
        None \<Rightarrow> ((\<lambda>_. []), False)
      | Some JNull \<Rightarrow> ((\<lambda>_. []), True)
      | Some (JObject ms) \<Rightarrow> fold (decode_member names) ms ((\<lambda>_. []), True)
      | Some _ \<Rightarrow> ((\<lambda>_. []), False))"

section \<open>A marshalled string is read back\<close>

lemma parse_string_quote: "parse_string (CHR 0x22 # t) = Some ([], t)"
  by (simp add: parse_string.simps [of "CHR 0x22 # t"])

lemma parse_string_simple:
  "simple_escape e = Some v \<Longrightarrow>
   parse_string (CHR 0x5C # e # t) = map_option (\<lambda>(w, r). (v # w, r)) (parse_string t)"
  by (auto simp: parse_string.simps [of "CHR 0x5C # e # t"] simple_escape_def split: if_splits)

lemma parse_string_unicode:
  "unicode_escape es = Some (v, n) \<Longrightarrow>
   parse_string (CHR 0x5C # CHR ''u'' # es) = map_option (\<lambda>(w, r). (v @ w, r)) (parse_string (drop n es))"
  by (simp add: parse_string.simps [of "CHR 0x5C # CHR ''u'' # es"])

lemma hex_val_hex_digit: "k < 16 \<Longrightarrow> hex_val (hex_digit k) = Some k"
  by (simp add: hex_val_def hex_digit_def byte_in_def)

lemma hex_val_consts:
  "hex_val CHR ''f'' = Some 15" "hex_val CHR ''d'' = Some 13" "hex_val CHR ''2'' = Some 2"
  "hex_val CHR ''0'' = Some 0" "hex_val CHR ''8'' = Some 8" "hex_val CHR ''9'' = Some 9"
  by (simp_all add: hex_val_def byte_in_def)

lemma hex4_low: "k < 16 \<Longrightarrow> l < 16 \<Longrightarrow>
    hex4 (CHR ''0'' # CHR ''0'' # hex_digit k # hex_digit l # t) = Some (16 * k + l)"
  by (simp add: hex4_def hex_val_hex_digit hex_val_consts)

lemma parse_string_escape:
  assumes "of_char c < (0x80::nat)" "\<not> html_safe c"
  shows "parse_string (json_escape c @ t) = map_option (\<lambda>(w, r). (c # w, r)) (parse_string t)"
proof -
  have "unicode_escape (CHR ''0'' # CHR ''0'' # hex_digit (of_char c div 16) # hex_digit (of_char c mod 16) # t)
      = Some ([c], 4)"
    using assms(1)
    by (simp add: unicode_escape_def hex4_low is_surrogate_def encode_rune_def)
  then show ?thesis
    by (auto simp: json_escape_def parse_string_unicode parse_string_simple simple_escape_def)
qed

lemma char_of_consts:
  "char_of (226::nat) = CHR 0xE2" "char_of (128::nat) = CHR 0x80" "char_of (168::nat) = CHR 0xA8"
  "char_of (169::nat) = CHR 0xA9" "char_of (239::nat) = CHR 0xEF" "char_of (191::nat) = CHR 0xBF"
  "char_of (189::nat) = CHR 0xBD"
  by (simp_all add: char_of_eq_iff take_bit_eq_mod)

lemma unicode_escape_consts:
  "unicode_escape (CHR ''f'' # CHR ''f'' # CHR ''f'' # CHR ''d'' # t) = Some (replacement, 4)"
  "unicode_escape (CHR ''2'' # CHR ''0'' # CHR ''2'' # CHR ''8'' # t) = Some ([CHR 0xE2, CHR 0x80, CHR 0xA8], 4)"
  "unicode_escape (CHR ''2'' # CHR ''0'' # CHR ''2'' # CHR ''9'' # t) = Some ([CHR 0xE2, CHR 0x80, CHR 0xA9], 4)"
  by (simp_all add: unicode_escape_def hex4_def hex_val_consts is_surrogate_def encode_rune_def
      replacement_def char_of_consts)

lemma utf8_size_line_sep:
  "take 3 s = [CHR 0xE2, CHR 0x80, b] \<Longrightarrow> byte_in b 0x80 0xBF \<Longrightarrow> utf8_size s = 3"
proof -
  assume s: "take 3 s = [CHR 0xE2, CHR 0x80, b]" and b: "byte_in b 0x80 0xBF"
  then have "length (take 3 s) = 3" by simp
  then have "3 \<le> length s" by simp
  moreover have "hd s = CHR 0xE2" using s by (cases s) auto
  ultimately show ?thesis
    using s b by (auto simp: utf8_size_def lead_size_def byte_in_def second_ok_def)
qed

lemma parse_string_chunk:
  assumes "utf8_size s \<noteq> 0" "of_char (hd s) \<ge> (0x80::nat)"
  shows "parse_string (take (utf8_size s) s @ t) =
           map_option (\<lambda>(w, r). (take (utf8_size s) s @ w, r)) (parse_string t)"
proof -
  let ?n = "utf8_size s"
  obtain c cs where s: "s = c # cs" using assms by (cases s) (auto simp: utf8_size_def)
  then obtain m where m: "?n = Suc m" using assms(1) by (cases ?n) auto
  have le: "?n \<le> length s" by (rule utf8_size_le)
  have "c \<noteq> CHR 0x22" "c \<noteq> CHR 0x5C" "\<not> of_char c < (0x20::nat)"
    using assms(2) s by auto
  moreover have "utf8_size (c # take m cs @ t) = ?n"
    using utf8_size_append [OF assms(1), of t] s m by simp
  ultimately show ?thesis
    using s m le by (simp add: parse_string.simps [of "c # take m cs @ t"])
qed

lemma parse_string_ascii:
  assumes "of_char c < (0x80::nat)"
  shows "parse_string (json_chars (c # cs) @ t) = map_option (\<lambda>(w, r). (c # w, r)) (parse_string (json_chars cs @ t))"
proof (cases "html_safe c")
  case True
  then have "parse_string (c # json_chars cs @ t) = map_option (\<lambda>(w, r). (c # w, r)) (parse_string (json_chars cs @ t))"
    using assms by (simp add: parse_string.simps [of "c # json_chars cs @ t"] html_safe_def utf8_size_ascii)
  with True assms show ?thesis by (simp add: json_chars.simps [of "c # cs"])
next
  case False
  with assms show ?thesis by (simp add: json_chars.simps [of "c # cs"] parse_string_escape)
qed

lemma parse_string_line_sep:
  assumes s: "take 3 s = [CHR 0xE2, CHR 0x80, b]" and b: "b \<in> {CHR 0xA8, CHR 0xA9}"
  shows "parse_string (json_chars s @ t) =
      map_option (\<lambda>(w, r). (CHR 0xE2 # CHR 0x80 # b # w, r)) (parse_string (json_chars (drop 3 s) @ t))"
    "to_valid_utf8 s = CHR 0xE2 # CHR 0x80 # b # to_valid_utf8 (drop 3 s)"
proof -
  have n: "utf8_size s = 3" using s b by (intro utf8_size_line_sep) (auto simp: byte_in_def)
  obtain c cs where c: "s = c # cs" "c = CHR 0xE2" using s by (cases s) auto
  have "json_chars s = CHR 0x5C # (if b = CHR 0xA8 then ''u2028'' else ''u2029'') @ json_chars (drop 3 s)"
    by (subst json_chars.simps) (use s b c n in auto)
  then show "parse_string (json_chars s @ t) =
      map_option (\<lambda>(w, r). (CHR 0xE2 # CHR 0x80 # b # w, r)) (parse_string (json_chars (drop 3 s) @ t))"
    using b by (auto simp: parse_string_unicode unicode_escape_consts)
  show "to_valid_utf8 s = CHR 0xE2 # CHR 0x80 # b # to_valid_utf8 (drop 3 s)"
    using to_valid_utf8_step [of s] s c n by simp
qed

lemma parse_string_json_chars:
  "parse_string (json_chars s @ CHR 0x22 # t) = Some (to_valid_utf8 s, t)"
proof (induction s rule: json_chars.induct)
  case (1 s)
  show ?case
  proof (cases s)
    case Nil
    then show ?thesis
      by (simp add: json_chars.simps to_valid_utf8.simps parse_string_quote)
  next
    case (Cons c cs)
    note IH = 1 [OF Cons]
    consider (ascii) "of_char c < (0x80::nat)"
      | (bad) "\<not> of_char c < (0x80::nat)" "utf8_size s = 0"
      | (ls) "\<not> of_char c < (0x80::nat)" "utf8_size s \<noteq> 0" "take 3 s = [CHR 0xE2, CHR 0x80, CHR 0xA8]"
      | (ps) "\<not> of_char c < (0x80::nat)" "utf8_size s \<noteq> 0" "take 3 s = [CHR 0xE2, CHR 0x80, CHR 0xA9]"
      | (rune) "\<not> of_char c < (0x80::nat)" "utf8_size s \<noteq> 0"
          "take 3 s \<noteq> [CHR 0xE2, CHR 0x80, CHR 0xA8]" "take 3 s \<noteq> [CHR 0xE2, CHR 0x80, CHR 0xA9]"
      by blast
    then show ?thesis
    proof cases
      case ascii
      then have "to_valid_utf8 s = c # to_valid_utf8 cs"
        using Cons by (simp add: to_valid_utf8.simps [of "c # cs"] utf8_size_ascii)
      then show ?thesis
        using parse_string_ascii [OF ascii, of cs "CHR 0x22 # t"] Cons IH(1) ascii by (cases "html_safe c") simp_all
    next
      case bad
      then have "to_valid_utf8 s = replacement @ to_valid_utf8 cs"
        using Cons by (simp add: to_valid_utf8.simps [of "c # cs"])
      with bad Cons IH(2) show ?thesis
        by (simp add: json_chars.simps [of "c # cs"] parse_string_unicode unicode_escape_consts)
    next
      case ls
      then show ?thesis
        using parse_string_line_sep(1) [OF ls(3), of "CHR 0x22 # t"] parse_string_line_sep(2) [OF ls(3)] IH(3) ls by simp
    next
      case ps
      then show ?thesis
        using parse_string_line_sep(1) [OF ps(3), of "CHR 0x22 # t"] parse_string_line_sep(2) [OF ps(3)] IH(4) ps by simp
    next
      case rune
      then have "to_valid_utf8 s = take (utf8_size s) s @ to_valid_utf8 (drop (utf8_size s) s)"
        by (intro to_valid_utf8_step)
      moreover have "json_chars s = take (utf8_size s) s @ json_chars (drop (utf8_size s) s)"
        using rune Cons by (auto simp: json_chars.simps [of "c # cs"])
      ultimately show ?thesis
        using rune Cons IH(5) parse_string_chunk [of s] by simp
    qed
  qed
qed

text \<open>Valid UTF-8 in particular survives; so does what replacing invalid bytes leaves.\<close>

lemma skip_ws_id: "c \<notin> {CHR 0x20, CHR 0x09, CHR 0x0D, CHR 0x0A} \<Longrightarrow> skip_ws (c # s) = c # s"
  by (simp add: skip_ws_def)

lemma skip_ws_Nil [simp]: "skip_ws [] = []"
  by (simp add: skip_ws_def)

lemma parse_value_string:
  "0 < f \<Longrightarrow> parse_value f d (json_quote s @ t) = Some (JString (to_valid_utf8 s), t)"
  by (cases f) (simp_all add: json_quote_def skip_ws_id parse_string_json_chars)

definition json_pair :: "string \<times> string \<Rightarrow> string \<times> json" where
  "json_pair kv = (to_valid_utf8 (fst kv), JString (to_valid_utf8 (snd kv)))"

lemma parse_members_marshal:
  "fs \<noteq> [] \<Longrightarrow> length fs < f \<Longrightarrow>
   parse_members f d (join_with '','' (map json_member fs) @ ''}'' @ t) =
     Some (map json_pair fs, t)"
proof (induction fs arbitrary: f)
  case Nil
  then show ?case by simp
next
  case (Cons kv fs)
  from Cons.prems obtain g where f: "f = Suc g" "0 < g" "length fs < g" by (cases f) auto
  have head: "parse_members f d (json_member kv @ r) =
      (case skip_ws r of
         [] \<Rightarrow> None
       | e # s4 \<Rightarrow>
           if e = CHR '','' then map_option (\<lambda>(ms, r). (json_pair kv # ms, r)) (parse_members g d s4)
           else if e = CHR ''}'' then Some ([json_pair kv], s4) else None)" for r
    using parse_value_string [OF f(2), of d "snd kv" r]
    by (simp add: f(1) json_member_def json_quote_def skip_ws_id parse_string_json_chars json_pair_def
        split: list.splits)
  show ?case
  proof (cases fs)
    case Nil
    then show ?thesis using head [of "''}'' @ t"] by (simp add: skip_ws_id)
  next
    case (Cons kv' fs')
    then have "parse_members g d (join_with '','' (map json_member fs) @ ''}'' @ t) =
        Some (map json_pair fs, t)"
      using Cons.IH [of g] f(3) by simp
    with Cons show ?thesis
      using head [of "'','' @ join_with '','' (map json_member fs) @ ''}'' @ t"]
      by (simp add: skip_ws_id)
  qed
qed

lemma length_marshal_members: "length fs \<le> length (join_with '','' (map json_member fs))"
proof (induction fs)
  case Nil
  then show ?case by simp
next
  case (Cons kv fs)
  have "1 \<le> length (json_member kv)" by (simp add: json_member_def json_quote_def)
  with Cons show ?case by (cases fs) auto
qed

lemma parse_json_marshal: "parse_json (json_marshal fs) = Some (JObject (map json_pair fs))"
proof (cases fs)
  case Nil
  moreover have "parse_json (json_marshal []) = Some (JObject [])" by code_simp
  ultimately show ?thesis by simp
next
  case (Cons kv fs')
  let ?m = "join_with '','' (map json_member fs)"
  have hd: "\<exists>r. ?m = CHR 0x22 # r"
    using Cons by (cases fs') (auto simp: json_member_def json_quote_def)
  then obtain r where r: "?m = CHR 0x22 # r" ..
  have "length fs < 2 * length (json_marshal fs) + 1"
    using length_marshal_members [of fs] by (simp add: json_marshal_def)
  then have "parse_members (2 * length (json_marshal fs) + 1) (Suc 0) (?m @ ''}'' @ []) =
      Some (map json_pair fs, [])"
    using Cons by (intro parse_members_marshal) auto
  then show ?thesis
    using r by (simp add: parse_json_def json_marshal_def skip_ws_id)
qed

section \<open>The fuel is enough\<close>

text \<open>Every parser consumes input when it succeeds.\<close>

lemma skip_ws_length: "length (skip_ws s) \<le> length s"
  by (simp add: skip_ws_def length_dropWhile_le)

lemma skip_ws_Cons_length: "skip_ws s = c # r \<Longrightarrow> length r < length s"
  using skip_ws_length [of s] by simp

lemmas parse_string_Cons = parse_string.simps [of "c # cs" for c cs, simplified list.case]

lemma parse_string_length: "parse_string s = Some (w, r) \<Longrightarrow> length r < length s"
proof (induction s arbitrary: w rule: parse_string.induct)
  case (1 s)
  show ?case
  proof (cases s)
    case Nil
    with "1.prems" show ?thesis by (simp add: parse_string.simps)
  next
    case (Cons c cs)
    note IH = "1.IH" [OF Cons]
    have suf: "length r < length t \<Longrightarrow> length t \<le> length cs \<Longrightarrow> ?thesis" for t :: string
      using Cons by simp
    consider (q) "c = CHR 0x22" | (e) "c = CHR 0x5C" | (o) "c \<noteq> CHR 0x22" "c \<noteq> CHR 0x5C" by blast
    then show ?thesis
    proof cases
      case q
      with "1.prems" Cons show ?thesis by (simp add: parse_string_quote)
    next
      case e
      with "1.prems" Cons obtain x xs where x: "cs = x # xs"
        by (simp add: parse_string_Cons split: list.splits)
      show ?thesis
      proof (cases "x = CHR ''u''")
        case True
        with "1.prems" Cons e x obtain v n w' where
            u: "unicode_escape xs = Some (v, n)" and p: "parse_string (drop n xs) = Some (w', r)"
          by (auto simp: parse_string_Cons split: option.splits)
        have "length r < length (drop n xs)"
          using IH(1) e x True u p by simp
        then show ?thesis using Cons x by simp
      next
        case False
        with "1.prems" Cons e x obtain v w' where
            u: "simple_escape x = Some v" and p: "parse_string xs = Some (w', r)"
          by (auto simp: parse_string_Cons split: option.splits)
        have "length r < length xs"
          using IH(2) e x False u p by simp
        then show ?thesis using Cons x by simp
      qed
    next
      case o
      with "1.prems" Cons have c: "\<not> of_char c < (0x20::nat)"
        by (auto simp: parse_string_Cons split: if_splits)
      show ?thesis
      proof (cases "utf8_size s = 0")
        case True
        with "1.prems" Cons o c obtain w' where "parse_string cs = Some (w', r)"
          by (auto simp: parse_string_Cons)
        then have "length r < length cs" using IH(3) o c True by blast
        then show ?thesis using Cons by simp
      next
        case False
        with "1.prems" Cons o c obtain w' where "parse_string (drop (utf8_size s) s) = Some (w', r)"
          by (auto simp: parse_string_Cons)
        then have "length r < length (drop (utf8_size s) s)" using IH(4) o c False by blast
        then show ?thesis by simp
      qed
    qed
  qed
qed

lemma scan_digits_length: "scan_digits s = Some r \<Longrightarrow> length r < length s"
  by (cases s) (auto simp: scan_digits_def le_imp_less_Suc length_dropWhile_le split: if_splits)

lemma scan_number_length:
  assumes "scan_number s = Some r"
  shows "length r < length s"
proof -
  define s0 where "s0 = (if s \<noteq> [] \<and> hd s = CHR ''-'' then tl s else s)"
  note a = assms [unfolded scan_number_def Let_def, folded s0_def]
  from a obtain s1 where s1: "(if s0 \<noteq> [] \<and> hd s0 = CHR ''0'' then Some (tl s0) else scan_digits s0) = Some s1"
    by (auto simp: bind_eq_Some_conv simp del: if_split)
  note b = a [unfolded s1 bind.simps]
  from b obtain s2 where s2: "(if s1 \<noteq> [] \<and> hd s1 = CHR ''.'' then scan_digits (tl s1) else Some s1) = Some s2"
    by (auto simp: bind_eq_Some_conv simp del: if_split)
  note r = b [unfolded s2 bind.simps]
  have "length s0 \<le> length s" by (simp add: s0_def)
  moreover have "length s1 < length s0"
    using s1 by (cases s0) (auto split: if_splits dest: scan_digits_length)
  moreover have "length s2 \<le> length s1"
    using s2 by (auto split: if_splits dest!: scan_digits_length)
  moreover have "length r \<le> length s2"
    using r by (auto split: if_splits dest!: scan_digits_length)
  ultimately show ?thesis by simp
qed

lemma parse_length:
  "parse_value f d s = Some (v, r) \<Longrightarrow> length r < length s"
  "parse_members f d s = Some (ms, r) \<Longrightarrow> length r < length s"
  "parse_elements f d s = Some (vs, r) \<Longrightarrow> length r < length s"
proof (induction f d s and f d s and f d s arbitrary: v r and ms r and vs r
    rule: parse_value_parse_members_parse_elements.induct)
  case (2 f d s)
  obtain c cs where c: "skip_ws s = c # cs" 
    using 2 by (auto split: list.splits)
  have len: "length cs < length s" using c by (rule skip_ws_Cons_length)
  show ?case
  proof (cases "c = CHR 0x22")
    case True
    with 2 c len show ?thesis by (auto dest!: parse_string_length)
  next
    case False
    show ?thesis
    proof (cases "c = CHR ''{'' \<or> c = CHR ''[''")
      case True
      then show ?thesis using 2 c len False
        by (fastforce split: list.splits if_splits dest: skip_ws_Cons_length)
    next
      case F: False
      then show ?thesis using 2(3) c len False
        by (auto split: if_splits dest!: scan_number_length)
    qed
  qed
next
  case (4 f d s)
  from 4(3) obtain qs k s1 s2 w s3 e s4 where
     a: "skip_ws s = CHR 0x22 # qs" "parse_string qs = Some (k, s1)" "skip_ws s1 = CHR '':'' # s2" 
        "parse_value f d s2 = Some (w, s3)" "skip_ws s3 = e # s4" 
    and b: "(if e = CHR '','' then map_option (\<lambda>(ms, r). ((k, w) # ms, r)) (parse_members f d s4)
             else if e = CHR ''}'' then Some ([(k, w)], s4) else None) = Some (ms, r)"
    by (auto split: list.splits option.splits if_split_asm simp del: not_None_eq)
  have l: "length qs < length s" "length s1 < length qs" "length s2 < length s1" "length s4 < length s3"
    using a by (auto dest: skip_ws_Cons_length parse_string_length)
  have "length s3 < length s2" 
    by (rule 4(1)[OF a(1) _ a(2) refl a(3) _ a(4)]) auto
  moreover have "length r \<le> length s4"
    using b 4(2)[OF a(1) _ a(2) refl a(3) _ a(4) refl a(5)] by (auto split: if_splits) 
  ultimately show ?case using l by linarith
next
  case (6 f d s)
  from 6(3) obtain w s1 e s2 where
     a: "parse_value f d s = Some (w, s1)" "skip_ws s1 = e # s2"
    and b: "(if e = CHR '','' then map_option (\<lambda>(vs, r). (w # vs, r)) (parse_elements f d s2)
             else if e = CHR '']'' then Some ([w], s2) else None) = Some (vs, r)"
    by (auto split: list.splits option.splits if_split_asm simp del: not_None_eq)
  have "length s1 < length s" "length s2 < length s1"
    using a 6(1) by (auto dest: skip_ws_Cons_length)
  moreover have "length r \<le> length s2"
    using b 6(2)[OF a(1) refl a(2)] by (auto split: if_splits)
  ultimately show ?case by linarith
qed auto

lemma parse_members_fuel:
  assumes v: "\<And>t. 2 * length t + 1 \<le> g \<Longrightarrow> parse_value (Suc g) d t = parse_value g d t"
    and m: "\<And>t. 2 * length t + 2 \<le> g \<Longrightarrow> parse_members (Suc g) d t = parse_members g d t"
    and f: "2 * length s + 2 \<le> Suc g"
  shows "parse_members (Suc (Suc g)) d s = parse_members (Suc g) d s"
proof (cases "skip_ws s")
  case (Cons q qs)
  note c1 = this
  show ?thesis
  proof (cases "parse_string qs")
    case (Some ks)
    obtain k s1 where c2: "parse_string qs = Some (k, s1)" using Some by (cases ks) simp
    show ?thesis
    proof (cases "skip_ws s1")
      case (Cons c s2)
      have lens: "length s2 < length s1" "length s1 < length qs" "length qs < length s"
        using c1 c2 Cons by (auto dest: skip_ws_Cons_length parse_string_length)
      have pv: "parse_value (Suc g) d s2 = parse_value g d s2" by (rule v) (use lens f in linarith)
      have pm: "parse_members (Suc g) d s4 = parse_members g d s4" if "length s4 < length s" for s4
        by (rule m) (use that f in linarith)
      show ?thesis
      proof (cases "parse_value g d s2")
        case (Some ws)
        obtain w s3 where c3: "parse_value g d s2 = Some (w, s3)" using Some by (cases ws) simp
        show ?thesis
        proof (cases "skip_ws s3")
          case c4: (Cons e s4)
          have "length s4 < length s"
            using lens parse_length(1) [OF c3] skip_ws_Cons_length [OF c4] by linarith
          then have "parse_members (Suc g) d s4 = parse_members g d s4" by (rule pm)
          moreover note parse_members.simps(2) [of "Suc g" d s] parse_members.simps(2) [of g d s]
          ultimately show ?thesis by (simp only: c1 c2 Cons pv c3 c4 list.case option.case prod.case)
        qed (simp only: parse_members.simps(2) c1 c2 Cons pv c3 list.case option.case prod.case)
      qed (simp only: parse_members.simps(2) c1 c2 Cons pv list.case option.case prod.case)
    qed (simp only: parse_members.simps(2) c1 c2 list.case option.case prod.case)
  qed (simp only: parse_members.simps(2) c1 list.case option.case prod.case)
qed (simp only: parse_members.simps(2) list.case)

lemma parse_elements_fuel:
  assumes v: "\<And>t. 2 * length t + 1 \<le> g \<Longrightarrow> parse_value (Suc g) d t = parse_value g d t"
    and l: "\<And>t. 2 * length t + 2 \<le> g \<Longrightarrow> parse_elements (Suc g) d t = parse_elements g d t"
    and f: "2 * length s + 2 \<le> Suc g"
  shows "parse_elements (Suc (Suc g)) d s = parse_elements (Suc g) d s"
proof -
  have pv: "parse_value (Suc g) d s = parse_value g d s" by (rule v) (use f in simp)
  note eqs = parse_elements.simps(2) [of "Suc g" d s] parse_elements.simps(2) [of g d s]
  show ?thesis
  proof (cases "parse_value g d s")
    case (Some ws)
    obtain w s1 where c1: "parse_value g d s = Some (w, s1)" using Some by (cases ws) simp
    show ?thesis
    proof (cases "skip_ws s1")
      case c2: (Cons e s2)
      have "parse_elements (Suc g) d s2 = parse_elements g d s2"
        by (rule l) (use f parse_length(1) [OF c1] skip_ws_Cons_length [OF c2] in linarith)
      with eqs show ?thesis by (simp only: pv c1 c2 list.case option.case prod.case)
    qed (simp only: eqs pv c1 list.case option.case prod.case)
  qed (simp only: eqs pv option.case)
qed

lemma parse_fuel_step:
  "(2 * length s + 1 \<le> f \<longrightarrow> parse_value (Suc f) d s = parse_value f d s)
   \<and> (2 * length s + 2 \<le> f \<longrightarrow> parse_members (Suc f) d s = parse_members f d s)
   \<and> (2 * length s + 2 \<le> f \<longrightarrow> parse_elements (Suc f) d s = parse_elements f d s)"
proof (induction f arbitrary: d s)
  case 0
  show ?case by simp
next
  case (Suc g)
  have v: "parse_value (Suc g) e t = parse_value g e t" if "2 * length t + 1 \<le> g" for e t
    using Suc.IH [of t e] that by blast
  have m: "parse_members (Suc g) e t = parse_members g e t" if "2 * length t + 2 \<le> g" for e t
    using Suc.IH [of t e] that by blast
  have l: "parse_elements (Suc g) e t = parse_elements g e t" if "2 * length t + 2 \<le> g" for e t
    using Suc.IH [of t e] that by blast
  have "parse_value (Suc (Suc g)) d s = parse_value (Suc g) d s" if "2 * length s + 1 \<le> Suc g"
  proof (cases "skip_ws s")
    case Nil
    then show ?thesis by simp
  next
    case (Cons c cs)
    from skip_ws_Cons_length [OF this] that have "2 * length cs + 2 \<le> g" by simp
    from m [OF this] l [OF this] Cons show ?thesis
      by (simp only: parse_value.simps list.simps) 
  qed
  moreover have "parse_members (Suc (Suc g)) d s = parse_members (Suc g) d s" if "2 * length s + 2 \<le> Suc g"
    by (rule parse_members_fuel [OF v m that])
  moreover have "parse_elements (Suc (Suc g)) d s = parse_elements (Suc g) d s" if "2 * length s + 2 \<le> Suc g"
    by (rule parse_elements_fuel [OF v l that])
  ultimately show ?case by blast
qed

text \<open>Fuel beyond that of \<open>parse_json\<close> changes nothing: the parser never stops for want of fuel.\<close>

lemma parse_fuel_enough:
  assumes "2 * length s + 1 \<le> f"
  shows "parse_value f d s = parse_value (2 * length s + 1) d s"
  using assms
proof (induction f rule: dec_induct)
  case (step f)
  then show ?case using parse_fuel_step [of s f d] by simp
qed simp

end
