(* ===== verification/Auth.thy ===== *)
theory Auth
  imports Json Errcode
begin

text \<open>
  \<open>pkg/auth\<close>: signing and parsing JWT tokens. The JWT library is a parameter; times are
  nanoseconds.
\<close>

record claims =
  cl_subject :: string
  cl_issuer :: string
  cl_issued_at :: "int option"
  cl_not_before :: "int option"
  cl_expires_at :: "int option"

text \<open>
  \<open>jwt_numeric_date\<close> is \<open>NewNumericDate\<close>, which drops part of a second; \<open>jwt_sign\<close> is
  \<open>NewWithClaims\<close> with HS256 and \<open>SignedString\<close>; \<open>jwt_parse\<close> is \<open>ParseWithClaims\<close> under the
  parser options, for a key, with the claims of the token (\<open>None\<close> when they are of another type)
  and its \<open>Valid\<close> field.
\<close>

record parse_opts =
  po_methods :: "string list"
  po_now :: int
  po_issuer :: "string option"

record jwt_lib =
  jwt_numeric_date :: "int \<Rightarrow> int"
  jwt_sign :: "string \<Rightarrow> claims \<Rightarrow> go_error + string"
  jwt_parse :: "parse_opts \<Rightarrow> string \<Rightarrow> string \<Rightarrow> go_error + claims option \<times> bool"

record jwt_config =
  jc_secret :: string
  jc_issuer :: string
  jc_ttl :: int

text \<open>
  The clock of the manager is an argument of its operations: the callers read it once, just before the
  call. The code reads it inside, after the checks that do not need it.
\<close>

record jwt_manager =
  jm_secret :: string
  jm_issuer :: string
  jm_ttl :: int

definition ErrMissingSecret :: go_error where
  "ErrMissingSecret = Plain ''jwt secret is required''"
definition ErrMissingSubject :: go_error where
  "ErrMissingSubject = Plain ''jwt subject is required''"

definition new_jwt_manager :: "jwt_config \<Rightarrow> go_error + jwt_manager" where
  "new_jwt_manager cfg =
     (if trim_space (jc_secret cfg) = [] then Inl ErrMissingSecret
      else Inr \<lparr>jm_secret = jc_secret cfg, jm_issuer = trim_space (jc_issuer cfg), jm_ttl = jc_ttl cfg\<rparr>)"

definition generate_token_with_claims :: "jwt_lib \<Rightarrow> jwt_manager \<Rightarrow> claims \<Rightarrow> go_error + string" where
  "generate_token_with_claims J m cl =
     (if trim_space (cl_subject cl) = [] then Inl ErrMissingSubject
      else
        let cl = (if cl_issuer cl = [] then cl\<lparr>cl_issuer := jm_issuer m\<rparr> else cl) in
        case jwt_sign J (jm_secret m) cl of
          Inl err \<Rightarrow> Inl (wrap ''sign jwt token'' err)
        | Inr signed \<Rightarrow> Inr signed)"

definition generate_token :: "jwt_lib \<Rightarrow> jwt_manager \<Rightarrow> int \<Rightarrow> string \<Rightarrow> go_error + string" where
  "generate_token J m now subject =
     (let subject = trim_space subject in
      if subject = [] then Inl ErrMissingSubject
      else
        let cl = \<lparr>cl_subject = subject, cl_issuer = jm_issuer m,
                  cl_issued_at = Some (jwt_numeric_date J now),
                  cl_not_before = Some (jwt_numeric_date J now), cl_expires_at = None\<rparr>;
            cl = (if 0 < jm_ttl m
                  then cl\<lparr>cl_expires_at := Some (jwt_numeric_date J (now + jm_ttl m))\<rparr> else cl)
        in generate_token_with_claims J m cl)"

definition normalize_bearer_token :: "string \<Rightarrow> string" where
  "normalize_bearer_token tok =
     (let tok = trim_space tok in
      if prefix ''bearer '' (to_lower tok) then trim_space (drop (length ''bearer '') tok) else tok)"

definition parse_token :: "jwt_lib \<Rightarrow> jwt_manager \<Rightarrow> int \<Rightarrow> string \<Rightarrow> go_error + claims" where
  "parse_token J m now token_string =
     (let token_string = normalize_bearer_token token_string in
      if token_string = [] then Inl (Plain ''jwt token is required'')
      else
        let options = \<lparr>po_methods = [''HS256''], po_now = now,
                       po_issuer = (if jm_issuer m \<noteq> [] then Some (jm_issuer m) else None)\<rparr>
        in case jwt_parse J options (jm_secret m) token_string of
             Inl err \<Rightarrow> Inl (wrap ''parse jwt token'' err)
           | Inr (cl, valid) \<Rightarrow>
               (case cl of
                  None \<Rightarrow> Inl (Plain ''invalid jwt token'')
                | Some cl \<Rightarrow>
                    if \<not> valid then Inl (Plain ''invalid jwt token'')
                    else if trim_space (cl_subject cl) = [] then Inl ErrMissingSubject
                    else Inr cl))"

section \<open>What the library promises\<close>

text \<open>
  The checks of the parser, for a token signed with HS256: the method is allowed, the issuer is
  the required one, the token is not expired and already valid.
\<close>

definition claims_valid :: "parse_opts \<Rightarrow> claims \<Rightarrow> bool" where
  "claims_valid opts cl \<longleftrightarrow>
     ''HS256'' \<in> set (po_methods opts) \<and>
     (case po_issuer opts of None \<Rightarrow> True | Some i \<Rightarrow> cl_issuer cl = i) \<and>
     (case cl_expires_at cl of None \<Rightarrow> True | Some e \<Rightarrow> po_now opts < e) \<and>
     (case cl_not_before cl of None \<Rightarrow> True | Some b \<Rightarrow> b \<le> po_now opts)"

text \<open>Claims that survive the JSON of a token: their strings are UTF-8, their dates numeric dates.\<close>

definition representable :: "jwt_lib \<Rightarrow> claims \<Rightarrow> bool" where
  "representable J cl \<longleftrightarrow>
     valid_utf8 (cl_subject cl) \<and> valid_utf8 (cl_issuer cl) \<and>
     (\<forall>d \<in> set_option (cl_issued_at cl) \<union> set_option (cl_not_before cl) \<union> set_option (cl_expires_at cl).
        jwt_numeric_date J d = d)"

text \<open>
  A token is base64url and dots; signing is authentic: what parses under a key was signed with
  this key, and its checks hold.
\<close>

definition token_chars :: "string \<Rightarrow> bool" where
  "token_chars t \<longleftrightarrow> t \<noteq> [] \<and> set t \<inter> space_bytes = {}"

definition jwt_ok :: "jwt_lib \<Rightarrow> bool" where
  "jwt_ok J \<longleftrightarrow>
     (\<forall>t. jwt_numeric_date J t = t div second * second) \<and>
     (\<forall>key cl tok. jwt_sign J key cl = Inr tok \<longrightarrow> token_chars tok) \<and>
     (\<forall>key cl tok opts. representable J cl \<longrightarrow> jwt_sign J key cl = Inr tok \<longrightarrow> claims_valid opts cl \<longrightarrow>
        jwt_parse J opts key tok = Inr (Some cl, True)) \<and>
     (\<forall>key tok opts cl v. jwt_parse J opts key tok = Inr (cl, v) \<longrightarrow>
        (\<exists>cl'. cl = Some cl' \<and> v \<and> representable J cl' \<and> claims_valid opts cl' \<and> jwt_sign J key cl' = Inr tok)) \<and>
     (\<forall>key cl key' cl' tok. representable J cl \<longrightarrow> representable J cl' \<longrightarrow>
        jwt_sign J key cl = Inr tok \<longrightarrow> jwt_sign J key' cl' = Inr tok \<longrightarrow> key' = key \<and> cl' = cl)"

section \<open>Lemmas\<close>

lemma to_lower_bearer:
  assumes "map ascii_lower p = ''bearer ''"
  shows "prefix ''bearer '' (to_lower (p @ t))" "length p = 7"
proof -
  have len: "length p = 7" using arg_cong [OF assms, of length] by simp
  then obtain a b c d e f g where p: "p = [a, b, c, d, e, f, g]"
    by (auto simp: length_Suc_conv numeral_eq_Suc)
  have "x \<noteq> CHR 0xC4 \<and> x \<noteq> CHR 0xE2" if "ascii_lower x \<in> set ''bearer ''" for x
    using that by (auto simp: ascii_lower_def)
  then have "to_lower (p @ t) = ''bearer '' @ to_lower t"
    using assms by (auto simp: p)
  then show "prefix ''bearer '' (to_lower (p @ t))" by (auto simp: prefix_def)
  show "length p = 7" by (rule len)
qed

lemma trim_token [simp]: "token_chars t \<Longrightarrow> trim_space t = t"
  by (rule trim_space_id) (auto simp: token_chars_def disjoint_iff dest: hd_in_set last_in_set)

lemma space_in_space_bytes: "CHR '' '' \<in> space_bytes"
  by (simp add: space_bytes_def space_encodings_def)

lemma ascii_lower_space: "ascii_lower c = CHR '' '' \<Longrightarrow> c = CHR '' ''"
proof -
  assume a: "ascii_lower c = CHR '' ''"
  have "of_char (ascii_lower c) = (32::nat)" by (simp add: a)
  then have "of_char c = (32::nat)"
    by (auto simp: ascii_lower_def split: if_splits)
  then have "char_of (of_char c :: nat) = (char_of (32 :: nat) :: char)" by simp
  moreover have "char_of (32 :: nat) = CHR '' ''" by code_simp
  ultimately show ?thesis by simp
qed

lemma space_of_to_lower: "CHR '' '' \<in> set (to_lower t) \<Longrightarrow> CHR '' '' \<in> set t"
proof (induction t rule: to_lower.induct)
  case (2 c cs)
  then show ?case
    by (auto split: if_splits dest: ascii_lower_space [OF sym] in_set_dropD)
qed simp

lemma normalize_token: "token_chars t \<Longrightarrow> normalize_bearer_token t = t"
proof -
  assume t: "token_chars t"
  then have "CHR '' '' \<notin> set t" using space_in_space_bytes by (auto simp: token_chars_def)
  then have "\<not> prefix ''bearer '' (to_lower t)" using space_of_to_lower [of t] by (auto simp: prefix_def)
  then show ?thesis using t by (simp add: normalize_bearer_token_def)
qed

lemma normalize_bearer:
  assumes p: "map ascii_lower p = ''bearer ''" and t: "token_chars t"
  shows "normalize_bearer_token (p @ t) = t"
proof -
  have "p \<noteq> []" using p by auto
  then have "ascii_lower (hd p) = CHR ''b''" using p by (cases p) auto
  then have "hd p \<notin> space_bytes" by (auto simp: space_bytes_def space_encodings_def ascii_lower_def)
  moreover have "last t \<notin> space_bytes" "t \<noteq> []" using t by (auto simp: token_chars_def disjoint_iff)
  ultimately have "trim_space (p @ t) = p @ t" using \<open>p \<noteq> []\<close> by (intro trim_space_id) simp
  then show ?thesis
    using to_lower_bearer(1) [OF p, of t] to_lower_bearer(2) [OF p] t by (simp add: normalize_bearer_token_def)
qed

text \<open>The ways of writing a token in the header: raw, or after the scheme in any case.\<close>

definition presents :: "string \<Rightarrow> string \<Rightarrow> bool" where
  "presents header t \<longleftrightarrow> header = t \<or> (\<exists>p. map ascii_lower p = ''bearer '' \<and> header = p @ t)"

lemma normalize_presents: "presents h t \<Longrightarrow> token_chars t \<Longrightarrow> normalize_bearer_token h = t"
  unfolding presents_def by (elim disjE exE conjE) (simp_all only: normalize_token normalize_bearer)

text \<open>The claims of a generated token.\<close>

definition issued_claims :: "jwt_lib \<Rightarrow> jwt_manager \<Rightarrow> int \<Rightarrow> string \<Rightarrow> claims" where
  "issued_claims J m now subject =
     \<lparr>cl_subject = trim_space subject, cl_issuer = jm_issuer m,
      cl_issued_at = Some (jwt_numeric_date J now), cl_not_before = Some (jwt_numeric_date J now),
      cl_expires_at = (if 0 < jm_ttl m then Some (jwt_numeric_date J (now + jm_ttl m)) else None)\<rparr>"

lemma generate_token_signs:
  "generate_token J m now subject = Inr tok \<longleftrightarrow>
   trim_space subject \<noteq> [] \<and> jwt_sign J (jm_secret m) (issued_claims J m now subject) = Inr tok"
  by (auto simp: generate_token_def generate_token_with_claims_def issued_claims_def Let_def split: sum.splits)

lemma issued_claims_representable:
  "jwt_ok J \<Longrightarrow> valid_utf8 (trim_space subject) \<Longrightarrow> valid_utf8 (jm_issuer m) \<Longrightarrow>
   representable J (issued_claims J m now subject)"
  by (auto simp: representable_def issued_claims_def jwt_ok_def second_def)

lemma numeric_date_le: "jwt_ok J \<Longrightarrow> jwt_numeric_date J t \<le> t"
proof -
  assume "jwt_ok J"
  then have "jwt_numeric_date J t = t - t mod second" by (simp add: jwt_ok_def minus_mod_eq_div_mult)
  moreover have "0 \<le> t mod second" by (simp add: second_def)
  ultimately show ?thesis by linarith
qed

lemma parse_token_Inr:
  "parse_token J m now h = Inr cl \<longleftrightarrow>
   normalize_bearer_token h \<noteq> [] \<and> trim_space (cl_subject cl) \<noteq> [] \<and>
   jwt_parse J \<lparr>po_methods = [''HS256''], po_now = now,
       po_issuer = (if jm_issuer m \<noteq> [] then Some (jm_issuer m) else None)\<rparr>
     (jm_secret m) (normalize_bearer_token h) = Inr (Some cl, True)"
  by (auto simp: parse_token_def Let_def split: sum.splits option.splits if_splits)

lemma parse_token_sound:
  assumes "jwt_ok J" and "parse_token J m now h = Inr cl"
  shows "jwt_sign J (jm_secret m) cl = Inr (normalize_bearer_token h)" "representable J cl"
    "trim_space (cl_subject cl) \<noteq> []"
    "case cl_expires_at cl of None \<Rightarrow> True | Some e \<Rightarrow> now < e"
    "jm_issuer m = [] \<or> cl_issuer cl = jm_issuer m"
proof -
  define opts where "opts = \<lparr>po_methods = [''HS256''], po_now = now,
       po_issuer = (if jm_issuer m \<noteq> [] then Some (jm_issuer m) else None)\<rparr>"
  have p: "jwt_parse J opts (jm_secret m) (normalize_bearer_token h) = Inr (Some cl, True)"
    using assms(2) unfolding parse_token_Inr opts_def by simp
  have auth: "\<forall>key tok opts cl v. jwt_parse J opts key tok = Inr (cl, v) \<longrightarrow>
      (\<exists>cl'. cl = Some cl' \<and> v \<and> representable J cl' \<and> claims_valid opts cl' \<and> jwt_sign J key cl' = Inr tok)"
    using assms(1) by (simp add: jwt_ok_def)
  from auth p have v: "representable J cl \<and> claims_valid opts cl \<and> jwt_sign J (jm_secret m) cl = Inr (normalize_bearer_token h)"
    by blast
  then show "jwt_sign J (jm_secret m) cl = Inr (normalize_bearer_token h)" "representable J cl" by simp_all
  show "trim_space (cl_subject cl) \<noteq> []" using assms(2) by (simp add: parse_token_Inr)
  show "case cl_expires_at cl of None \<Rightarrow> True | Some e \<Rightarrow> now < e"
    using v by (simp add: claims_valid_def opts_def split: option.splits)
  show "jm_issuer m = [] \<or> cl_issuer cl = jm_issuer m"
    using v by (auto simp: claims_valid_def opts_def split: if_splits)
qed

text \<open>A token of the manager, when it is presented.\<close>

lemma accepts_issued:
  assumes "jwt_ok J" and "generate_token J m now subject = Inr tok" and "presents h tok"
    and "valid_utf8 (trim_space subject)" and "valid_utf8 (jm_issuer m)"
    and "now \<le> now'" and "jm_ttl m \<le> 0 \<or> now' < jwt_numeric_date J (now + jm_ttl m)"
  shows "\<exists>cl. parse_token J m now' h = Inr cl \<and> cl_subject cl = trim_space subject \<and> cl_issuer cl = jm_issuer m"
proof -
  define cl where "cl = issued_claims J m now subject"
  have sub: "trim_space subject \<noteq> []" and sign: "jwt_sign J (jm_secret m) cl = Inr tok"
    using assms(2) by (auto simp: generate_token_signs cl_def)
  have chars: "token_chars tok" using assms(1) sign unfolding jwt_ok_def by blast
  have rep: "representable J cl" unfolding cl_def using assms by (intro issued_claims_representable)
  have norm: "normalize_bearer_token h = tok" using assms(3) chars by (rule normalize_presents)
  have "claims_valid \<lparr>po_methods = [''HS256''], po_now = now',
       po_issuer = (if jm_issuer m \<noteq> [] then Some (jm_issuer m) else None)\<rparr> cl"
    using assms(6,7) numeric_date_le [OF assms(1), of now]
    by (auto simp: claims_valid_def cl_def issued_claims_def)
  then have "jwt_parse J \<lparr>po_methods = [''HS256''], po_now = now',
       po_issuer = (if jm_issuer m \<noteq> [] then Some (jm_issuer m) else None)\<rparr> (jm_secret m) tok = Inr (Some cl, True)"
    using assms(1) rep sign unfolding jwt_ok_def by blast
  moreover have "cl_subject cl = trim_space subject" "cl_issuer cl = jm_issuer m"
    by (simp_all add: cl_def issued_claims_def)
  ultimately show ?thesis
    using sub chars by (intro exI [of _ cl]) (simp add: parse_token_Inr norm token_chars_def)
qed

lemma refuses_issued:
  assumes "jwt_ok J" and "generate_token J m now subject = Inr tok" and "presents h tok"
    and "valid_utf8 (trim_space subject)" and "valid_utf8 (jm_issuer m)"
    and "(m' = m \<and> 0 < jm_ttl m \<and> now + jm_ttl m \<le> now') \<or> jm_secret m' \<noteq> jm_secret m \<or>
         (jm_issuer m' \<noteq> [] \<and> jm_issuer m' \<noteq> jm_issuer m)"
  shows "\<exists>err. parse_token J m' now' h = Inl err"
proof (cases "parse_token J m' now' h")
  case (Inr cl)
  define ci where "ci = issued_claims J m now subject"
  have sign: "jwt_sign J (jm_secret m) ci = Inr tok" using assms(2) by (auto simp: generate_token_signs ci_def)
  have chars: "token_chars tok" using assms(1) sign unfolding jwt_ok_def by blast
  have norm: "normalize_bearer_token h = tok" using assms(3) chars by (rule normalize_presents)
  note sound = parse_token_sound [OF assms(1) Inr]
  have rep: "representable J ci" unfolding ci_def using assms by (intro issued_claims_representable)
  have inj: "\<forall>key cl key' cl' tok. representable J cl \<longrightarrow> representable J cl' \<longrightarrow>
      jwt_sign J key cl = Inr tok \<longrightarrow> jwt_sign J key' cl' = Inr tok \<longrightarrow> key' = key \<and> cl' = cl"
    using assms(1) by (simp add: jwt_ok_def)
  have same: "jm_secret m' = jm_secret m" "cl = ci"
    using inj rep sound(1,2) sign norm by blast+
  have "jm_issuer m' = [] \<or> jm_issuer m = jm_issuer m'"
    using sound(5) same by (simp add: ci_def issued_claims_def)
  with same assms(6) have "0 < jm_ttl m" "now + jm_ttl m \<le> now'" by auto
  then have False
    using sound(4) same(2) numeric_date_le [OF assms(1), of "now + jm_ttl m"]
    by (simp add: ci_def issued_claims_def)
  then show ?thesis ..
qed simp

section \<open>Properties\<close>

text \<open>
  C17. A token the manager issues is accepted, for the subject it was issued for, from when it was
  issued until its time to live is over (to the second), whether it is presented raw or after
  the word Bearer in any case; with a time to live of 0 or less it never expires. Subject and
  issuer are UTF-8.
\<close>

theorem token_roundtrip:
  assumes "jwt_ok J" and "generate_token J m now subject = Inr tok" and "presents h tok"
    and "valid_utf8 (trim_space subject)" and "valid_utf8 (jm_issuer m)"
    and "now \<le> now'" and "jm_ttl m \<le> 0 \<or> now' < jwt_numeric_date J (now + jm_ttl m)"
  shows "\<exists>cl. parse_token J m now' h = Inr cl \<and> cl_subject cl = trim_space subject \<and> cl_issuer cl = jm_issuer m"
  by (rule accepts_issued [OF assms])

text \<open>
  C18. What the manager rejects: a token it issued is refused once its time to live is over, and by
  a manager with another secret or with another issuer of its own, at any time.
\<close>

theorem token_rejected:
  assumes "jwt_ok J" and "generate_token J m now subject = Inr tok" and "presents h tok"
    and "valid_utf8 (trim_space subject)" and "valid_utf8 (jm_issuer m)"
    and "(m' = m \<and> 0 < jm_ttl m \<and> now + jm_ttl m \<le> now') \<or> jm_secret m' \<noteq> jm_secret m \<or>
         (jm_issuer m' \<noteq> [] \<and> jm_issuer m' \<noteq> jm_issuer m)"
  shows "\<exists>err. parse_token J m' now' h = Inl err"
  by (rule refuses_issued [OF assms])

text \<open>
  C19. No token is accepted that was not signed: what the manager accepts, in whatever way it is
  presented, was signed with its own secret, names a subject, is not expired and, when the
  manager has an issuer, is of this issuer. Under the authenticity of the library's signatures.
\<close>

theorem token_authentic:
  assumes "jwt_ok J" and "parse_token J m now h = Inr cl"
  shows "jwt_sign J (jm_secret m) cl = Inr (normalize_bearer_token h) \<and>
         trim_space (cl_subject cl) \<noteq> [] \<and>
         (case cl_expires_at cl of None \<Rightarrow> True | Some e \<Rightarrow> now < e) \<and>
         (jm_issuer m = [] \<or> cl_issuer cl = jm_issuer m)"
  using parse_token_sound [OF assms] by blast

section \<open>A library to try the theorems on\<close>

text \<open>It signs two claims, under one key each.\<close>

definition sample_jwt_table :: "((string \<times> claims) \<times> string) list" where
  "sample_jwt_table =
     [((''k1'', \<lparr>cl_subject = ''ann'', cl_issuer = ''gb'', cl_issued_at = Some second,
                 cl_not_before = Some second, cl_expires_at = Some (61 * second)\<rparr>), ''tok1''),
      ((''k1'', \<lparr>cl_subject = ''bob'', cl_issuer = ''gb'', cl_issued_at = Some second,
                 cl_not_before = Some second, cl_expires_at = None\<rparr>), ''tok2'')]"

definition sample_jwt :: jwt_lib where
  "sample_jwt =
     \<lparr>jwt_numeric_date = (\<lambda>t. t div second * second),
      jwt_sign = (\<lambda>key cl. case map_of sample_jwt_table (key, cl) of
                      None \<Rightarrow> Inl (Foreign ''unknown'') | Some tok \<Rightarrow> Inr tok),
      jwt_parse = (\<lambda>opts key tok.
        case find (\<lambda>((k, cl), t). k = key \<and> t = tok \<and> claims_valid opts cl) sample_jwt_table of
          None \<Rightarrow> Inl (Foreign ''invalid'')
        | Some ((k, cl), t) \<Rightarrow> Inr (Some cl, True))\<rparr>"

lemma sample_jwt_ok: "jwt_ok sample_jwt"
proof -
  have u: "valid_utf8 ''ann''" "valid_utf8 ''bob''" "valid_utf8 ''gb''" by code_simp+
  have r: "representable sample_jwt cl" if "jwt_sign sample_jwt key cl = Inr tok" for key cl tok
    using that u by (auto simp: sample_jwt_def sample_jwt_table_def representable_def second_def split: if_splits)
  have c: "token_chars ''tok1''" "token_chars ''tok2''"
    by (simp_all add: token_chars_def space_bytes_def space_encodings_def)
  show ?thesis
    unfolding jwt_ok_def
  proof (intro conjI allI impI)
    show "jwt_numeric_date sample_jwt t = t div second * second" for t by (simp add: sample_jwt_def)
  next
    fix key cl tok
    assume "jwt_sign sample_jwt key cl = Inr tok"
    then show "token_chars tok" using c by (auto simp: sample_jwt_def sample_jwt_table_def split: if_splits)
  next
    fix key cl tok opts
    assume "jwt_sign sample_jwt key cl = Inr tok" "claims_valid opts cl"
    then show "jwt_parse sample_jwt opts key tok = Inr (Some cl, True)"
      by (auto simp: sample_jwt_def sample_jwt_table_def split: if_splits)
  next
    fix key tok opts cl v
    assume a: "jwt_parse sample_jwt opts key tok = Inr (cl, v)"
    then obtain cl' where "cl = Some cl'" "v" "claims_valid opts cl'" "jwt_sign sample_jwt key cl' = Inr tok"
      by (auto simp: sample_jwt_def sample_jwt_table_def split: if_splits)
    with r show "\<exists>cl'. cl = Some cl' \<and> v \<and> representable sample_jwt cl' \<and> claims_valid opts cl' \<and>
        jwt_sign sample_jwt key cl' = Inr tok" by blast
  next
    fix key cl key' cl' tok
    assume "jwt_sign sample_jwt key cl = Inr tok" "jwt_sign sample_jwt key' cl' = Inr tok"
    then show "key' = key" "cl' = cl" by (auto simp: sample_jwt_def sample_jwt_table_def split: if_splits)
  qed
qed

definition sample_manager :: "int \<Rightarrow> jwt_manager" where
  "sample_manager ttl = \<lparr>jm_secret = ''k1'', jm_issuer = ''gb'', jm_ttl = ttl\<rparr>"

theorem token_roundtrip_witness:
  "\<exists>cl. parse_token sample_jwt (sample_manager minute) (60 * second) ''BEARER tok1'' = Inr cl \<and> cl_subject cl = ''ann''"
proof -
  have t: "generate_token sample_jwt (sample_manager minute) second '' ann '' = Inr ''tok1''" by code_simp
  have p: "presents ''BEARER tok1'' ''tok1''"
    unfolding presents_def by (rule disjI2, rule exI [of _ "''BEARER ''"]) (simp, code_simp)
  have v: "trim_space '' ann '' = ''ann''" "valid_utf8 ''ann''" "valid_utf8 (jm_issuer (sample_manager minute))"
    by code_simp+
  have e: "60 * second < jwt_numeric_date sample_jwt (second + jm_ttl (sample_manager minute))" by code_simp
  have "second \<le> 60 * second" by (simp add: second_def)
  then show ?thesis
    using token_roundtrip [OF sample_jwt_ok t p, of "60 * second"] v e by auto
qed

theorem token_rejected_witness:
  "\<exists>err err'. parse_token sample_jwt (sample_manager minute) (61 * second) ''tok1'' = Inl err \<and>
     parse_token sample_jwt \<lparr>jm_secret = ''k2'', jm_issuer = [], jm_ttl = 0\<rparr> second ''tok1'' = Inl err'"
proof -
  have t: "generate_token sample_jwt (sample_manager minute) second '' ann '' = Inr ''tok1''" by code_simp
  have v: "valid_utf8 (trim_space '' ann '')" "valid_utf8 (jm_issuer (sample_manager minute))" by code_simp+
  have p: "presents ''tok1'' ''tok1''" by (simp add: presents_def)
  note rej = token_rejected [OF sample_jwt_ok t p v]
  have "\<exists>err. parse_token sample_jwt (sample_manager minute) (61 * second) ''tok1'' = Inl err"
    by (rule rej) (simp add: sample_manager_def minute_def second_def)
  moreover have "\<exists>err. parse_token sample_jwt \<lparr>jm_secret = ''k2'', jm_issuer = [], jm_ttl = 0\<rparr> second ''tok1'' = Inl err"
    by (rule rej) (simp add: sample_manager_def)
  ultimately show ?thesis by blast
qed

theorem token_authentic_witness:
  "\<exists>cl. parse_token sample_jwt (sample_manager 0) (10 * second) ''tok2'' = Inr cl \<and>
     jwt_sign sample_jwt ''k1'' cl = Inr ''tok2''"
proof -
  have "case parse_token sample_jwt (sample_manager 0) (10 * second) ''tok2'' of Inl e \<Rightarrow> False | Inr cl \<Rightarrow> True" by code_simp
  then obtain cl where cl: "parse_token sample_jwt (sample_manager 0) (10 * second) ''tok2'' = Inr cl"
    by (auto split: sum.splits)
  have "normalize_bearer_token ''tok2'' = ''tok2''" by code_simp
  with token_authentic [OF sample_jwt_ok cl] cl show ?thesis by (auto simp: sample_manager_def)
qed

end
