(* ===== verification/Task.thy ===== *)
theory Task
  imports Json Errcode
begin

text \<open>
  \<open>internal/task\<close>: the example task, and the trace id its payload carries from the web process
  to the worker. An asynq task is its type name, its payload bytes and the options it was made
  with.
\<close>

datatype task_option = MaxRetry int

record task =
  task_type :: string
  task_payload :: string
  task_opts :: "task_option list"

definition type_example_task :: string where
  "type_example_task = ''example:run''"

record example_payload =
  pl_name :: string
  pl_trace_id :: string

text \<open>\<open>json.Marshal\<close> of the payload; a struct of strings always marshals.\<close>

definition payload_fields :: "example_payload \<Rightarrow> (string \<times> string) list" where
  "payload_fields p =
     (''name'', pl_name p) # (if pl_trace_id p = [] then [] else [(''trace_id'', pl_trace_id p)])"

definition marshal_payload :: "example_payload \<Rightarrow> go_error + string" where
  "marshal_payload p = Inr (json_marshal (payload_fields p))"

text \<open>\<open>json.Unmarshal\<close> into a payload: the fields read, and whether there was no error.\<close>

definition unmarshal_payload :: "string \<Rightarrow> example_payload \<times> bool" where
  "unmarshal_payload bytes =
     (case json_unmarshal [''name'', ''trace_id''] bytes of
        (vals, ok) \<Rightarrow> (\<lparr>pl_name = vals ''name'', pl_trace_id = vals ''trace_id''\<rparr>, ok))"

text \<open>\<open>NewExampleTask\<close>; \<open>trace_ids\<close> is its variadic argument.\<close>

definition new_example_task :: "string \<Rightarrow> string list \<Rightarrow> go_error + task" where
  "new_example_task name trace_ids =
     (let p = \<lparr>pl_name = name, pl_trace_id = []\<rparr>;
          p = (case trace_ids of [] \<Rightarrow> p | t # _ \<Rightarrow> p\<lparr>pl_trace_id := trim_space t\<rparr>)
      in case marshal_payload p of
           Inl err \<Rightarrow> Inl (wrap ''marshal example payload'' err)
         | Inr payload \<Rightarrow>
             Inr \<lparr>task_type = type_example_task, task_payload = payload, task_opts = [MaxRetry 5]\<rparr>)"

definition trace_id_from_payload :: "string \<Rightarrow> string" where
  "trace_id_from_payload payload =
     (case json_unmarshal [''trace_id''] payload of
        (vals, ok) \<Rightarrow> if \<not> ok then [] else vals ''trace_id'')"

section \<open>Lemmas\<close>

lemma to_valid_utf8_names [simp]:
  "to_valid_utf8 ''name'' = ''name''" "to_valid_utf8 ''trace_id'' = ''trace_id''"
  by code_simp+

lemma to_valid_utf8_Nil [simp]: "to_valid_utf8 [] = []"
  by (simp add: to_valid_utf8.simps)

lemma json_unmarshal_marshal:
  "json_unmarshal names (json_marshal fs) =
     fold (decode_member names) (map json_pair fs) ((\<lambda>_. []), True)"
  by (simp add: json_unmarshal_def parse_json_marshal)

lemma unmarshal_payload_fields:
  "unmarshal_payload (json_marshal (payload_fields p)) =
     (\<lparr>pl_name = to_valid_utf8 (pl_name p), pl_trace_id = to_valid_utf8 (pl_trace_id p)\<rparr>, True)"
  by (simp add: unmarshal_payload_def json_unmarshal_marshal payload_fields_def json_pair_def
      decode_member_def find_field_def)

lemma trace_id_from_payload_fields:
  "trace_id_from_payload (json_marshal (payload_fields p)) = to_valid_utf8 (pl_trace_id p)"
proof -
  have "find_field [''trace_id''] ''name'' = None" by code_simp
  then show ?thesis
    by (simp add: trace_id_from_payload_def json_unmarshal_marshal payload_fields_def json_pair_def
        decode_member_def find_field_def)
qed

lemma new_example_task_eq:
  "new_example_task name trace_ids =
     Inr \<lparr>task_type = type_example_task,
          task_payload = json_marshal (payload_fields
            \<lparr>pl_name = name, pl_trace_id = (case trace_ids of [] \<Rightarrow> [] | t # _ \<Rightarrow> trim_space t)\<rparr>),
          task_opts = [MaxRetry 5]\<rparr>"
  by (simp add: new_example_task_def marshal_payload_def Let_def split: list.split)

section \<open>Properties\<close>

text \<open>
  C21. What \<open>NewExampleTask\<close> puts into a task the worker reads back: for any name and trace id
  there is a task, it is of the example type and retried at most 5 times, its handler decodes the
  name and the trimmed trace id, and \<open>TraceIDFromPayload\<close> gives the same trace id; only bytes
  that are not UTF-8 are replaced on the way.
\<close>

theorem example_task_roundtrip:
  "\<exists>t. new_example_task name [trace_id] = Inr t \<and>
       task_type t = type_example_task \<and> task_opts t = [MaxRetry 5] \<and>
       unmarshal_payload (task_payload t) =
         (\<lparr>pl_name = to_valid_utf8 name, pl_trace_id = to_valid_utf8 (trim_space trace_id)\<rparr>, True) \<and>
       trace_id_from_payload (task_payload t) = to_valid_utf8 (trim_space trace_id)"
  by (simp add: new_example_task_eq unmarshal_payload_fields trace_id_from_payload_fields)

end
