(* ===== verification/TaskQueue.thy ===== *)
theory TaskQueue
  imports Task Effects
begin

text \<open>
  \<open>internal/taskqueue\<close>: the typed wrapper of the asynq client. The client is a parameter:
  \<open>aq_enqueue\<close> is \<open>EnqueueContext\<close> of a client \<open>'q\<close>, over the outside state \<open>'w\<close>, with the info of
  the queued task or an error.
\<close>

definition ErrQueueUnavailable :: go_error where
  "ErrQueueUnavailable = Plain ''taskqueue: queue unavailable''"
definition ErrNilTask :: go_error where
  "ErrNilTask = Plain ''taskqueue: nil task''"

type_synonym ('q, 'db, 'i, 'w) enqueue_fn =
  "'q \<Rightarrow> 'db ctx \<Rightarrow> task \<Rightarrow> task_option list \<Rightarrow> 'w \<Rightarrow> (go_error + 'i) \<times> 'w"

text \<open>A \<open>*Queue\<close> is \<open>None\<close> when nil.\<close>

record 'q queue =
  q_client :: "'q option"

definition new_queue :: "'q option \<Rightarrow> 'q queue option" where
  "new_queue client = (if client = None then None else Some \<lparr>q_client = client\<rparr>)"

definition available :: "'q queue option \<Rightarrow> bool" where
  "available q = (case q of None \<Rightarrow> False | Some q \<Rightarrow> q_client q \<noteq> None)"

definition enqueue ::
    "('q, 'db, 'i, 'w) enqueue_fn \<Rightarrow> 'q queue option \<Rightarrow> 'db ctx option \<Rightarrow> task option \<Rightarrow>
     task_option list \<Rightarrow> 'w \<Rightarrow> (go_error + 'i) \<times> 'w" where
  "enqueue aq_enqueue q c t opts w =
     (case q of
        None \<Rightarrow> (Inl ErrQueueUnavailable, w)
      | Some q \<Rightarrow>
          (case q_client q of
             None \<Rightarrow> (Inl ErrQueueUnavailable, w)
           | Some client \<Rightarrow>
               (case t of
                  None \<Rightarrow> (Inl ErrNilTask, w)
                | Some t \<Rightarrow>
                    let c = (case c of None \<Rightarrow> background | Some c \<Rightarrow> c)
                    in aq_enqueue client c t opts w)))"

text \<open>
  The interface \<open>service.ExampleQueue\<close>: what its implementations keep to. A queue that is not
  available, or a nil task, is an error and publishes nothing.
\<close>

locale example_queue =
  fixes avail :: "'p \<Rightarrow> bool"
    and enq :: "'p \<Rightarrow> 'db ctx option \<Rightarrow> task option \<Rightarrow> task_option list \<Rightarrow> 'w \<Rightarrow> (go_error + 'i) \<times> 'w"
  assumes enq_unavailable: "\<not> avail q \<Longrightarrow> enq q c t opts w = (Inl ErrQueueUnavailable, w)"
    and enq_nil_task: "avail q \<Longrightarrow> enq q c None opts w = (Inl ErrNilTask, w)"
    and enq_nil_context: "enq q None t opts w = enq q (Some background) t opts w"
begin

lemma enq_nil_fails: "\<exists>e. enq q c None opts w = (Inl e, w)"
  using enq_unavailable enq_nil_task by (cases "avail q") auto

lemma enq_published: "enq q c t opts w = (Inr i, w') \<Longrightarrow> avail q \<and> t \<noteq> None"
  using enq_unavailable [of q c t opts w] enq_nil_task [of q c opts w]
  by (cases "avail q"; cases t) auto

end

interpretation tq: example_queue available "enqueue aq_enqueue" for aq_enqueue
  by unfold_locales (auto simp: available_def enqueue_def split: option.splits)

section \<open>Properties\<close>

lemma available_new_queue [simp]: "available (new_queue client) \<longleftrightarrow> client \<noteq> None"
  by (auto simp: available_def new_queue_def)

text \<open>
  A queue is usable exactly when it was made from a client, and the wrapper is safe on nil:
  whatever the receiver (a nil pointer included), task and context, \<open>Enqueue\<close> either publishes
  through the client, which needs a client and a task, or is an error that leaves the outside
  alone.
\<close>

theorem enqueue_safe:
  "available (new_queue client) = (client \<noteq> None) \<and>
   enqueue aq q c t opts w =
     (if \<not> available q then (Inl ErrQueueUnavailable, w)
      else if t = None then (Inl ErrNilTask, w)
      else aq (the (q_client (the q))) (case c of None \<Rightarrow> background | Some c \<Rightarrow> c) (the t) opts w)"
proof
  show "available (new_queue client) = (client \<noteq> None)" by simp
  show "enqueue aq q c t opts w =
     (if \<not> available q then (Inl ErrQueueUnavailable, w)
      else if t = None then (Inl ErrNilTask, w)
      else aq (the (q_client (the q))) (case c of None \<Rightarrow> background | Some c \<Rightarrow> c) (the t) opts w)"
    by (auto simp: available_def enqueue_def split: option.splits)
qed

end
