(* ===== verification/Worker.thy ===== *)
theory Worker
  imports TaskQueue "HOL-Library.Word"
begin

text \<open>
  \<open>internal/worker\<close>: the asynq server's options, the retry delay, the middleware that restores the
  trace id of a task, and the task handler. The asynq library is a parameter: the metadata it
  puts into the context of a running task, and its \<open>ServeMux\<close>.
\<close>

section \<open>Redis options and the retry delay (server.go)\<close>

record redis_opt =
  ro_addr :: string
  ro_password :: string
  ro_db :: int

definition new_redis_opt :: "string \<Rightarrow> string \<Rightarrow> int \<Rightarrow> redis_opt" where
  "new_redis_opt addr password db = \<lparr>ro_addr = addr, ro_password = password, ro_db = db\<rparr>"

text \<open>
  A \<open>time.Duration\<close> is a signed 64-bit integer: the shift and the products wrap around. \<open>n\<close> is a
  Go \<open>int\<close>, and shifting by \<open>uint(n)\<close> gives 0 from 64 on, so also for a negative \<open>n\<close>.
\<close>

definition shift_one :: "int \<Rightarrow> 64 word" where
  "shift_one n = (if 0 \<le> n \<and> n < 64 then push_bit (nat n) 1 else 0)"

definition retry_delay_word :: "int \<Rightarrow> 64 word" where
  "retry_delay_word n =
     (let delay = shift_one n * 5 * word_of_int second in
      if word_of_int hour <s delay then word_of_int hour else delay)"

definition retry_delay :: "int \<Rightarrow> int" where
  "retry_delay n = sint (retry_delay_word n)"

definition wrap_int64 :: "int \<Rightarrow> int" where
  "wrap_int64 i = sint (word_of_int i :: 64 word)"

definition example_retry_delay :: "int \<Rightarrow> go_error \<Rightarrow> task \<Rightarrow> 'w app \<Rightarrow> int \<times> 'w app" where
  "example_retry_delay n e t s =
     (let delay = retry_delay n;
          entry = \<lparr>le_severity = ''warn'', le_msg = ''asynq task will retry'',
                   le_trace = trace_id_from_payload (task_payload t),
                   le_fields = [(''task'', FStr (task_type t)), (''attempt'', FInt (wrap_int64 (n + 1))),
                                (''retry_after'', FInt delay), (''error'', FErr e)]\<rparr>
      in (delay, add_log entry s))"

section \<open>Trace ids of tasks\<close>

record task_meta =
  tm_task_id :: string
  tm_queue :: string
  tm_retry_count :: int
  tm_retry_recorded :: bool

text \<open>\<open>asynq.GetTaskID\<close>, \<open>GetQueueName\<close> and \<open>GetRetryCount\<close>.\<close>

record 'db asynq_getters =
  get_task_id :: "'db ctx option \<Rightarrow> string option"
  get_queue_name :: "'db ctx option \<Rightarrow> string option"
  get_retry_count :: "'db ctx option \<Rightarrow> int option"

definition task_meta_from_context :: "'db asynq_getters \<Rightarrow> 'db ctx option \<Rightarrow> task_meta" where
  "task_meta_from_context A c =
     (let meta = \<lparr>tm_task_id = [], tm_queue = [], tm_retry_count = 0, tm_retry_recorded = False\<rparr>;
          meta = (case get_task_id A c of Some v \<Rightarrow> meta\<lparr>tm_task_id := v\<rparr> | None \<Rightarrow> meta);
          meta = (case get_queue_name A c of Some v \<Rightarrow> meta\<lparr>tm_queue := v\<rparr> | None \<Rightarrow> meta)
      in case get_retry_count A c of
           Some v \<Rightarrow> meta\<lparr>tm_retry_count := v, tm_retry_recorded := True\<rparr>
         | None \<Rightarrow> meta)"

definition task_log_context ::
    "'db ctx option \<Rightarrow> task \<Rightarrow> task_meta \<Rightarrow> 'db ctx \<times> (string \<times> field_val) list" where
  "task_log_context c t meta =
     (let trace_id = trace_id_from_payload (task_payload t);
          (trace_id, source) =
            (if trace_id = [] then (new_trace_id [''asynq'', tm_task_id meta], ''asynq_task'')
             else (trace_id, ''request''));
          c = ensure_trace_id c trace_id;
          flds = [(''task'', FStr (task_type t)), (''trace_source'', FStr source)];
          flds = (if trim_space (tm_task_id meta) \<noteq> []
                  then flds @ [(''task_id'', FStr (tm_task_id meta))] else flds);
          flds = (if trim_space (tm_queue meta) \<noteq> []
                  then flds @ [(''queue'', FStr (tm_queue meta))] else flds);
          flds = (if tm_retry_recorded meta
                  then flds @ [(''retry_count'', FInt (tm_retry_count meta))] else flds)
      in (c, flds))"

type_synonym ('db, 'w) task_handler =
  "'db ctx option \<Rightarrow> task \<Rightarrow> 'w app \<Rightarrow> (go_error option, 'w app) outcome"

definition trace_middleware_with ::
    "('db ctx option \<Rightarrow> task_meta) \<Rightarrow> ('db, 'w) task_handler \<Rightarrow> ('db, 'w) task_handler" where
  "trace_middleware_with provider nxt c t s =
     (case task_log_context c t (provider c) of
        (c, flds) \<Rightarrow>
          and_then (nxt (Some c) t (add_log (ctx_log (Some c) ''info'' ''asynq task started'' flds) s)) (\<lambda>err s.
            case err of
              Some e \<Rightarrow> Returned (Some e) s
            | None \<Rightarrow> Returned None (add_log (ctx_log (Some c) ''info'' ''asynq task finished'' flds) s)))"

definition trace_middleware :: "'db asynq_getters \<Rightarrow> ('db, 'w) task_handler \<Rightarrow> ('db, 'w) task_handler" where
  "trace_middleware A nxt = trace_middleware_with (task_meta_from_context A) nxt"

definition log_task_failed ::
    "'db asynq_getters \<Rightarrow> 'db ctx option \<Rightarrow> task \<Rightarrow> go_error \<Rightarrow> 'w app \<Rightarrow> 'w app" where
  "log_task_failed A c t err s =
     (case task_log_context c t (task_meta_from_context A c) of
        (c, flds) \<Rightarrow> add_log (ctx_log (Some c) ''error'' ''asynq task failed'' (flds @ [(''error'', FErr err)])) s)"

text \<open>The configuration \<open>NewServer\<close> hands to asynq.\<close>

record ('db, 'w) asynq_config =
  ac_concurrency :: int
  ac_queues :: "(string \<times> int) list"
  ac_retry_delay :: "int \<Rightarrow> go_error \<Rightarrow> task \<Rightarrow> 'w app \<Rightarrow> int \<times> 'w app"
  ac_error_handler :: "'db ctx option \<Rightarrow> task \<Rightarrow> go_error \<Rightarrow> 'w app \<Rightarrow> 'w app"

definition new_server_config :: "'db asynq_getters \<Rightarrow> redis_opt \<Rightarrow> redis_opt \<times> ('db, 'w) asynq_config" where
  "new_server_config A opt =
     (opt, \<lparr>ac_concurrency = 10, ac_queues = [(''critical'', 6), (''default'', 3), (''low'', 1)],
            ac_retry_delay = example_retry_delay, ac_error_handler = log_task_failed A\<rparr>)"

section \<open>The handler (handler.go)\<close>

text \<open>
  \<open>Deps\<close>: the database, cache, Redis and queue handles, each possibly nil. When a payload does not decode,
  the error of \<open>encoding/json\<close> is a fixed \<open>Foreign\<close> error: nothing reads its text but the log.
\<close>

record ('db, 'k, 'r, 'q) deps =
  dep_db :: "'db option"
  dep_cache :: "'k option"
  dep_rdb :: "'r option"
  dep_queue :: "'q queue option"

definition handle_example_task :: "('db, 'k, 'r, 'q) deps option \<Rightarrow> ('db, 'w) task_handler" where
  "handle_example_task d c t s =
     (case unmarshal_payload (task_payload t) of
        (p, ok) \<Rightarrow>
          if \<not> ok then Returned (Some (wrap ''unmarshal example payload'' (Foreign ''invalid JSON payload''))) s
          else
            Returned None
              (add_log (ctx_log c ''info'' ''example task executed''
                 [(''name'', FStr (pl_name p)),
                  (''db_available'', FBool (case d of None \<Rightarrow> False | Some d \<Rightarrow> dep_db d \<noteq> None))]) s))"

text \<open>
  (The text of an error of \<open>json.Unmarshal\<close> is the library's; the one above stands for any.)
  \<open>asynq.ServeMux\<close>: \<open>Use\<close>, \<open>HandleFunc\<close>, and the handler it runs for a task.\<close>

record ('m, 'db, 'w) mux_ops =
  mux_use :: "(('db, 'w) task_handler \<Rightarrow> ('db, 'w) task_handler) \<Rightarrow> 'm \<Rightarrow> 'm"
  mux_handle_func :: "string \<Rightarrow> ('db, 'w) task_handler \<Rightarrow> 'm \<Rightarrow> 'm"
  mux_process :: "'m \<Rightarrow> ('db, 'w) task_handler"

definition register_trace_middleware ::
    "('m, 'db, 'w) mux_ops \<Rightarrow> 'db asynq_getters \<Rightarrow> 'm option \<Rightarrow> 'm option" where
  "register_trace_middleware M A mux =
     (case mux of None \<Rightarrow> None | Some m \<Rightarrow> Some (mux_use M (trace_middleware A) m))"

definition register_handlers ::
    "('m, 'db, 'w) mux_ops \<Rightarrow> 'db asynq_getters \<Rightarrow> ('db, 'k, 'r, 'q) deps option \<Rightarrow> 'm option \<Rightarrow> 'm option" where
  "register_handlers M A d mux =
     (case mux of
        None \<Rightarrow> None
      | Some m \<Rightarrow>
          let mux = register_trace_middleware M A mux;
              d = (case d of
                     None \<Rightarrow> \<lparr>dep_db = None, dep_cache = None, dep_rdb = None, dep_queue = None\<rparr>
                   | Some d \<Rightarrow> d)
          in map_option (mux_handle_func M type_example_task (handle_example_task (Some d))) mux)"

text \<open>
  What asynq documents of its mux, for a fresh one: a task goes to the handler registered for its
  type, wrapped in the middleware in use.
\<close>

definition mux_ok :: "('m, 'db, 'w) mux_ops \<Rightarrow> 'm \<Rightarrow> bool" where
  "mux_ok M fresh \<longleftrightarrow>
     (\<forall>mw h p c t. task_type t = p \<longrightarrow>
        mux_process M (mux_handle_func M p h (mux_use M mw fresh)) c t = mw h c t)"

section \<open>Lemmas\<close>

lemma sint_small: "- (2 ^ 63) \<le> x \<Longrightarrow> x < 2 ^ 63 \<Longrightarrow> sint (word_of_int x :: 64 word) = x"
  by (simp add: sint_sbintrunc' signed_take_bit_int_eq_self)

lemma wrap_int64_id: "- (2 ^ 63) \<le> x \<Longrightarrow> x < 2 ^ 63 \<Longrightarrow> wrap_int64 x = x"
  by (simp add: wrap_int64_def sint_small)

lemma shift_one_eq: "0 \<le> n \<Longrightarrow> n < 64 \<Longrightarrow> shift_one n = word_of_int (2 ^ nat n)"
  by (simp add: shift_one_def push_bit_eq_mult)

lemma raw_delay_eq:
  "0 \<le> n \<Longrightarrow> n < 64 \<Longrightarrow> shift_one n * 5 * word_of_int second = word_of_int (5 * second * 2 ^ nat n)"
  by (simp add: shift_one_eq second_def algebra_simps)

lemma sint_hour: "sint (word_of_int hour :: 64 word) = hour"
  by (rule sint_small) (simp_all add: go_defs)

lemma retry_delay_min: "retry_delay n = min (sint (shift_one n * 5 * word_of_int second)) hour"
  by (simp add: retry_delay_def retry_delay_word_def Let_def word_sless_alt sint_hour)

lemma retry_delay_exact:
  assumes "0 \<le> n" "n \<le> 30"
  shows "retry_delay n = min (5 * second * 2 ^ nat n) hour"
proof -
  have small: "sint (word_of_int (5 * second * x) :: 64 word) = 5 * second * x" if "0 \<le> x" "x \<le> 2 ^ 30" for x
    using that by (intro sint_small) (simp_all add: second_def)
  have "(2::int) ^ nat n \<le> 2 ^ 30" using assms by (intro power_increasing) auto
  then have "sint (word_of_int (5 * second * 2 ^ nat n) :: 64 word) = 5 * second * 2 ^ nat n"
    by (intro small) auto
  then have "sint (shift_one n * 5 * word_of_int second) = 5 * second * 2 ^ nat n"
    using assms by (simp only: raw_delay_eq)
  then show ?thesis by (simp add: retry_delay_min)
qed

lemma retry_delay_large: "55 \<le> n \<or> n < 0 \<Longrightarrow> retry_delay n = 0"
proof -
  assume a: "55 \<le> n \<or> n < 0"
  have "shift_one n * 5 * word_of_int second = 0"
  proof (cases "0 \<le> n \<and> n < 64")
    case True
    with a have n: "55 \<le> n" by simp
    then have "(2::int) ^ nat n = 2 ^ 55 * 2 ^ (nat n - 55)" by (simp only: power_add [symmetric]) simp
    then have "5 * second * 2 ^ nat n = 2 ^ 64 * (9765625 * 2 ^ (nat n - 55))" by (simp add: second_def)
    then have "(word_of_int (5 * second * 2 ^ nat n) :: 64 word) = word_of_int (2 ^ 64) * word_of_int (9765625 * 2 ^ (nat n - 55))"
      by (simp only: of_int_mult)
    also have "(word_of_int (2 ^ 64) :: 64 word) = 0" by simp
    finally have "(word_of_int (5 * second * 2 ^ nat n) :: 64 word) = 0" by simp
    then show ?thesis using True raw_delay_eq [of n] by simp
  next
    case False
    then show ?thesis by (auto simp: shift_one_def)
  qed
  then show ?thesis by (simp add: retry_delay_min hour_def minute_def second_def)
qed

text \<open>
  From 31 to 54 the product does not fit, but is not yet a multiple of \<open>2 ^ 64\<close>: what is left of it is
  negative, or happens to be above the cap.
\<close>

definition wraps_above_cap :: "int \<Rightarrow> bool" where
  "wraps_above_cap n \<longleftrightarrow> n \<in> set [32, 33, 35, 37, 39, 40, 41, 42, 43, 44, 46, 52, 53]"

lemma retry_delay_table:
  "list_all (\<lambda>n. if wraps_above_cap n then retry_delay n = hour else retry_delay n < 0) [31..54]"
  by code_simp

lemma new_trace_id_asynq:
  "new_trace_id [''asynq'', x] = (if trim_space x = [] then ''asynq'' else ''asynq:'' @ trim_space x)"
proof -
  have "trim_space ''asynq'' = ''asynq''" by code_simp
  then show ?thesis by (simp add: new_trace_id_def Let_def)
qed

lemma trim_new_trace_id_asynq [simp]: "trim_space (new_trace_id [''asynq'', x]) = new_trace_id [''asynq'', x]"
proof -
  have "trim_space ''asynq'' = ''asynq''" by code_simp
  moreover have "trim_space (''asynq:'' @ trim_space x) = ''asynq:'' @ trim_space x"
    by (rule trim_space_append_id) (simp_all add: space_bytes_def space_encodings_def trim_right_trim_space)
  ultimately show ?thesis by (simp add: new_trace_id_asynq)
qed

lemma task_log_context_trace:
  "task_log_context c t meta = (c', flds) \<Longrightarrow>
   trace_id_from (Some c') =
     (if trace_id_from c \<noteq> [] then trace_id_from c
      else if trace_id_from_payload (task_payload t) \<noteq> [] then trim_space (trace_id_from_payload (task_payload t))
      else new_trace_id [''asynq'', tm_task_id meta])"
  by (auto simp: task_log_context_def Let_def trace_id_from_ensure)

section \<open>Properties\<close>

text \<open>
  C30. The delay before a retry doubles from five seconds and stops at one hour, for the first 31
  attempts; it never shrinks from one of them to the next.
\<close>

theorem retry_delay_backoff:
  assumes "0 \<le> m" and "m \<le> n" and "n \<le> 30"
  shows "retry_delay n = min (5 * second * 2 ^ nat n) hour \<and>
         5 * second \<le> retry_delay m \<and> retry_delay m \<le> retry_delay n"
proof -
  have mono: "5 * second \<le> min (5 * second * x) hour \<and> min (5 * second * x) hour \<le> min (5 * second * y) hour"
    if "x \<le> y" "1 \<le> x" for x y
    using that by (simp add: hour_def minute_def second_def min_def)
  have "(2::int) ^ nat m \<le> 2 ^ nat n" using assms by (intro power_increasing) auto
  then have "5 * second \<le> min (5 * second * 2 ^ nat m) hour \<and>
      min (5 * second * 2 ^ nat m) hour \<le> min (5 * second * 2 ^ nat n) hour"
    by (rule mono) simp
  moreover have "retry_delay m = min (5 * second * 2 ^ nat m) hour" "retry_delay n = min (5 * second * 2 ^ nat n) hour"
    using assms by (auto intro: retry_delay_exact)
  ultimately show ?thesis by (simp only: simp_thms)
qed

theorem retry_delay_backoff_witness:
  "retry_delay 3 = 40 * second \<and> 5 * second \<le> retry_delay 0 \<and> retry_delay 0 \<le> retry_delay 3"
  using retry_delay_backoff [of 0 3] by (simp add: hour_def minute_def second_def)

text \<open>
  C31. Beyond the first 31 attempts the product overflows before it is compared with the cap: the delay is
  negative, but for thirteen attempts where what is left of the product happens to exceed an hour, and
  it is 0 from the 56th attempt on. It is never over an hour.
\<close>

theorem retry_delay_overflows:
  "retry_delay n \<le> hour \<and>
   (31 \<le> n \<longrightarrow> retry_delay n = hour \<longleftrightarrow> n \<in> {32, 33, 35, 37, 46, 52, 53} \<union> {39..44}) \<and>
   (31 \<le> n \<and> n < 55 \<longrightarrow> retry_delay n = hour \<or> retry_delay n < 0) \<and> (55 \<le> n \<longrightarrow> retry_delay n = 0)"
proof -
  have w: "wraps_above_cap n \<longleftrightarrow> n \<in> {32, 33, 35, 37, 46, 52, 53} \<union> {39..44}"
    by (auto simp: wraps_above_cap_def)
  have h: "0 < hour" by (simp add: go_defs)
  have "if wraps_above_cap n then retry_delay n = hour else retry_delay n < 0" if "31 \<le> n" "n < 55"
    by (rule bspec [OF retry_delay_table [unfolded list_all_iff]]) (use that in \<open>simp only: set_upto, simp\<close>)
  moreover have "retry_delay n = 0 \<and> \<not> wraps_above_cap n" if "55 \<le> n"
    using retry_delay_large [of n] that by (auto simp: wraps_above_cap_def)
  moreover have "retry_delay n \<le> hour" by (simp add: retry_delay_min)
  ultimately show ?thesis using h unfolding w [symmetric] by (cases "n < 55") (auto  split: if_splits)
qed

theorem retry_delay_overflows_witness:
  "retry_delay 34 < 0 \<and> retry_delay 32 = hour \<and> retry_delay 60 = 0"
  using retry_delay_overflows [of 34] retry_delay_overflows [of 32] retry_delay_overflows [of 60] by auto

text \<open>
  The trace middleware around any handler: the handler runs exactly once, after the started
  entry, and its result, error or panic included, is the result; the finished entry follows only
  a success. The context it gets carries the trace id the context had, else the trimmed one of
  the payload, else one made of the task's id; both entries and the failure entry of the error
  handler carry the same trace id and fields.
\<close>

theorem trace_middleware_spec:
  "\<exists>c' flds.
     trace_id_from (Some c') =
       (if trace_id_from c \<noteq> [] then trace_id_from c
        else if trace_id_from_payload (task_payload t) \<noteq> []
        then trim_space (trace_id_from_payload (task_payload t))
        else new_trace_id [''asynq'', tm_task_id (task_meta_from_context A c)]) \<and>
     trace_middleware A nxt c t s =
       and_then (nxt (Some c') t (add_log (ctx_log (Some c') ''info'' ''asynq task started'' flds) s))
         (\<lambda>err s'. Returned err
            (if err = None then add_log (ctx_log (Some c') ''info'' ''asynq task finished'' flds) s' else s')) \<and>
     log_task_failed A c t e s2 =
       add_log (ctx_log (Some c') ''error'' ''asynq task failed'' (flds @ [(''error'', FErr e)])) s2"
proof -
  obtain c' flds where eq: "task_log_context c t (task_meta_from_context A c) = (c', flds)" by fastforce
  have "and_then m (\<lambda>err s. case err of Some e \<Rightarrow> Returned (Some e) s | None \<Rightarrow> Returned None (f s)) =
      and_then m (\<lambda>err s. Returned err (if err = None then f s else s))" for m and f :: "'b app \<Rightarrow> 'b app"
    by (cases m) (auto split: option.split)
  then show ?thesis
    using task_log_context_trace [OF eq]
    by (intro exI [of _ c'] exI [of _ flds])
       (simp add: trace_middleware_def trace_middleware_with_def log_task_failed_def eq)
qed

lemma to_valid_utf8_eq_Nil [simp]: "to_valid_utf8 s = [] \<longleftrightarrow> s = []"
  by (subst to_valid_utf8.simps) (auto simp: replacement_def)

lemma example_task_run:
  assumes "mux_ok M fresh" and "register_handlers M A d (Some fresh) = Some mux"
    and "new_example_task name [trace_id] = Inr t" and "trace_id_from c = []"
  shows "\<exists>s' l1 l2 l3. mux_process M mux c t s = Returned None s' \<and>
     app_world s' = app_world s \<and> app_logs s' = app_logs s @ [l1, l2, l3] \<and>
     map le_msg [l1, l2, l3] = [''asynq task started'', ''example task executed'', ''asynq task finished''] \<and>
     map_of (le_fields l2) ''name'' = Some (FStr (to_valid_utf8 name)) \<and>
     map le_trace [l1, l2, l3] = replicate 3
       (if trim_space trace_id = [] then new_trace_id [''asynq'', tm_task_id (task_meta_from_context A c)]
        else trim_space (to_valid_utf8 (trim_space trace_id)))"
proof -
  obtain c' flds where eq: "task_log_context c t (task_meta_from_context A c) = (c', flds)" by fastforce
  define d' where "d' = (case d of None \<Rightarrow> \<lparr>dep_db = None, dep_cache = None, dep_rdb = None, dep_queue = None\<rparr>
                   | Some d \<Rightarrow> d)"
  have t: "task_type t = type_example_task"
      "trace_id_from_payload (task_payload t) = to_valid_utf8 (trim_space trace_id)"
      "unmarshal_payload (task_payload t) =
         (\<lparr>pl_name = to_valid_utf8 name, pl_trace_id = to_valid_utf8 (trim_space trace_id)\<rparr>, True)"
    using assms(3) by (auto simp: new_example_task_eq unmarshal_payload_fields trace_id_from_payload_fields)
  have mux: "mux_process M mux c t = trace_middleware A (handle_example_task (Some d')) c t"
    using assms(1) [unfolded mux_ok_def, rule_format, OF t(1)] assms(2)
    by (auto simp: register_handlers_def register_trace_middleware_def d'_def Let_def)
  have tr: "trace_id_from (Some c') = 
       (if trim_space trace_id = [] then new_trace_id [''asynq'', tm_task_id (task_meta_from_context A c)]
        else trim_space (to_valid_utf8 (trim_space trace_id)))"
    using task_log_context_trace [OF eq] assms(4) t(2) by simp
  show ?thesis
    by (simp add: mux trace_middleware_def trace_middleware_with_def eq handle_example_task_def t ctx_log_def tr
        numeral_3_eq_3)
qed

text \<open>
  The trace of a request reaches the worker: on a mux set up by \<open>RegisterHandlers\<close>, a task made
  by \<open>NewExampleTask\<close> for a name and a trace id runs to success and logs exactly three entries,
  started, executed (with the name) and finished, all under the trace id of the request, or, when
  the request had none, under one made of the id asynq gave the task.
\<close>

theorem worker_traces_task:
  assumes "mux_ok M fresh" and "register_handlers M A d (Some fresh) = Some mux"
    and "new_example_task name [trace_id] = Inr t" and "trace_id_from c = []"
  shows "\<exists>s' l1 l2 l3. mux_process M mux c t s = Returned None s' \<and>
     app_world s' = app_world s \<and> app_logs s' = app_logs s @ [l1, l2, l3] \<and>
     map le_msg [l1, l2, l3] = [''asynq task started'', ''example task executed'', ''asynq task finished''] \<and>
     map_of (le_fields l2) ''name'' = Some (FStr (to_valid_utf8 name)) \<and>
     map le_trace [l1, l2, l3] = replicate 3
       (if trim_space trace_id = [] then new_trace_id [''asynq'', tm_task_id (task_meta_from_context A c)]
        else trim_space (to_valid_utf8 (trim_space trace_id)))"
  by (rule example_task_run [OF assms])

text \<open>A mux with the longest matching pattern reduced to equality, and getters of a fixed context.\<close>

type_synonym sample_handler = "(unit, unit) task_handler"

definition sample_mux_ops :: "((sample_handler \<Rightarrow> sample_handler) list \<times> (string \<times> sample_handler) list, unit, unit) mux_ops" where
  "sample_mux_ops =
     \<lparr>mux_use = (\<lambda>mw (ms, hs). (ms @ [mw], hs)), mux_handle_func = (\<lambda>p h (ms, hs). (ms, hs @ [(p, h)])),
      mux_process = (\<lambda>(ms, hs) c t.
        case map_of hs (task_type t) of
          None \<Rightarrow> (\<lambda>s. Returned (Some (Foreign ''handler not found'')) s)
        | Some h \<Rightarrow> foldr (\<lambda>mw h. mw h) ms h c t)\<rparr>"

definition sample_getters :: "unit asynq_getters" where
  "sample_getters = \<lparr>get_task_id = (\<lambda>c. Some ''7''), get_queue_name = (\<lambda>c. Some ''default''), get_retry_count = (\<lambda>c. None)\<rparr>"

theorem worker_traces_task_witness:
  "\<exists>mux t s'. register_handlers sample_mux_ops sample_getters (None :: (unit, unit, unit, unit) deps option) (Some ([], [])) = Some mux \<and>
     new_example_task ''demo'' ['' r-1 ''] = Inr t \<and>
     mux_process sample_mux_ops mux (Some background) t \<lparr>app_world = (), app_logs = []\<rparr> = Returned None s' \<and>
     map le_trace (app_logs s') = replicate 3 ''r-1''"
proof -
  have ok: "mux_ok sample_mux_ops ([], [])" by (simp add: mux_ok_def sample_mux_ops_def)
  have v: "trim_space '' r-1 '' = ''r-1''" "to_valid_utf8 ''r-1'' = ''r-1''" "trim_space ''r-1'' = ''r-1''" by code_simp+
  obtain mux where mux: "register_handlers sample_mux_ops sample_getters (None :: (unit, unit, unit, unit) deps option) (Some ([], [])) = Some mux"
    by (simp add: register_handlers_def register_trace_middleware_def Let_def)
  obtain t where t: "new_example_task ''demo'' ['' r-1 ''] = Inr t" by (simp add: new_example_task_eq)
  from worker_traces_task [OF ok mux t, of "Some background" "\<lparr>app_world = (), app_logs = []\<rparr>"] mux t v
  show ?thesis by fastforce
qed

end
