(* ===== verification/Bootstrap.thy ===== *)
theory Bootstrap
  imports Config Infra Auth Worker
begin

text \<open>
  \<open>internal/bootstrap\<close>: the registry of the resources a process shares, how each process fills it
  from its configuration, and how it is closed.
\<close>

text \<open>The asynq client: \<open>NewClient\<close>, \<open>Close\<close> and \<open>EnqueueContext\<close>.\<close>

record ('q, 'db, 'i, 'w) asynq_lib =
  aq_new :: "redis_opt \<Rightarrow> 'w \<Rightarrow> 'q \<times> 'w"
  aq_close :: "'q \<Rightarrow> 'w \<Rightarrow> go_error option \<times> 'w"
  aq_enqueue :: "('q, 'db, 'i, 'w) enqueue_fn"

record ('db, 'k, 'q) registry =
  reg_cfg :: "config option"
  reg_db :: "'db db_manager option"
  reg_cache :: "'k cache_client option"
  reg_auth :: "jwt_manager option"
  reg_queue :: "'q queue option"
  reg_queue_client :: "'q option"

section \<open>Initialising (registry.go, api.go, worker.go)\<close>

definition postgres_database_config :: "config \<Rightarrow> database_config" where
  "postgres_database_config cfg =
     (let pg = cfg_postgres cfg in
      \<lparr>dc_dsn = pg_dsn pg, dc_log_level = pg_log_level pg, dc_max_idle_conns = pg_max_idle_conns pg,
       dc_max_open_conns = pg_max_open_conns pg, dc_conn_max_lifetime = pg_conn_max_lifetime pg,
       dc_conn_max_idle_time = pg_conn_max_idle_time pg\<rparr>)"

definition init_database ::
    "('db, 'sql, 'w) db_lib \<Rightarrow> config \<Rightarrow> 'w app \<Rightarrow> (go_error + 'db db_manager) \<times> 'w app" where
  "init_database D cfg s = database_init D (postgres_database_config cfg) s"

definition redis_cache_config :: "config \<Rightarrow> cache_config" where
  "redis_cache_config cfg =
     \<lparr>kc_addr = rds_addr (cfg_redis cfg), kc_password = rds_password (cfg_redis cfg), kc_db = rds_cache_db (cfg_redis cfg)\<rparr>"

definition init_cache ::
    "('k, 'db, 'w) redis_lib \<Rightarrow> config \<Rightarrow> 'w app \<Rightarrow> (go_error + 'k cache_client option) \<times> 'w app" where
  "init_cache L cfg s =
     (if trim_space (rds_addr (cfg_redis cfg)) = [] then (Inr None, s)
      else
        (case new_cache_client L (redis_cache_config cfg) s of
           (Inl err, s) \<Rightarrow> (Inl err, s)
         | (Inr c, s) \<Rightarrow> (Inr (Some c), s)))"

definition init_auth :: "config \<Rightarrow> go_error + jwt_manager option" where
  "init_auth cfg =
     (let a = cfg_auth cfg in
      if trim_space (auth_jwt_secret a) = [] then Inr None
      else
        (case new_jwt_manager \<lparr>jc_secret = auth_jwt_secret a, jc_issuer = auth_jwt_issuer a, jc_ttl = auth_jwt_ttl a\<rparr> of
           Inl err \<Rightarrow> Inl err
         | Inr m \<Rightarrow> Inr (Some m)))"

definition new_asynq_client ::
    "('q, 'db, 'i, 'w) asynq_lib \<Rightarrow> config option \<Rightarrow> 'w app \<Rightarrow> 'q option \<times> 'w app" where
  "new_asynq_client Q cfg s =
     (case cfg of
        None \<Rightarrow> (None, s)
      | Some cfg \<Rightarrow>
          let r = cfg_redis cfg in
          if trim_space (rds_addr r) = [] then (None, s)
          else (case call_world (aq_new Q (new_redis_opt (rds_addr r) (rds_password r) (rds_queue_db r))) s of
                  (q, s) \<Rightarrow> (Some q, s)))"

definition init_api ::
    "('db, 'sql, 'w) db_lib \<Rightarrow> ('k, 'db, 'w) redis_lib \<Rightarrow> ('q, 'db, 'i, 'w) asynq_lib \<Rightarrow> config option \<Rightarrow>
     'w app \<Rightarrow> (go_error + ('db, 'k, 'q) registry) \<times> 'w app" where
  "init_api D L Q cfg s =
     (case cfg of
        None \<Rightarrow> (Inl (Plain ''config is nil''), s)
      | Some cfg \<Rightarrow>
          (case init_database D cfg s of
             (Inl err, s) \<Rightarrow> (Inl (wrap ''init database'' err), s)
           | (Inr db_mgr, s) \<Rightarrow>
               if dm_db (Some db_mgr) = None then (Inl (Plain ''postgres dsn is required for api''), s)
               else
                 (case init_cache L cfg s of
                    (Inl err, s) \<Rightarrow> (Inl (wrap ''init cache'' err), s)
                  | (Inr cache, s) \<Rightarrow>
                      (case init_auth cfg of
                         Inl err \<Rightarrow> (Inl (wrap ''init auth'' err), s)
                       | Inr auth \<Rightarrow>
                           (case new_asynq_client Q (Some cfg) s of
                              (client, s) \<Rightarrow>
                                (Inr \<lparr>reg_cfg = Some cfg, reg_db = Some db_mgr, reg_cache = cache, reg_auth = auth,
                                      reg_queue = new_queue client, reg_queue_client = client\<rparr>, s))))))"

definition init_worker ::
    "('db, 'sql, 'w) db_lib \<Rightarrow> ('k, 'db, 'w) redis_lib \<Rightarrow> ('q, 'db, 'i, 'w) asynq_lib \<Rightarrow> config option \<Rightarrow>
     'w app \<Rightarrow> (go_error + ('db, 'k, 'q) registry) \<times> 'w app" where
  "init_worker D L Q cfg s =
     (case cfg of
        None \<Rightarrow> (Inl (Plain ''config is nil''), s)
      | Some cfg \<Rightarrow>
          if trim_space (rds_addr (cfg_redis cfg)) = [] then (Inl (Plain ''redis address is required for worker''), s)
          else
            (case new_cache_client L (redis_cache_config cfg) s of
               (Inl err, s) \<Rightarrow> (Inl (wrap ''init worker cache'' err), s)
             | (Inr cache, s) \<Rightarrow>
                 (case (if trim_space (pg_dsn (cfg_postgres cfg)) \<noteq> []
                        then (case init_database D cfg s of
                                (Inl err, s) \<Rightarrow> (Inl (wrap ''init worker database'' err), s)
                              | (Inr m, s) \<Rightarrow> (Inr (Some m), s))
                        else (Inr None, s)) of
                    (Inl err, s) \<Rightarrow> (Inl err, s)
                  | (Inr db_mgr, s) \<Rightarrow>
                      (case new_asynq_client Q (Some cfg) s of
                         (client, s) \<Rightarrow>
                           (Inr \<lparr>reg_cfg = Some cfg, reg_db = db_mgr, reg_cache = Some cache, reg_auth = None,
                                 reg_queue = new_queue client, reg_queue_client = client\<rparr>, s)))))"

section \<open>Closing (registry.go)\<close>

definition close_step ::
    "string \<Rightarrow> ('w \<Rightarrow> go_error option \<times> 'w) option \<Rightarrow> go_error list \<times> 'w \<Rightarrow> go_error list \<times> 'w" where
  "close_step what closer st =
     (case closer of
        None \<Rightarrow> st
      | Some f \<Rightarrow>
          (case f (snd st) of
             (Some err, w) \<Rightarrow> (fst st @ [wrap what err], w)
           | (None, w) \<Rightarrow> (fst st, w)))"

definition registry_close ::
    "('db, 'sql, 'w) db_lib \<Rightarrow> ('k, 'db, 'w) redis_lib \<Rightarrow> ('q, 'db, 'i, 'w) asynq_lib \<Rightarrow>
     ('db, 'k, 'q) registry option \<Rightarrow> 'w \<Rightarrow> go_error option \<times> 'w" where
  "registry_close D L Q r w =
     (case r of
        None \<Rightarrow> (None, w)
      | Some r \<Rightarrow>
          let st = ([], w);
              st = close_step ''close queue client'' (map_option (aq_close Q) (reg_queue_client r)) st;
              st = close_step ''close cache'' (map_option (\<lambda>c. cache_close L (Some c)) (reg_cache r)) st;
              st = close_step ''close database'' (map_option (\<lambda>m. dm_close D (Some m)) (reg_db r)) st
          in (errors_join (map Some (fst st)), snd st))"

section \<open>The runtime settings (runtime.go)\<close>

text \<open>\<open>set_mode\<close> is \<open>gin.SetMode\<close>, which panics on an unknown mode.\<close>

record ('w, 'l) runtime =
  rt_world :: 'w
  rt_log :: "'l log_state"

definition init_runtime ::
    "(string \<Rightarrow> 'w \<Rightarrow> string + 'w) \<Rightarrow> ('l, 'v) zap \<Rightarrow> config option \<Rightarrow> string list \<Rightarrow>
     ('w, 'l) runtime \<Rightarrow> (go_error option, ('w, 'l) runtime) outcome" where
  "init_runtime set_mode z cfg service s =
     (case cfg of
        None \<Rightarrow> Returned (Some (Plain ''config is nil'')) s
      | Some cfg \<Rightarrow>
          (case set_mode (srv_gin_mode (cfg_server cfg)) (rt_world s) of
             Inl p \<Rightarrow> Panicked p s
           | Inr w \<Rightarrow>
               let s = s\<lparr>rt_world := w\<rparr>;
                   service_name = (case service of [] \<Rightarrow> [] | n # _ \<Rightarrow> n);
                   lc = \<lparr>lc_level = log_level (cfg_log cfg), lc_format = log_format (cfg_log cfg),
                         lc_stacktrace_level = log_stacktrace_level (cfg_log cfg), lc_service = service_name\<rparr>
               in case log_init z lc (rt_log s) of
                    Inl err \<Rightarrow> Returned (Some (wrap ''init logger'' err)) s
                  | Inr (l, st) \<Rightarrow> Returned None (s\<lparr>rt_log := st\<rparr>)))"

section \<open>Lemmas\<close>

lemma new_cache_client_Inr:
  "new_cache_client L cfg s = (Inr c, s') \<Longrightarrow> trim_space (kc_addr cfg) \<noteq> [] \<and> underlying (Some c) \<noteq> None"
  by (auto simp: new_cache_client_def underlying_def split: if_splits prod.splits option.splits)

lemma init_cache_Inr:
  "init_cache L cfg s = (Inr c, s') \<Longrightarrow> (underlying c \<noteq> None) = (trim_space (rds_addr (cfg_redis cfg)) \<noteq> [])"
  by (auto simp: init_cache_def underlying_def split: if_splits prod.splits sum.splits dest!: new_cache_client_Inr)

lemma init_auth_Inr:
  "init_auth cfg = Inr a \<Longrightarrow> (a \<noteq> None) = (trim_space (auth_jwt_secret (cfg_auth cfg)) \<noteq> []) \<and>
     (case a of None \<Rightarrow> True
      | Some m \<Rightarrow> jm_secret m = auth_jwt_secret (cfg_auth cfg) \<and> jm_issuer m = trim_space (auth_jwt_issuer (cfg_auth cfg)) \<and>
                 jm_ttl m = auth_jwt_ttl (cfg_auth cfg))"
  by (auto simp: init_auth_def new_jwt_manager_def Let_def split: if_splits)

lemma init_auth_total: "\<exists>a. init_auth cfg = Inr a"
  by (simp add: init_auth_def new_jwt_manager_def Let_def)

lemma new_asynq_client_some:
  "new_asynq_client Q (Some cfg) s = (q, s') \<Longrightarrow> (q \<noteq> None) = (trim_space (rds_addr (cfg_redis cfg)) \<noteq> [])"
  by (auto simp: new_asynq_client_def Let_def split: if_splits prod.splits)

section \<open>Properties\<close>

text \<open>
  \<open>Close\<close> releases everything: whatever fails, it closes the queue client, then the cache,
  then the database, each if the registry has it; its error joins those of all that failed, each
  named, and is nil when none did. A nil registry closes without effect.
\<close>

theorem registry_close_all:
  "registry_close D L Q (Some r) w =
     (let (e1, w1) = (case reg_queue_client r of None \<Rightarrow> (None, w) | Some q \<Rightarrow> aq_close Q q w);
          (e2, w2) = cache_close L (reg_cache r) w1;
          (e3, w3) = dm_close D (reg_db r) w2
      in (errors_join [map_option (wrap ''close queue client'') e1, map_option (wrap ''close cache'') e2,
                       map_option (wrap ''close database'') e3], w3)) \<and>
   registry_close D L Q None w = (None, w)"
proof -
  have none: "cache_close L None w = (None, w)" "dm_close D None w = (None, w)" for w
    by (simp_all add: cache_close_def underlying_def dm_close_def dm_db_def)
  define a where "a = (case reg_queue_client r of None \<Rightarrow> (None, w) | Some q \<Rightarrow> aq_close Q q w)"
  have 1: "close_step ''close queue client'' (map_option (aq_close Q) (reg_queue_client r)) (es, w) =
      (es @ (case fst a of None \<Rightarrow> [] | Some e \<Rightarrow> [wrap ''close queue client'' e]), snd a)" for es
    by (simp add: close_step_def a_def split: option.split prod.split)
  have 2: "close_step ''close cache'' (map_option (\<lambda>c. cache_close L (Some c)) (reg_cache r)) (es, w) =
      (es @ (case fst (cache_close L (reg_cache r) w) of None \<Rightarrow> [] | Some e \<Rightarrow> [wrap ''close cache'' e]),
       snd (cache_close L (reg_cache r) w))" for es w
    by (cases "reg_cache r") (simp_all add: close_step_def none split: option.split prod.split)
  have 3: "close_step ''close database'' (map_option (\<lambda>m. dm_close D (Some m)) (reg_db r)) (es, w) =
      (es @ (case fst (dm_close D (reg_db r) w) of None \<Rightarrow> [] | Some e \<Rightarrow> [wrap ''close database'' e]),
       snd (dm_close D (reg_db r) w))" for es w
    by (cases "reg_db r") (simp_all add: close_step_def none split: option.split prod.split)
  show ?thesis
    unfolding registry_close_def option.case Let_def 1 2 3 a_def [symmetric]
    by (simp add: errors_join_def split: option.split prod.split)
qed

text \<open>
  What \<open>InitAPI\<close> hands over is consistent: when it succeeds there is a database; there is a
  connected cache and a usable queue exactly when a Redis address is configured, and an
  authenticator exactly when a secret is, with the configured secret, issuer and time to live.
\<close>

theorem init_api_consistent:
  assumes "init_api D L Q (Some cfg) s = (Inr reg, s')"
  shows "reg_cfg reg = Some cfg \<and> dm_db (reg_db reg) \<noteq> None \<and>
    (underlying (reg_cache reg) \<noteq> None) = (trim_space (rds_addr (cfg_redis cfg)) \<noteq> []) \<and>
    available (reg_queue reg) = (trim_space (rds_addr (cfg_redis cfg)) \<noteq> []) \<and>
    (reg_auth reg \<noteq> None) = (trim_space (auth_jwt_secret (cfg_auth cfg)) \<noteq> []) \<and>
    (case reg_auth reg of None \<Rightarrow> True | Some m \<Rightarrow>
       jm_secret m = auth_jwt_secret (cfg_auth cfg) \<and> jm_issuer m = trim_space (auth_jwt_issuer (cfg_auth cfg)) \<and>
       jm_ttl m = auth_jwt_ttl (cfg_auth cfg))"
proof -
  from assms obtain db s1 cache s2 auth client where
      "init_database D cfg s = (Inr db, s1)" "dm_db (Some db) \<noteq> None" "init_cache L cfg s1 = (Inr cache, s2)"
      "init_auth cfg = Inr auth" "new_asynq_client Q (Some cfg) s2 = (client, s')"
      "reg = \<lparr>reg_cfg = Some cfg, reg_db = Some db, reg_cache = cache, reg_auth = auth,
              reg_queue = new_queue client, reg_queue_client = client\<rparr>"
    by (auto simp: init_api_def split: prod.splits sum.splits if_splits)
  then show ?thesis
    using init_cache_Inr [of L cfg s1 cache s2] init_auth_Inr [of cfg auth] new_asynq_client_some [of Q cfg s2 client s']
    by simp
qed

text \<open>
  What \<open>InitWorker\<close> hands over is consistent: it succeeds only with a Redis address, with a
  connected cache and a usable queue; there is a database manager exactly when a DSN is
  configured, and it then holds a connection.
\<close>

theorem init_worker_consistent:
  assumes "init_worker D L Q (Some cfg) s = (Inr reg, s')"
  shows "reg_cfg reg = Some cfg \<and> trim_space (rds_addr (cfg_redis cfg)) \<noteq> [] \<and>
    underlying (reg_cache reg) \<noteq> None \<and> available (reg_queue reg) \<and> reg_auth reg = None \<and>
    (reg_db reg \<noteq> None) = (trim_space (pg_dsn (cfg_postgres cfg)) \<noteq> []) \<and>
    (dm_db (reg_db reg) \<noteq> None) = (trim_space (pg_dsn (cfg_postgres cfg)) \<noteq> [])"
proof -
  from assms obtain cache s1 m s2 client where
      r: "trim_space (rds_addr (cfg_redis cfg)) \<noteq> []" "new_cache_client L (redis_cache_config cfg) s = (Inr cache, s1)"
      "(if trim_space (pg_dsn (cfg_postgres cfg)) \<noteq> []
        then (case init_database D cfg s1 of
                (Inl err, s) \<Rightarrow> (Inl (wrap ''init worker database'' err), s)
              | (Inr m, s) \<Rightarrow> (Inr (Some m), s))
        else (Inr None, s1)) = (Inr m, s2)"
      "new_asynq_client Q (Some cfg) s2 = (client, s')"
      "reg = \<lparr>reg_cfg = Some cfg, reg_db = m, reg_cache = Some cache, reg_auth = None,
              reg_queue = new_queue client, reg_queue_client = client\<rparr>"
    by (auto simp: init_worker_def split: prod.splits sum.splits if_split_asm)
  have "(m \<noteq> None) = (trim_space (pg_dsn (cfg_postgres cfg)) \<noteq> []) \<and>
    (dm_db m \<noteq> None) = (trim_space (pg_dsn (cfg_postgres cfg)) \<noteq> [])"
  proof (cases "trim_space (pg_dsn (cfg_postgres cfg)) = []")
    case True
    then show ?thesis using r(3) by (simp add: dm_db_def)
  next
    case False
    then obtain db where db: "init_database D cfg s1 = (Inr db, s2)" "m = Some db"
      using r(3) by (auto split: prod.splits sum.splits)
    then have "dm_primary db \<noteq> None" using False
      by (auto simp: init_database_def database_init_def postgres_database_config_def Let_def
          split: prod.splits sum.splits option.splits if_splits)
    then show ?thesis using db False by (simp add: dm_db_def)
  qed
  then show ?thesis using r new_cache_client_Inr [OF r(2)] new_asynq_client_some [OF r(4)] by simp
qed

section \<open>Libraries to try the theorems on\<close>

definition open_asynq :: "(nat, nat, unit, nat) asynq_lib" where
  "open_asynq =
     \<lparr>aq_new = (\<lambda>opt w. (w, w + 1)), aq_close = (\<lambda>q w. (None, w - 1)), aq_enqueue = (\<lambda>q ctx t opts w. (Inr (), w))\<rparr>"

definition sample_config :: config where
  "sample_config =
     load [''POSTGRES'' \<mapsto> ''dsn'', ''REDIS_ADDR'' \<mapsto> ''redis:6379'', ''JWT_SECRET'' \<mapsto> ''k1'', ''JWT_ISSUER'' \<mapsto> ''gb'']"

theorem init_api_consistent_witness:
  "\<exists>reg s'. init_api open_db open_redis open_asynq (Some sample_config) \<lparr>app_world = 0, app_logs = []\<rparr> = (Inr reg, s') \<and>
     app_world s' = 3 \<and> available (reg_queue reg) \<and> reg_auth reg \<noteq> None"
proof -
  let ?r = "init_api open_db open_redis open_asynq (Some sample_config) \<lparr>app_world = 0, app_logs = []\<rparr>"
  have "(case fst ?r of Inl e \<Rightarrow> False | Inr reg \<Rightarrow> True) \<and> app_world (snd ?r) = 3" by code_simp
  then obtain reg s' where r: "?r = (Inr reg, s')" "app_world s' = 3"
    by (cases ?r) (auto split: sum.splits)
  have "trim_space (rds_addr (cfg_redis sample_config)) \<noteq> []" "trim_space (auth_jwt_secret (cfg_auth sample_config)) \<noteq> []"
    by code_simp+
  with init_api_consistent [OF r(1)] r show ?thesis by blast
qed

theorem init_worker_consistent_witness:
  "\<exists>reg s'. init_worker open_db open_redis open_asynq (Some sample_config) \<lparr>app_world = 0, app_logs = []\<rparr> = (Inr reg, s') \<and>
     available (reg_queue reg) \<and> dm_db (reg_db reg) \<noteq> None"
proof -
  let ?r = "init_worker open_db open_redis open_asynq (Some sample_config) \<lparr>app_world = 0, app_logs = []\<rparr>"
  have "case fst ?r of Inl e \<Rightarrow> False | Inr reg \<Rightarrow> True" by code_simp
  then obtain reg s' where r: "?r = (Inr reg, s')" by (cases ?r) (auto split: sum.splits)
  have "trim_space (pg_dsn (cfg_postgres sample_config)) \<noteq> []" by code_simp
  with init_worker_consistent [OF r] r show ?thesis by blast
qed

end
