(* ===== verification/Gin.thy ===== *)
theory Gin
  imports Prelude
begin

text \<open>
  The interface of the Gin framework. Gin is third-party code, so it is a parameter of the
  model: a record of the functions of \<open>*gin.Context\<close> the program calls, over an unspecified
  type \<open>'c\<close> of contexts. \<open>'b\<close> is the type of JSON bodies, \<open>'x\<close> that of request contexts
  (\<open>c.Request.Context()\<close>). What the program relies on is the predicate \<open>gin_ok\<close>, which states
  the documented effect of each function on what the others observe.
\<close>

record ('c, 'b, 'x) gin =
  gin_get_header :: "'c \<Rightarrow> string \<Rightarrow> string"
  gin_method :: "'c \<Rightarrow> string"
  gin_path :: "'c \<Rightarrow> string"
  gin_client_ip :: "'c \<Rightarrow> string"
  gin_req_ctx :: "'c \<Rightarrow> 'x"
  gin_with_ctx :: "'x \<Rightarrow> 'c \<Rightarrow> 'c"
  gin_get_string :: "'c \<Rightarrow> string \<Rightarrow> string"
  gin_set :: "string \<Rightarrow> string \<Rightarrow> 'c \<Rightarrow> 'c"
  gin_header :: "string \<Rightarrow> string \<Rightarrow> 'c \<Rightarrow> 'c"
  gin_json :: "int \<Rightarrow> 'b \<Rightarrow> 'c \<Rightarrow> 'c"
  gin_abort_json :: "int \<Rightarrow> 'b \<Rightarrow> 'c \<Rightarrow> 'c"
  gin_abort_status :: "int \<Rightarrow> 'c \<Rightarrow> 'c"
  gin_status :: "'c \<Rightarrow> int"
  gin_resp_header :: "'c \<Rightarrow> string \<Rightarrow> string option"
  gin_bodies :: "'c \<Rightarrow> 'b list"
  gin_aborted :: "'c \<Rightarrow> bool"

text \<open>
  The last three fields only observe: the response headers set so far, the JSON bodies
  written so far and \<open>c.IsAborted()\<close>. They serve to state what a client sees.

  \<open>same_request\<close> says that a call leaves alone what the client sent.
\<close>

definition same_request :: "('c, 'b, 'x) gin \<Rightarrow> 'c \<Rightarrow> 'c \<Rightarrow> bool" where
  "same_request g c c' \<longleftrightarrow>
     gin_get_header g c' = gin_get_header g c \<and> gin_method g c' = gin_method g c \<and>
     gin_path g c' = gin_path g c \<and> gin_client_ip g c' = gin_client_ip g c"

definition gin_request_ok :: "('c, 'b, 'x) gin \<Rightarrow> bool" where
  "gin_request_ok g \<longleftrightarrow>
     (\<forall>c k v. same_request g c (gin_set g k v c)) \<and>
     (\<forall>c k v. same_request g c (gin_header g k v c)) \<and>
     (\<forall>c x. same_request g c (gin_with_ctx g x c)) \<and>
     (\<forall>c s b. same_request g c (gin_json g s b c)) \<and>
     (\<forall>c s b. same_request g c (gin_abort_json g s b c)) \<and>
     (\<forall>c s. same_request g c (gin_abort_status g s c))"

text \<open>Keys: \<open>Set\<close> stores a value that \<open>GetString\<close> returns; nothing else changes the keys.\<close>

definition gin_keys_ok :: "('c, 'b, 'x) gin \<Rightarrow> bool" where
  "gin_keys_ok g \<longleftrightarrow>
     (\<forall>c k v. gin_get_string g (gin_set g k v c) = (gin_get_string g c)(k := v)) \<and>
     (\<forall>c k v. gin_get_string g (gin_header g k v c) = gin_get_string g c) \<and>
     (\<forall>c x. gin_get_string g (gin_with_ctx g x c) = gin_get_string g c) \<and>
     (\<forall>c s b. gin_get_string g (gin_json g s b c) = gin_get_string g c) \<and>
     (\<forall>c s b. gin_get_string g (gin_abort_json g s b c) = gin_get_string g c) \<and>
     (\<forall>c s. gin_get_string g (gin_abort_status g s c) = gin_get_string g c)"

text \<open>The request context is the one installed last.\<close>

definition gin_ctx_ok :: "('c, 'b, 'x) gin \<Rightarrow> bool" where
  "gin_ctx_ok g \<longleftrightarrow>
     (\<forall>c x. gin_req_ctx g (gin_with_ctx g x c) = x) \<and>
     (\<forall>c k v. gin_req_ctx g (gin_set g k v c) = gin_req_ctx g c) \<and>
     (\<forall>c k v. gin_req_ctx g (gin_header g k v c) = gin_req_ctx g c) \<and>
     (\<forall>c s b. gin_req_ctx g (gin_json g s b c) = gin_req_ctx g c) \<and>
     (\<forall>c s b. gin_req_ctx g (gin_abort_json g s b c) = gin_req_ctx g c) \<and>
     (\<forall>c s. gin_req_ctx g (gin_abort_status g s c) = gin_req_ctx g c)"

text \<open>
  Response headers, whose names do not depend on case: \<open>Header\<close> sets one (the program never
  passes the empty value, which would delete it). The JSON functions set the content type only.
\<close>

definition gin_headers_ok :: "('c, 'b, 'x) gin \<Rightarrow> bool" where
  "gin_headers_ok g \<longleftrightarrow>
     (\<forall>c k v k'. v \<noteq> [] \<longrightarrow> gin_resp_header g (gin_header g k v c) k' =
        (if to_lower k' = to_lower k then Some v else gin_resp_header g c k')) \<and>
     (\<forall>c k v. gin_resp_header g (gin_set g k v c) = gin_resp_header g c) \<and>
     (\<forall>c x. gin_resp_header g (gin_with_ctx g x c) = gin_resp_header g c) \<and>
     (\<forall>c s b k. to_lower k \<noteq> ''content-type'' \<longrightarrow>
        gin_resp_header g (gin_json g s b c) k = gin_resp_header g c k) \<and>
     (\<forall>c s b k. to_lower k \<noteq> ''content-type'' \<longrightarrow>
        gin_resp_header g (gin_abort_json g s b c) k = gin_resp_header g c k) \<and>
     (\<forall>c s k. gin_resp_header g (gin_abort_status g s c) k = gin_resp_header g c k)"

text \<open>
  Bodies, status and abortion: the JSON functions append a body; the first one of a response
  fixes its status (later calls only warn), which is why the status is stated for a context
  without a body. Only the \<open>Abort\<close> functions abort.
\<close>

definition gin_write_ok :: "('c, 'b, 'x) gin \<Rightarrow> bool" where
  "gin_write_ok g \<longleftrightarrow>
     (\<forall>c s b. gin_bodies g (gin_json g s b c) = gin_bodies g c @ [b]) \<and>
     (\<forall>c s b. gin_bodies g (gin_abort_json g s b c) = gin_bodies g c @ [b]) \<and>
     (\<forall>c s. gin_bodies g (gin_abort_status g s c) = gin_bodies g c) \<and>
     (\<forall>c k v. gin_bodies g (gin_set g k v c) = gin_bodies g c) \<and>
     (\<forall>c k v. gin_bodies g (gin_header g k v c) = gin_bodies g c) \<and>
     (\<forall>c x. gin_bodies g (gin_with_ctx g x c) = gin_bodies g c) \<and>
     (\<forall>c s b. gin_bodies g c = [] \<longrightarrow> gin_status g (gin_json g s b c) = s) \<and>
     (\<forall>c s b. gin_bodies g c = [] \<longrightarrow> gin_status g (gin_abort_json g s b c) = s) \<and>
     (\<forall>c s. gin_bodies g c = [] \<longrightarrow> gin_status g (gin_abort_status g s c) = s) \<and>
     (\<forall>c k v. gin_status g (gin_set g k v c) = gin_status g c) \<and>
     (\<forall>c k v. gin_status g (gin_header g k v c) = gin_status g c) \<and>
     (\<forall>c x. gin_status g (gin_with_ctx g x c) = gin_status g c) \<and>
     (\<forall>c s b. gin_aborted g (gin_json g s b c) = gin_aborted g c) \<and>
     (\<forall>c s b. gin_aborted g (gin_abort_json g s b c)) \<and>
     (\<forall>c s. gin_aborted g (gin_abort_status g s c)) \<and>
     (\<forall>c k v. gin_aborted g (gin_set g k v c) = gin_aborted g c) \<and>
     (\<forall>c k v. gin_aborted g (gin_header g k v c) = gin_aborted g c) \<and>
     (\<forall>c x. gin_aborted g (gin_with_ctx g x c) = gin_aborted g c)"

definition gin_ok :: "('c, 'b, 'x) gin \<Rightarrow> bool" where
  "gin_ok g \<longleftrightarrow>
     gin_request_ok g \<and> gin_keys_ok g \<and> gin_ctx_ok g \<and> gin_headers_ok g \<and> gin_write_ok g"

text \<open>The laws as conditional rewrite rules, one bundle for the proofs of the HTTP shell.\<close>

lemma gin_keys:
  assumes "gin_ok g"
  shows "gin_get_string g (gin_set g k v c) = (gin_get_string g c)(k := v)"
    "gin_get_string g (gin_header g k v c) = gin_get_string g c"
    "gin_get_string g (gin_with_ctx g x c) = gin_get_string g c"
    "gin_get_string g (gin_json g s b c) = gin_get_string g c"
    "gin_get_string g (gin_abort_json g s b c) = gin_get_string g c"
    "gin_get_string g (gin_abort_status g s c) = gin_get_string g c"
  using assms by (simp_all add: gin_ok_def gin_keys_ok_def)

lemma gin_ctx:
  assumes "gin_ok g"
  shows "gin_req_ctx g (gin_with_ctx g x c) = x"
    "gin_req_ctx g (gin_set g k v c) = gin_req_ctx g c"
    "gin_req_ctx g (gin_header g k v c) = gin_req_ctx g c"
    "gin_req_ctx g (gin_json g s b c) = gin_req_ctx g c"
    "gin_req_ctx g (gin_abort_json g s b c) = gin_req_ctx g c"
    "gin_req_ctx g (gin_abort_status g s c) = gin_req_ctx g c"
  using assms by (simp_all add: gin_ok_def gin_ctx_ok_def)

lemma gin_headers:
  assumes "gin_ok g"
  shows "v \<noteq> [] \<Longrightarrow> gin_resp_header g (gin_header g k v c) k' =
      (if to_lower k' = to_lower k then Some v else gin_resp_header g c k')"
    "gin_resp_header g (gin_set g k v c) = gin_resp_header g c"
    "gin_resp_header g (gin_with_ctx g x c) = gin_resp_header g c"
    "to_lower k \<noteq> ''content-type'' \<Longrightarrow> gin_resp_header g (gin_json g s b c) k = gin_resp_header g c k"
    "to_lower k \<noteq> ''content-type'' \<Longrightarrow> gin_resp_header g (gin_abort_json g s b c) k = gin_resp_header g c k"
    "gin_resp_header g (gin_abort_status g s c) k = gin_resp_header g c k"
  using assms by (simp_all add: gin_ok_def gin_headers_ok_def)

lemma gin_bodies:
  assumes "gin_ok g"
  shows "gin_bodies g (gin_json g s b c) = gin_bodies g c @ [b]"
    "gin_bodies g (gin_abort_json g s b c) = gin_bodies g c @ [b]"
    "gin_bodies g (gin_abort_status g s c) = gin_bodies g c"
    "gin_bodies g (gin_set g k v c) = gin_bodies g c"
    "gin_bodies g (gin_header g k v c) = gin_bodies g c"
    "gin_bodies g (gin_with_ctx g x c) = gin_bodies g c"
  using assms by (simp_all add: gin_ok_def gin_write_ok_def)

lemma gin_statuses:
  assumes "gin_ok g"
  shows "gin_bodies g c = [] \<Longrightarrow> gin_status g (gin_json g s b c) = s"
    "gin_bodies g c = [] \<Longrightarrow> gin_status g (gin_abort_json g s b c) = s"
    "gin_bodies g c = [] \<Longrightarrow> gin_status g (gin_abort_status g s c) = s"
    "gin_status g (gin_set g k v c) = gin_status g c"
    "gin_status g (gin_header g k v c) = gin_status g c"
    "gin_status g (gin_with_ctx g x c) = gin_status g c"
  using assms by (simp_all add: gin_ok_def gin_write_ok_def)

lemma gin_aborts:
  assumes "gin_ok g"
  shows "gin_aborted g (gin_json g s b c) = gin_aborted g c"
    "gin_aborted g (gin_abort_json g s b c)"
    "gin_aborted g (gin_abort_status g s c)"
    "gin_aborted g (gin_set g k v c) = gin_aborted g c"
    "gin_aborted g (gin_header g k v c) = gin_aborted g c"
    "gin_aborted g (gin_with_ctx g x c) = gin_aborted g c"
  using assms by (simp_all add: gin_ok_def gin_write_ok_def)

lemma same_request_refl [simp]: "same_request g c c"
  by (simp add: same_request_def)

lemma same_request_trans: "same_request g a b \<Longrightarrow> same_request g b c \<Longrightarrow> same_request g a c"
  by (simp add: same_request_def)

lemma gin_request:
  assumes "gin_ok g"
  shows "gin_get_header g (gin_set g k v c) = gin_get_header g c"
    "gin_get_header g (gin_header g k v c) = gin_get_header g c"
    "gin_get_header g (gin_with_ctx g x c) = gin_get_header g c"
    "gin_method g (gin_set g k v c) = gin_method g c"
    "gin_method g (gin_header g k v c) = gin_method g c"
    "gin_method g (gin_with_ctx g x c) = gin_method g c"
    "gin_path g (gin_set g k v c) = gin_path g c"
    "gin_path g (gin_header g k v c) = gin_path g c"
    "gin_path g (gin_with_ctx g x c) = gin_path g c"
    "gin_client_ip g (gin_set g k v c) = gin_client_ip g c"
    "gin_client_ip g (gin_header g k v c) = gin_client_ip g c"
    "gin_client_ip g (gin_with_ctx g x c) = gin_client_ip g c"
    "gin_get_header g (gin_json g st b c) = gin_get_header g c"
    "gin_get_header g (gin_abort_json g st b c) = gin_get_header g c"
    "gin_get_header g (gin_abort_status g st c) = gin_get_header g c"
    "gin_method g (gin_json g st b c) = gin_method g c"
    "gin_method g (gin_abort_json g st b c) = gin_method g c"
    "gin_method g (gin_abort_status g st c) = gin_method g c"
    "gin_path g (gin_json g st b c) = gin_path g c"
    "gin_path g (gin_abort_json g st b c) = gin_path g c"
    "gin_path g (gin_abort_status g st c) = gin_path g c"
    "gin_client_ip g (gin_json g st b c) = gin_client_ip g c"
    "gin_client_ip g (gin_abort_json g st b c) = gin_client_ip g c"
    "gin_client_ip g (gin_abort_status g st c) = gin_client_ip g c"
  using assms by (simp_all add: gin_ok_def gin_request_ok_def same_request_def)

lemmas gin_laws [simp] =
  gin_keys gin_ctx gin_headers gin_bodies gin_statuses gin_aborts gin_request

section \<open>An instance\<close>

text \<open>
  A context that keeps what the laws mention. It shows that the laws can hold, and is the
  instance on which the properties of the HTTP shell are exercised.
\<close>

record ('b, 'x) sample_ctx =
  sc_method :: string
  sc_path :: string
  sc_ip :: string
  sc_headers :: "(string \<times> string) list"
  sc_req_ctx :: 'x
  sc_keys :: "string \<Rightarrow> string"
  sc_resp_headers :: "string \<rightharpoonup> string"
  sc_bodies :: "'b list"
  sc_status :: int
  sc_aborted :: bool

definition sample_write :: "int \<Rightarrow> 'b \<Rightarrow> ('b, 'x) sample_ctx \<Rightarrow> ('b, 'x) sample_ctx" where
  "sample_write s b c =
     c\<lparr>sc_bodies := sc_bodies c @ [b], sc_status := (if sc_bodies c = [] then s else sc_status c)\<rparr>"

definition sample_gin :: "(('b, 'x) sample_ctx, 'b, 'x) gin" where
  "sample_gin =
     \<lparr>gin_get_header = (\<lambda>c k. case map_of (sc_headers c) k of None \<Rightarrow> [] | Some v \<Rightarrow> v),
      gin_method = sc_method, gin_path = sc_path, gin_client_ip = sc_ip,
      gin_req_ctx = sc_req_ctx,
      gin_with_ctx = (\<lambda>x c. c\<lparr>sc_req_ctx := x\<rparr>),
      gin_get_string = sc_keys,
      gin_set = (\<lambda>k v c. c\<lparr>sc_keys := (sc_keys c)(k := v)\<rparr>),
      gin_header = (\<lambda>k v c. c\<lparr>sc_resp_headers := (sc_resp_headers c)(to_lower k \<mapsto> v)\<rparr>),
      gin_json = sample_write,
      gin_abort_json = (\<lambda>s b c. sample_write s b (c\<lparr>sc_aborted := True\<rparr>)),
      gin_abort_status =
        (\<lambda>s c. c\<lparr>sc_aborted := True, sc_status := (if sc_bodies c = [] then s else sc_status c)\<rparr>),
      gin_status = sc_status, gin_resp_header = (\<lambda>c k. sc_resp_headers c (to_lower k)),
      gin_bodies = sc_bodies, gin_aborted = sc_aborted\<rparr>"

lemma sample_gin_ok: "gin_ok sample_gin"
  by (simp add: gin_ok_def gin_request_ok_def gin_keys_ok_def gin_ctx_ok_def gin_headers_ok_def
      gin_write_ok_def same_request_def sample_gin_def sample_write_def)

definition sample_request :: "string \<Rightarrow> string \<Rightarrow> (string \<times> string) list \<Rightarrow> 'x \<Rightarrow> ('b, 'x) sample_ctx" where
  "sample_request method path headers x =
     \<lparr>sc_method = method, sc_path = path, sc_ip = ''10.0.0.1'', sc_headers = headers,
      sc_req_ctx = x, sc_keys = (\<lambda>_. []), sc_resp_headers = Map.empty, sc_bodies = [],
      sc_status = 200, sc_aborted = False\<rparr>"

end
