(* ===== verification/Response.thy ===== *)
theory Response
  imports Errcode Gin
begin

text \<open>
  \<open>pkg/response\<close>: the API envelope and the functions that write it. \<open>'d\<close> is the type of the
  payloads. Empty \<open>reason\<close>, nil \<open>data\<close> and nil \<open>metadata\<close> are the fields the JSON tags omit.
\<close>

record 'd response =
  rsp_code :: int
  rsp_message :: string
  rsp_reason :: string
  rsp_data :: "'d option"
  rsp_metadata :: "(string \<times> string) list"

text \<open>The two shapes of JSON body the program writes: the envelope, and the health report.\<close>

datatype 'd body =
    Envelope "'d response"
  | HealthReport string "string \<rightharpoonup> string"

definition success_response :: "'d \<Rightarrow> 'd response" where
  "success_response data =
     \<lparr>rsp_code = 0, rsp_message = ''success'', rsp_reason = [], rsp_data = Some data, rsp_metadata = []\<rparr>"

definition message_for :: "string \<Rightarrow> string" where
  "message_for reason =
     (if reason = ''INVALID_PARAMS'' then ''invalid request parameters''
      else if reason = ''UNAUTHORIZED'' then ''unauthorized''
      else if reason = ''PERMISSION_DENIED'' then ''permission denied''
      else if reason = ''TOO_MANY_REQUESTS'' then ''too many requests''
      else if reason = ''REQUEST_TIMEOUT'' then ''request timeout''
      else if reason = ''DATABASE_ERROR'' then ''database error''
      else if reason = ''QUEUE_UNAVAILABLE'' then ''queue unavailable''
      else if reason = ''QUEUE_ERROR'' then ''queue error''
      else ''operation failed'')"

definition build_metadata :: "('c, 'b, 'x) gin \<Rightarrow> 'c \<Rightarrow> (string \<times> string) list" where
  "build_metadata g c =
     (let trace_id = gin_get_string g c ''trace_id'' in
      if trace_id \<noteq> [] then [(''trace_id'', trace_id)] else [])"

definition error_response :: "('c, 'b, 'x) gin \<Rightarrow> 'c \<Rightarrow> errcode \<Rightarrow> 'd response" where
  "error_response g c error_code =
     (let reason = reason_of error_code in
      \<lparr>rsp_code = code_of error_code, rsp_message = message_for reason, rsp_reason = reason,
       rsp_data = None, rsp_metadata = build_metadata g c\<rparr>)"

definition build_validation_error_response :: "('c, 'b, 'x) gin \<Rightarrow> 'c \<Rightarrow> go_error \<Rightarrow> 'd response" where
  "build_validation_error_response g c err =
     (let msg = (case err of
                   Validation errs text \<Rightarrow> handle_validator_error errs
                 | _ \<Rightarrow> error_text err) in
      \<lparr>rsp_code = code_of InvalidParams, rsp_message = msg, rsp_reason = reason_of InvalidParams,
       rsp_data = None, rsp_metadata = build_metadata g c\<rparr>)"

definition write_success :: "('c, 'd body, 'x) gin \<Rightarrow> 'd \<Rightarrow> 'c \<Rightarrow> 'c" where
  "write_success g data c = gin_json g 200 (Envelope (success_response data)) c"

definition write_error :: "('c, 'd body, 'x) gin \<Rightarrow> go_error \<Rightarrow> 'c \<Rightarrow> 'c" where
  "write_error g err c =
     (case as_errcode err of
        Some ec \<Rightarrow> gin_json g 200 (Envelope (error_response g c ec)) c
      | None \<Rightarrow> gin_json g 200 (Envelope (error_response g c InternalError)) c)"

definition write_validation_error :: "('c, 'd body, 'x) gin \<Rightarrow> go_error \<Rightarrow> 'c \<Rightarrow> 'c" where
  "write_validation_error g err c =
     gin_json g 200 (Envelope (build_validation_error_response g c err)) c"

section \<open>Lemmas\<close>

lemmas response_defs =
  success_response_def error_response_def build_validation_error_response_def
  write_success_def write_error_def write_validation_error_def

text \<open>The envelope \<open>WriteError\<close> writes, in one equation.\<close>

definition errcode_for :: "go_error \<Rightarrow> errcode" where
  "errcode_for err = (case as_errcode err of Some ec \<Rightarrow> ec | None \<Rightarrow> InternalError)"

lemma write_error_eq:
  "write_error g err c = gin_json g 200 (Envelope (error_response g c (errcode_for err))) c"
  by (simp add: write_error_def errcode_for_def split: option.splits)

lemma errcode_for_simps [simp]:
  "errcode_for (Coded e) = e"
  "errcode_for (wrap m err) = errcode_for err"
  by (simp_all add: errcode_for_def)

lemma rsp_code_error_response [simp]: "rsp_code (error_response g c e) = code_of e"
  by (simp add: error_response_def Let_def)

lemma rsp_metadata_simps [simp]:
  "rsp_metadata (error_response g c e) = build_metadata g c"
  "rsp_metadata (build_validation_error_response g c err) = build_metadata g c"
  "rsp_metadata (success_response d) = []"
  by (simp_all add: response_defs Let_def)

lemma build_metadata_set: "t \<noteq> [] \<Longrightarrow> gin_get_string g c ''trace_id'' = t \<Longrightarrow>
    build_metadata g c = [(''trace_id'', t)]"
  by (auto simp: build_metadata_def)

section \<open>Properties\<close>

text \<open>
  \<open>WriteError\<close> answers HTTP 200 with exactly one envelope: the code, reason and message of
  the \<open>errcode.Error\<close> that \<open>errors.As\<close> finds, wrapped any number of times, and
  \<open>INTERNAL_ERROR\<close> when there is none; no data, and the trace id of the request as metadata.
\<close>

theorem write_error_envelope:
  assumes "gin_ok g" and "gin_bodies g c = []"
  shows "gin_status g (write_error g err c) = 200 \<and>
         gin_bodies g (write_error g err c) =
           [Envelope \<lparr>rsp_code = code_of (errcode_for err),
                      rsp_message = message_for (reason_of (errcode_for err)),
                      rsp_reason = reason_of (errcode_for err), rsp_data = None,
                      rsp_metadata = (if gin_get_string g c ''trace_id'' = [] then []
                                      else [(''trace_id'', gin_get_string g c ''trace_id'')])\<rparr>] \<and>
         (as_errcode err = None \<longrightarrow> errcode_for err = InternalError) \<and>
         (\<forall>ec. as_errcode err = Some ec \<longrightarrow> errcode_for err = ec)"
  using assms
  by (simp add: write_error_eq error_response_def build_metadata_def errcode_for_def Let_def)

theorem write_error_envelope_witness:
  "gin_bodies sample_gin
     (write_error sample_gin (wrap ''create'' (wrap ''insert'' (Coded DatabaseError)))
        (gin_set sample_gin ''trace_id'' ''t-1'' (sample_request ''GET'' ''/'' [] ()))) =
     [Envelope (\<lparr>rsp_code = 9002, rsp_message = ''database error'', rsp_reason = ''DATABASE_ERROR'',
                rsp_data = None, rsp_metadata = [(''trace_id'', ''t-1'')]\<rparr> :: string response)]"
proof -
  let ?c = "gin_set sample_gin ''trace_id'' ''t-1'' (sample_request ''GET'' ''/'' [] ())
              :: (string body, unit) sample_ctx"
  have "gin_bodies sample_gin ?c = []" "gin_get_string sample_gin ?c ''trace_id'' = ''t-1''"
    by (simp_all add: sample_gin_def sample_request_def)
  with write_error_envelope [OF sample_gin_ok, of ?c "wrap ''create'' (wrap ''insert'' (Coded DatabaseError))"]
  show ?thesis by (simp add: errcode_defs message_for_def)
qed

text \<open>
  A client can rely on the code alone: the success envelope has code 0 and carries data,
  while the envelope of every error defined by \<open>internal/errcode\<close>, and that of a validation
  error, has a code that is not 0 and no data.
\<close>

theorem code_zero_iff_success:
  fixes d :: 'd and error_env validation_env :: "'d response"
  assumes "e \<in> set all_errcodes"
    and "error_env = error_response g c e"
    and "validation_env = build_validation_error_response g c err"
  shows "rsp_code (success_response d) = 0 \<and> rsp_data (success_response d) = Some d \<and>
         rsp_code error_env \<noteq> 0 \<and> rsp_data error_env = None \<and>
         rsp_code validation_env = 1001 \<and> rsp_data validation_env = None"
  using assms
  by (auto simp: all_errcodes_def errcode_defs response_defs Let_def)

theorem code_zero_iff_success_witness:
  "rsp_code (error_response sample_gin
     (sample_request ''GET'' ''/'' [] () :: (unit body, unit) sample_ctx) QueueError :: unit response) \<noteq> 0"
proof -
  have "QueueError \<in> set all_errcodes" by (simp add: all_errcodes_def)
  from code_zero_iff_success [where d = "()" and err = "Plain []" and g = sample_gin
      and c = "sample_request ''GET'' ''/'' [] () :: (unit body, unit) sample_ctx", OF this refl refl]
  show ?thesis by simp
qed

text \<open>
  The success envelope carries no metadata, so no trace id, whatever the request: only the
  envelopes of errors do.
\<close>

theorem success_has_no_metadata:
  "rsp_metadata (success_response d) = [] \<and>
   rsp_metadata (error_response g c e) = build_metadata g c \<and>
   rsp_metadata (build_validation_error_response g c err) = build_metadata g c"
  by simp

end
