(* ===== verification/RateLimit.thy ===== *)
theory RateLimit
  imports GoStd
begin

text \<open>
  The limiter of \<open>internal/middleware/rate_limit.go\<close>: one token bucket per client address, and a
  goroutine that forgets idle addresses. The bucket is \<open>golang.org/x/time/rate\<close>, a parameter:
  \<open>rate_allow now b\<close> is \<open>Allow\<close> at the time it reads the clock.
\<close>

record ('l, 'r) rate_lib =
  rate_every :: "int \<Rightarrow> 'r"
  rate_new :: "'r \<Rightarrow> int \<Rightarrow> 'l"
  rate_allow :: "int \<Rightarrow> 'l \<Rightarrow> bool \<times> 'l"

record 'l visitor =
  v_limiter :: 'l
  v_last_seen :: int

text \<open>The stop channel is only ever closed; \<open>rl_stopped\<close> tells whether it is.\<close>

record ('l, 'r) ip_rate_limiter =
  rl_visitors :: "string \<rightharpoonup> 'l visitor"
  rl_rate :: 'r
  rl_burst :: int
  rl_stopped :: bool

definition new_ip_rate_limiter_per_minute ::
    "('l, 'r) rate_lib \<Rightarrow> int \<Rightarrow> ('l, 'r) ip_rate_limiter option" where
  "new_ip_rate_limiter_per_minute R requests_per_minute =
     (if requests_per_minute \<le> 0 then None
      else Some \<lparr>rl_visitors = Map.empty, rl_rate = rate_every R (minute div requests_per_minute),
                 rl_burst = requests_per_minute, rl_stopped = False\<rparr>)"

text \<open>\<open>allow\<close> reads the clock for \<open>lastSeen\<close> (\<open>now\<close>) and again in the bucket (\<open>now'\<close>).\<close>

definition allow ::
    "('l, 'r) rate_lib \<Rightarrow> string \<Rightarrow> int \<Rightarrow> int \<Rightarrow> ('l, 'r) ip_rate_limiter \<Rightarrow>
     bool \<times> ('l, 'r) ip_rate_limiter" where
  "allow R ip now now' l =
     (let v = (case rl_visitors l ip of
                 None \<Rightarrow> \<lparr>v_limiter = rate_new R (rl_rate l) (rl_burst l), v_last_seen = 0\<rparr>
               | Some v \<Rightarrow> v);
          v = v\<lparr>v_last_seen := now\<rparr>
      in case rate_allow R now' (v_limiter v) of
           (ok, b) \<Rightarrow> (ok, l\<lparr>rl_visitors := (rl_visitors l)(ip \<mapsto> v\<lparr>v_limiter := b\<rparr>)\<rparr>))"

definition cleanup :: "int \<Rightarrow> ('l, 'r) ip_rate_limiter \<Rightarrow> ('l, 'r) ip_rate_limiter" where
  "cleanup cutoff l =
     l\<lparr>rl_visitors := (\<lambda>ip. case rl_visitors l ip of
                            None \<Rightarrow> None
                          | Some v \<Rightarrow> if v_last_seen v < cutoff then None else Some v)\<rparr>"

definition stop :: "('l, 'r) ip_rate_limiter option \<Rightarrow> ('l, 'r) ip_rate_limiter option" where
  "stop l =
     (case l of
        None \<Rightarrow> None
      | Some l \<Rightarrow> if rl_stopped l then Some l else Some (l\<lparr>rl_stopped := True\<rparr>))"

text \<open>
  One turn of \<open>cleanupLoop\<close>: the ticker fires at \<open>now\<close>. What the limiter goes through is a sequence of
  requests and ticks: the lock makes each of them one step, which \<open>LimiterThreads\<close> shows.
\<close>

definition cleanup_tick :: "int \<Rightarrow> ('l, 'r) ip_rate_limiter \<Rightarrow> ('l, 'r) ip_rate_limiter" where
  "cleanup_tick now l = cleanup (now + - 3 * minute) l"

datatype rl_event = Request string int int | Tick int

fun rl_run :: "('l, 'r) rate_lib \<Rightarrow> ('l, 'r) ip_rate_limiter \<Rightarrow> rl_event list \<Rightarrow> (string \<times> bool) list" where
  "rl_run R l [] = []"
| "rl_run R l (Request ip now now' # es) =
     (case allow R ip now now' l of (ok, l') \<Rightarrow> (ip, ok) # rl_run R l' es)"
| "rl_run R l (Tick now # es) = rl_run R (cleanup_tick now l) es"

section \<open>What a bucket promises, and the clock\<close>

text \<open>A bucket asked at some times: the verdicts it gives, and the bucket it has become.\<close>

fun bucket_run :: "('l, 'r) rate_lib \<Rightarrow> 'l \<Rightarrow> int list \<Rightarrow> bool list" where
  "bucket_run R b [] = []"
| "bucket_run R b (t # ts) = (case rate_allow R t b of (ok, b') \<Rightarrow> ok # bucket_run R b' ts)"

fun bucket_after :: "('l, 'r) rate_lib \<Rightarrow> 'l \<Rightarrow> int list \<Rightarrow> 'l" where
  "bucket_after R b [] = b"
| "bucket_after R b (t # ts) = bucket_after R (snd (rate_allow R t b)) ts"

text \<open>
  The package documents a bucket of \<open>n\<close> tokens, full at first and refilled at a rate: at one token every
  \<open>minute div n\<close> it is full again a minute after its last use. So a new bucket that was asked at some
  times \<open>ts\<close>, in their order, gives at any later times \<open>us\<close> that are a minute past all of \<open>ts\<close> the
  verdicts of a bucket that is new. Nothing is said of times that go back, nor of the states of buckets.
\<close>

definition rate_ok :: "('l, 'r) rate_lib \<Rightarrow> int \<Rightarrow> bool" where
  "rate_ok R n \<longleftrightarrow>
     (\<forall>ts us. sorted (ts @ us) \<longrightarrow> (\<forall>t \<in> set ts. \<forall>u \<in> set us. t + minute \<le> u) \<longrightarrow>
        bucket_run R (bucket_after R (rate_new R (rate_every R (minute div n)) n) ts) us =
        bucket_run R (rate_new R (rate_every R (minute div n)) n) us)"

text \<open>
  The clock never runs backwards while the lock is held: a request reads it twice after getting
  the lock, less than two minutes apart; a tick reads it before waiting for the lock.
\<close>

fun clock_ok :: "int \<Rightarrow> rl_event list \<Rightarrow> bool" where
  "clock_ok t0 [] = True"
| "clock_ok t0 (Request ip now now' # es) =
     (t0 \<le> now \<and> now \<le> now' \<and> now' \<le> now + 2 * minute \<and> clock_ok now' es)"
| "clock_ok t0 (Tick now # es) = clock_ok (max t0 now) es"

text \<open>The specification: one address has one bucket, which is asked at the times of its requests.\<close>

fun request_times :: "string \<Rightarrow> rl_event list \<Rightarrow> int list" where
  "request_times ip [] = []"
| "request_times ip (Request ip' now now' # es) =
     (if ip' = ip then now' # request_times ip es else request_times ip es)"
| "request_times ip (Tick now # es) = request_times ip es"

definition verdicts :: "string \<Rightarrow> (string \<times> bool) list \<Rightarrow> bool list" where
  "verdicts ip ds = map snd (filter (\<lambda>d. fst d = ip) ds)"

section \<open>Lemmas\<close>

lemma visitor_update: "v\<lparr>v_last_seen := n, v_limiter := b\<rparr> = \<lparr>v_limiter = b, v_last_seen = n\<rparr>" for v :: "'l visitor"
  by (cases v) simp

lemma allow_simps:
  "allow R ip now now' l =
     (case rl_visitors l ip of
        None \<Rightarrow> (case rate_allow R now' (rate_new R (rl_rate l) (rl_burst l)) of
                   (ok, b) \<Rightarrow> (ok, l\<lparr>rl_visitors := (rl_visitors l)(ip \<mapsto> \<lparr>v_limiter = b, v_last_seen = now\<rparr>)\<rparr>))
      | Some v \<Rightarrow> (case rate_allow R now' (v_limiter v) of
                   (ok, b) \<Rightarrow> (ok, l\<lparr>rl_visitors := (rl_visitors l)(ip \<mapsto> \<lparr>v_limiter = b, v_last_seen = now\<rparr>)\<rparr>)))"
  by (auto simp: allow_def Let_def visitor_update split: option.splits prod.splits)

lemma cleanup_tick_visitor:
  "rl_visitors (cleanup_tick now l) ip =
     (case rl_visitors l ip of None \<Rightarrow> None | Some v \<Rightarrow> if v_last_seen v < now - 3 * minute then None else Some v)"
  by (simp add: cleanup_tick_def cleanup_def split: option.split)

lemma cleanup_tick_config [simp]:
  "rl_rate (cleanup_tick now l) = rl_rate l" "rl_burst (cleanup_tick now l) = rl_burst l"
  by (simp_all add: cleanup_tick_def cleanup_def)

lemma bucket_run_Cons:
  "bucket_run R b (t # ts) = fst (rate_allow R t b) # bucket_run R (snd (rate_allow R t b)) ts"
  by (simp split: prod.split)

lemma bucket_after_snoc [simp]: "bucket_after R b (ts @ [t]) = snd (rate_allow R t (bucket_after R b ts))"
  by (induction R b ts rule: bucket_after.induct) simp_all

text \<open>Two buckets that cannot be told apart from the time \<open>t0\<close> on.\<close>

definition agree :: "('l, 'r) rate_lib \<Rightarrow> int \<Rightarrow> 'l \<Rightarrow> 'l \<Rightarrow> bool" where
  "agree R t0 b c \<longleftrightarrow> (\<forall>us. sorted us \<longrightarrow> (\<forall>u \<in> set us. t0 \<le> u) \<longrightarrow> bucket_run R b us = bucket_run R c us)"

lemma agree_later: "agree R t0 b c \<Longrightarrow> t0 \<le> t1 \<Longrightarrow> agree R t1 b c"
  by (auto simp: agree_def intro: order_trans)

lemma agree_ask:
  assumes "agree R t0 b c" and "t0 \<le> t"
  shows "fst (rate_allow R t b) = fst (rate_allow R t c)" "agree R t (snd (rate_allow R t b)) (snd (rate_allow R t c))"
proof -
  have "bucket_run R b (t # us) = bucket_run R c (t # us)" if "sorted us" "\<forall>u \<in> set us. t \<le> u" for us
    using assms that unfolding agree_def by (elim allE [where x = "t # us"]) (auto intro: order_trans)
  note this [unfolded bucket_run_Cons]
  from this [of "[]"] this show "fst (rate_allow R t b) = fst (rate_allow R t c)"
    "agree R t (snd (rate_allow R t b)) (snd (rate_allow R t c))" by (simp_all add: agree_def)
qed

lemma idle_agrees:
  assumes "rate_ok R n" and "fresh = rate_new R (rate_every R (minute div n)) n"
    and "sorted ts" "\<forall>t \<in> set ts. t \<le> t0" "\<forall>t \<in> set ts. t + minute \<le> t0"
  shows "agree R t0 fresh (bucket_after R fresh ts)"
  unfolding agree_def
proof (intro allI impI)
  fix us :: "int list"
  assume us: "sorted us" "\<forall>u \<in> set us. t0 \<le> u"
  have "sorted (ts @ us)" using assms(3,4) us by (auto simp: sorted_append intro: order_trans)
  moreover have "\<forall>t \<in> set ts. \<forall>u \<in> set us. t + minute \<le> u" using assms(5) us(2) by (auto intro: order_trans)
  ultimately show "bucket_run R fresh us = bucket_run R (bucket_after R fresh ts) us"
    using assms(1) by (simp add: rate_ok_def assms(2))
qed

text \<open>
  What the limiter has for an address at the time \<open>t0\<close>, against the times \<open>ts\<close> at which the address has
  asked: a bucket that agrees with one asked at all of them, or none, and the last was a minute ago.
\<close>

definition tracks :: "('l, 'r) rate_lib \<Rightarrow> int \<Rightarrow> 'l \<Rightarrow> 'l visitor option \<Rightarrow> int list \<Rightarrow> bool" where
  "tracks R t0 fresh v ts \<longleftrightarrow>
     sorted ts \<and> (\<forall>t \<in> set ts. t \<le> t0) \<and>
     (case v of
        None \<Rightarrow> \<forall>t \<in> set ts. t + minute \<le> t0
      | Some v \<Rightarrow> agree R t0 (v_limiter v) (bucket_after R fresh ts) \<and> (\<forall>t \<in> set ts. t \<le> v_last_seen v + 2 * minute))"

lemma tracks_later: "tracks R t0 fresh v ts \<Longrightarrow> t0 \<le> t1 \<Longrightarrow> tracks R t1 fresh v ts"
  by (cases v) (auto simp: tracks_def intro: order_trans agree_later)

lemma tracks_tick:
  assumes "tracks R t0 fresh (rl_visitors l ip) ts"
  shows "tracks R (max t0 now) fresh (rl_visitors (cleanup_tick now l) ip) ts"
proof -
  have later: "tracks R (max t0 now) fresh (rl_visitors l ip) ts" by (rule tracks_later [OF assms]) simp
  show ?thesis
  proof (cases "rl_visitors (cleanup_tick now l) ip = rl_visitors l ip")
    case True
    then show ?thesis using later by simp
  next
    case False
    then obtain v where v: "rl_visitors l ip = Some v" "v_last_seen v < now - 3 * minute"
        "rl_visitors (cleanup_tick now l) ip = None"
      by (auto simp: cleanup_tick_visitor split: option.splits if_splits)
    have "t + minute \<le> max t0 now" if "t \<in> set ts" for t
    proof -
      have "t \<le> v_last_seen v + 2 * minute" using assms that v(1) by (simp add: tracks_def)
      with v(2) show ?thesis by simp
    qed
    then show ?thesis using later v by (simp add: tracks_def)
  qed
qed

text \<open>A request for the address finds a bucket that agrees with the one of the specification.\<close>

lemma tracks_agree:
  assumes "rate_ok R n" and "fresh = rate_new R (rate_every R (minute div n)) n" and "tracks R t0 fresh v ts"
  shows "agree R t0 (case v of None \<Rightarrow> fresh | Some v \<Rightarrow> v_limiter v) (bucket_after R fresh ts)"
  using assms(3) idle_agrees [OF assms(1,2), of ts t0] by (cases v) (simp_all add: tracks_def)

lemma tracks_ask:
  assumes "tracks R t0 fresh v ts" and "agree R t0 b (bucket_after R fresh ts)"
    and "t0 \<le> now'" "now' \<le> now + 2 * minute"
  shows "tracks R now' fresh (Some \<lparr>v_limiter = snd (rate_allow R now' b), v_last_seen = now\<rparr>) (ts @ [now'])"
proof -
  have "\<forall>t \<in> set ts. t \<le> now'" using assms(1,3) by (auto simp: tracks_def)
  then have "\<forall>t \<in> set ts. t \<le> now + 2 * minute" using assms(4) by (auto intro: order_trans)
  with \<open>\<forall>t \<in> set ts. t \<le> now'\<close> show ?thesis
    using assms(1,4) agree_ask(2) [OF assms(2,3)] by (simp add: tracks_def sorted_append)
qed

lemma run_refines_buckets:
  assumes ok: "rate_ok R n" and cfg: "rl_rate l = rate_every R (minute div n)" "rl_burst l = n"
    and fresh: "fresh = rate_new R (rate_every R (minute div n)) n"
    and "clock_ok t0 es" "tracks R t0 fresh (rl_visitors l ip) ts"
  shows "verdicts ip (rl_run R l es) = bucket_run R (bucket_after R fresh ts) (request_times ip es)"
  using assms(5,6) cfg
proof (induction es arbitrary: t0 l ts)
  case Nil
  then show ?case by (simp add: verdicts_def)
next
  case (Cons e es)
  show ?case
  proof (cases e)
    case (Tick now)
    then show ?thesis
      using Cons.IH [of "max t0 now" "cleanup_tick now l" ts] Cons.prems tracks_tick [of R t0 fresh l ip ts now]
      by simp
  next
    case (Request ip' now now')
    obtain v l' where al: "allow R ip' now now' l = (v, l')" by fastforce
    have cfg': "rl_rate l' = rl_rate l" "rl_burst l' = rl_burst l"
      using al by (auto simp: allow_simps split: option.splits prod.splits)
    have t: "t0 \<le> now'" "now' \<le> now + 2 * minute" "clock_ok now' es" using Cons.prems(1) Request by simp_all
    show ?thesis
    proof (cases "ip' = ip")
      case False
      then have "rl_visitors l' ip = rl_visitors l ip"
        using al by (auto simp: allow_simps split: option.splits prod.splits)
      then have "tracks R now' fresh (rl_visitors l' ip) ts"
        using tracks_later [OF Cons.prems(2) t(1)] by simp
      then show ?thesis
        using Cons.IH [of now' l' ts] Cons.prems cfg' Request al False by (simp add: verdicts_def)
    next
      case True
      define b where "b = (case rl_visitors l ip of None \<Rightarrow> fresh | Some v \<Rightarrow> v_limiter v)"
      have b: "agree R t0 b (bucket_after R fresh ts)" unfolding b_def by (rule tracks_agree [OF ok fresh Cons.prems(2)])
      have "v = fst (rate_allow R now' b)" "rl_visitors l' ip = Some \<lparr>v_limiter = snd (rate_allow R now' b), v_last_seen = now\<rparr>"
        using al True Cons.prems(3,4) fresh by (auto simp: allow_simps b_def split: option.splits prod.splits)
      then show ?thesis
        using Cons.IH [of now' l' "ts @ [now']"] tracks_ask [OF Cons.prems(2) b t(1,2)] agree_ask(1) [OF b t(1)]
          Cons.prems(3,4) cfg' Request al True t(3)
        by (simp add: verdicts_def split: prod.splits)
    qed
  qed
qed

section \<open>Stopping\<close>

text \<open>
  \<open>Stop\<close> first looks whether the channel is closed and then closes it, without the lock, so two
  goroutines can be inside it at once: each is outside, has seen the channel open, is done, or
  has panicked, because closing a closed channel panics. With \<open>serial\<close>, a call only begins when
  no other is under way.
\<close>

datatype stop_pc = Outside | SawOpen | Finished | Crashed

record stop_state =
  st_closed :: bool
  st_pc :: "nat \<Rightarrow> stop_pc"

inductive stop_step :: "bool \<Rightarrow> stop_state \<Rightarrow> stop_state \<Rightarrow> bool" for serial :: bool where
  look_open:
    "st_pc s i = Outside \<Longrightarrow> \<not> st_closed s \<Longrightarrow> \<not> (serial \<and> (\<exists>j. st_pc s j = SawOpen)) \<Longrightarrow>
     stop_step serial s (s\<lparr>st_pc := (st_pc s)(i := SawOpen)\<rparr>)"
| look_closed:
    "st_pc s i = Outside \<Longrightarrow> st_closed s \<Longrightarrow> stop_step serial s (s\<lparr>st_pc := (st_pc s)(i := Finished)\<rparr>)"
| close_open:
    "st_pc s i = SawOpen \<Longrightarrow> \<not> st_closed s \<Longrightarrow>
     stop_step serial s \<lparr>st_closed = True, st_pc = (st_pc s)(i := Finished)\<rparr>"
| close_closed:
    "st_pc s i = SawOpen \<Longrightarrow> st_closed s \<Longrightarrow> stop_step serial s (s\<lparr>st_pc := (st_pc s)(i := Crashed)\<rparr>)"

inductive_cases stop_stepE: "stop_step serial s s'"

inductive stop_reach :: "bool \<Rightarrow> stop_state \<Rightarrow> bool" for serial :: bool where
  stop_init: "stop_reach serial \<lparr>st_closed = False, st_pc = (\<lambda>_. Outside)\<rparr>"
| stop_next: "stop_reach serial s \<Longrightarrow> stop_step serial s s' \<Longrightarrow> stop_reach serial s'"

text \<open>One call under way at a time: nobody has seen open what is closed, and nobody crashes.\<close>

definition stop_inv :: "stop_state \<Rightarrow> bool" where
  "stop_inv s \<longleftrightarrow>
     (\<forall>i. st_pc s i \<noteq> Crashed) \<and> (\<forall>i. st_pc s i = SawOpen \<longrightarrow> \<not> st_closed s) \<and>
     (\<forall>i j. st_pc s i = SawOpen \<longrightarrow> st_pc s j = SawOpen \<longrightarrow> i = j)"

lemma stop_step_inv: "stop_step True s s' \<Longrightarrow> stop_inv s \<Longrightarrow> stop_inv s'"
proof (erule stop_stepE, goal_cases)
  case (1 i)
  then show ?case by (simp add: stop_inv_def)
next
  case (2 i)
  then show ?case by (simp add: stop_inv_def)
next
  case (3 i)
  then show ?case by (simp add: stop_inv_def) metis
next
  case (4 i)
  then show ?case by (auto simp: stop_inv_def)
qed

lemma stop_reach_inv: "stop_reach True s \<Longrightarrow> stop_inv s"
proof (induction rule: stop_reach.induct)
  case stop_init
  show ?case by (simp add: stop_inv_def)
qed (rule stop_step_inv)

section \<open>The state after a run\<close>

fun rl_state :: "('l, 'r) rate_lib \<Rightarrow> ('l, 'r) ip_rate_limiter \<Rightarrow> rl_event list \<Rightarrow> ('l, 'r) ip_rate_limiter" where
  "rl_state R l [] = l"
| "rl_state R l (Request ip now now' # es) = rl_state R (snd (allow R ip now now' l)) es"
| "rl_state R l (Tick now # es) = rl_state R (cleanup_tick now l) es"

lemma rl_state_seen:
  "rl_visitors (rl_state R l es) ip = Some v \<Longrightarrow>
   rl_visitors l ip = Some v \<or> (\<exists>now'. Request ip (v_last_seen v) now' \<in> set es)"
proof (induction es arbitrary: l)
  case (Cons e es)
  show ?case
  proof (cases e)
    case (Tick now)
    then show ?thesis using Cons.IH [of "cleanup_tick now l"] Cons.prems
      by (auto simp: cleanup_tick_visitor split: option.splits if_splits)
  next
    case (Request ip' now now')
    have "rl_visitors (snd (allow R ip' now now' l)) ip = Some v \<Longrightarrow>
        rl_visitors l ip = Some v \<or> (ip' = ip \<and> v_last_seen v = now)"
      by (auto simp: allow_simps split: option.splits prod.splits if_splits)
    then show ?thesis using Cons.IH [of "snd (allow R ip' now now' l)"] Cons.prems Request by auto
  qed
qed simp

section \<open>A bucket to try the theorems on\<close>

text \<open>
  A token bucket in whole nanoseconds: \<open>tb_credit\<close> is the time that has been saved up to \<open>tb_last\<close>, at most
  that of a full bucket; a token costs an interval. A refusal leaves the bucket as it is.
\<close>

record token_bucket =
  tb_interval :: int
  tb_burst :: int
  tb_last :: int
  tb_credit :: int

definition tb_advance :: "int \<Rightarrow> token_bucket \<Rightarrow> int" where
  "tb_advance t b = min (tb_burst b * tb_interval b) (tb_credit b + (t - min t (tb_last b)))"

definition tb_allow :: "int \<Rightarrow> token_bucket \<Rightarrow> bool \<times> token_bucket" where
  "tb_allow t b =
     (if tb_interval b \<le> tb_advance t b
      then (True, b\<lparr>tb_last := t, tb_credit := tb_advance t b - tb_interval b\<rparr>) else (False, b))"

definition sample_rate :: "(token_bucket, int) rate_lib" where
  "sample_rate =
     \<lparr>rate_every = (\<lambda>d. d),
      rate_new = (\<lambda>d n. \<lparr>tb_interval = d, tb_burst = n, tb_last = 0, tb_credit = n * d\<rparr>),
      rate_allow = tb_allow\<rparr>"

lemmas sample_rate_simps = sample_rate_def tb_allow_def tb_advance_def

lemma sample_allow [simp]: "rate_allow sample_rate = tb_allow"
  by (simp add: sample_rate_def)

text \<open>Buckets of the same kind that are both full when they are next asked give the same verdicts.\<close>

lemma full_buckets_agree:
  assumes "0 < n" "0 \<le> d" "tb_interval b = d" "tb_burst b = n" "tb_interval c = d" "tb_burst c = n"
    and "\<forall>u \<in> set us. tb_advance u b = n * d \<and> tb_advance u c = n * d"
  shows "bucket_run sample_rate b us = bucket_run sample_rate c us"
proof (cases us)
  case (Cons u us')
  have "1 * d \<le> n * d" using assms(1,2) by (intro mult_right_mono) auto
  then have "tb_allow u b = (True, \<lparr>tb_interval = d, tb_burst = n, tb_last = u, tb_credit = n * d - d\<rparr>)"
      "tb_allow u c = (True, \<lparr>tb_interval = d, tb_burst = n, tb_last = u, tb_credit = n * d - d\<rparr>)"
    using assms(3-7) Cons by (simp_all add: tb_allow_def)
  then show ?thesis using Cons by simp
qed simp

lemma bucket_history:
  "b = bucket_after sample_rate fresh ts \<Longrightarrow> 0 \<le> tb_credit fresh \<Longrightarrow> 0 \<le> tb_interval fresh \<Longrightarrow>
   tb_interval b = tb_interval fresh \<and> tb_burst b = tb_burst fresh \<and> 0 \<le> tb_credit b \<and> (b = fresh \<or> tb_last b \<in> set ts)"
proof (induction ts arbitrary: b rule: rev_induct)
  case (snoc t ts)
  then show ?case using snoc.IH [OF refl snoc.prems(2,3)] by (auto simp: tb_allow_def)
qed simp

lemma sample_rate_ok:
  assumes "0 < n"
  shows "rate_ok sample_rate n"
  unfolding rate_ok_def
proof (intro allI impI)
  fix ts us
  define d where "d = minute div n"
  define fresh where "fresh = rate_new sample_rate (rate_every sample_rate d) n"
  assume idle: "\<forall>t \<in> set ts. \<forall>u \<in> set us. t + minute \<le> u"
  have "n * d = minute - minute mod n" by (simp add: d_def minus_mod_eq_mult_div)
  then have nd: "n * d \<le> minute" using assms by simp
  have d: "0 \<le> d" using assms by (simp add: d_def minute_def second_def pos_imp_zdiv_nonneg_iff)
  have f: "tb_interval fresh = d" "tb_burst fresh = n" "tb_credit fresh = n * d"
    by (simp_all add: fresh_def sample_rate_def)
  define b where "b = bucket_after sample_rate fresh ts"
  have b: "tb_interval b = d" "tb_burst b = n" "0 \<le> tb_credit b" "b = fresh \<or> tb_last b \<in> set ts"
    using bucket_history [OF b_def] assms d by (simp_all add: f)
  have full: "tb_advance u fresh = n * d" for u by (simp add: tb_advance_def f)
  have "tb_advance u b = n * d" if "u \<in> set us" for u
  proof (cases "b = fresh")
    case False
    then have "tb_last b + minute \<le> u" using b(4) idle that by blast
    then show ?thesis using b nd d assms by (simp add: tb_advance_def min_def)
  qed (simp add: full)
  then show "bucket_run sample_rate (bucket_after sample_rate (rate_new sample_rate (rate_every sample_rate (minute div n)) n) ts) us =
      bucket_run sample_rate (rate_new sample_rate (rate_every sample_rate (minute div n)) n) us"
    using full_buckets_agree [OF assms d b(1,2) f(1,2)] full by (simp add: b_def fresh_def d_def)
qed

definition sample_events :: "rl_event list" where
  "sample_events =
     [Request ''a'' second second, Request ''b'' second second, Request ''a'' (2 * second) (2 * second),
      Request ''a'' (3 * second) (3 * second), Tick minute, Tick (5 * minute),
      Request ''a'' (6 * minute) (6 * minute), Request ''b'' (6 * minute) (6 * minute)]"

section \<open>Properties\<close>

text \<open>
  The limiter is exact per address and forgetting is invisible: whatever the requests of all
  addresses and the ticks of the cleanup, the verdicts an address gets are those of one token
  bucket of its own, asked at the times of its own requests, as if no other address and no
  cleanup existed. Under what the rate library promises of a bucket that has been idle for a
  minute and a clock that does not run backwards.
\<close>

theorem limiter_refines_buckets:
  assumes "rate_ok R n" and "new_ip_rate_limiter_per_minute R n = Some l" and "clock_ok t0 es"
  shows "verdicts ip (rl_run R l es) =
         bucket_run R (rate_new R (rate_every R (minute div n)) n) (request_times ip es)"
  using assms(2)
  using run_refines_buckets [OF assms(1) _ _ refl assms(3), of l ip "[]"]
  by (auto simp: new_ip_rate_limiter_per_minute_def tracks_def split: if_splits)

theorem limiter_refines_buckets_witness:
  "\<exists>l. new_ip_rate_limiter_per_minute sample_rate 2 = Some l \<and>
       verdicts ''a'' (rl_run sample_rate l sample_events) = [True, True, False, True] \<and>
       dom (rl_visitors (rl_state sample_rate l (take 6 sample_events))) = {}"
proof -
  define l where "l = the (new_ip_rate_limiter_per_minute sample_rate 2)"
  have l: "new_ip_rate_limiter_per_minute sample_rate 2 = Some l"
    by (simp add: l_def new_ip_rate_limiter_per_minute_def)
  have ck: "clock_ok 0 sample_events" by code_simp
  have "bucket_run sample_rate (rate_new sample_rate (rate_every sample_rate (minute div 2)) 2)
      (request_times ''a'' sample_events) = [True, True, False, True]" by code_simp
  moreover have "rl_visitors (rl_state sample_rate l (take 6 sample_events)) = Map.empty"
    by (rule ext) (simp add: l_def new_ip_rate_limiter_per_minute_def sample_events_def allow_simps cleanup_tick_visitor
        sample_rate_simps Let_def minute_def second_def)
  ultimately show ?thesis
    using limiter_refines_buckets [OF sample_rate_ok l ck, of "''a''"] l by auto
qed

text \<open>
  C29. Memory stays bounded by recent traffic: after a tick of the cleanup at \<open>now\<close>, every address
  the limiter still knows has made a request in the three minutes before.
\<close>

theorem known_addresses_are_recent:
  assumes "new_ip_rate_limiter_per_minute R n = Some l"
    and "rl_visitors (cleanup_tick now (rl_state R l es)) ip \<noteq> None"
  shows "\<exists>seen now'. Request ip seen now' \<in> set es \<and> now - 3 * minute \<le> seen"
proof -
  from assms(2) obtain v where v: "rl_visitors (rl_state R l es) ip = Some v" "now - 3 * minute \<le> v_last_seen v"
    by (auto simp: cleanup_tick_visitor split: option.splits if_splits)
  have "rl_visitors l ip = None" using assms(1) by (auto simp: new_ip_rate_limiter_per_minute_def split: if_splits)
  with rl_state_seen [OF v(1)] v(2) show ?thesis by auto
qed

theorem known_addresses_are_recent_witness:
  "\<exists>l. new_ip_rate_limiter_per_minute sample_rate 2 = Some l \<and>
     (\<exists>seen now'. Request ''b'' seen now' \<in> set sample_events \<and> 8 * minute - 3 * minute \<le> seen)"
proof -
  define l where "l = the (new_ip_rate_limiter_per_minute sample_rate 2)"
  have l: "new_ip_rate_limiter_per_minute sample_rate 2 = Some l"
    by (simp add: l_def new_ip_rate_limiter_per_minute_def)
  have "rl_visitors (cleanup_tick (8 * minute) (rl_state sample_rate l sample_events)) ''b'' \<noteq> None"
    by (simp add: l_def new_ip_rate_limiter_per_minute_def sample_events_def allow_simps cleanup_tick_visitor
        sample_rate_simps Let_def minute_def second_def)
  from known_addresses_are_recent [OF l this] l show ?thesis by blast
qed

text \<open>
  C32. \<open>Stop\<close> is idempotent and safe on a nil limiter when its calls follow one another: however
  many goroutines call it, none crashes as long as no two calls overlap.
\<close>

theorem stop_serial_safe:
  assumes "stop_reach True s"
  shows "st_pc s i \<noteq> Crashed \<and> stop (stop l) = stop l \<and> stop (None :: ('l, 'r) ip_rate_limiter option) = None"
  using stop_reach_inv [OF assms] by (auto simp: stop_inv_def stop_def split: option.split)

theorem stop_serial_safe_witness:
  "\<exists>s. stop_reach True s \<and> st_closed s \<and> st_pc s 0 = Finished \<and> st_pc s 0 \<noteq> Crashed"
proof -
  have r1: "stop_reach True \<lparr>st_closed = False, st_pc = (\<lambda>_. Outside)(0 := SawOpen)\<rparr>"
    using stop_next [OF stop_init look_open [where i = 0]] by auto
  have r: "stop_reach True \<lparr>st_closed = True, st_pc = (\<lambda>_. Outside)(0 := Finished)\<rparr>"
    using stop_next [OF r1 close_open [where i = 0]] by simp
  from stop_serial_safe [OF r, where i = 0 and l = "None :: (unit, unit) ip_rate_limiter option"] r
  show ?thesis by (intro exI) (rule conjI, assumption, simp)
qed

text \<open>
  C33. Overlapping calls of \<open>Stop\<close> can crash: both may find the channel open, and the second to
  close it panics.
\<close>

theorem stop_race_crashes:
  "\<exists>s. stop_reach False s \<and> st_pc s 0 = Finished \<and> st_pc s 1 = Crashed"
proof -
  have r1: "stop_reach False \<lparr>st_closed = False, st_pc = (\<lambda>_. Outside)(0 := SawOpen)\<rparr>"
    using stop_next [OF stop_init look_open [where i = 0]] by simp
  have r2: "stop_reach False \<lparr>st_closed = False, st_pc = (\<lambda>_. Outside)(0 := SawOpen, 1 := SawOpen)\<rparr>"
    using stop_next [OF r1 look_open [where i = 1]] by simp
  have r3: "stop_reach False \<lparr>st_closed = True, st_pc = (\<lambda>_. Outside)(0 := Finished, 1 := SawOpen)\<rparr>"
    using stop_next [OF r2 close_open [where i = 0]] by (simp add: fun_upd_twist)
  have r4: "stop_reach False \<lparr>st_closed = True, st_pc = (\<lambda>_. Outside)(0 := Finished, 1 := Crashed)\<rparr>"
    using stop_next [OF r3 close_closed [where i = 1]] by simp
  then show ?thesis by (intro exI) (rule conjI, assumption, simp)
qed

end
