(* ===== verification/Http.thy ===== *)
theory Http
  imports Response Effects RateLimit
begin

text \<open>
  Handlers and middleware as the program writes them: functions on the state of a request, which
  is its Gin context, the state of the program and the rate limiter, all changed in place. A
  middleware gets what \<open>c.Next()\<close> runs as an argument.
\<close>

record ('c, 'w, 'l, 'r) http =
  ht_ctx :: 'c
  ht_app :: "'w app"
  ht_limiter :: "('l, 'r) ip_rate_limiter option"

type_synonym ('c, 'w, 'l, 'r) handler = "('c, 'w, 'l, 'r) http \<Rightarrow> (unit, ('c, 'w, 'l, 'r) http) outcome"

type_synonym ('c, 'w, 'l, 'r) middleware = "('c, 'w, 'l, 'r) handler \<Rightarrow> ('c, 'w, 'l, 'r) handler"

text \<open>The clock, the UUID generator and the stack trace, from the outside.\<close>

record 'w os_lib =
  os_now :: "'w \<Rightarrow> int \<times> 'w"
  os_uuid :: "'w \<Rightarrow> string \<times> 'w"
  os_stack :: "'w \<Rightarrow> string \<times> 'w"

definition on_ctx :: "('c \<Rightarrow> 'c) \<Rightarrow> ('c, 'w, 'l, 'r) http \<Rightarrow> ('c, 'w, 'l, 'r) http" where
  "on_ctx f s = s\<lparr>ht_ctx := f (ht_ctx s)\<rparr>"

definition on_app :: "('w app \<Rightarrow> 'w app) \<Rightarrow> ('c, 'w, 'l, 'r) http \<Rightarrow> ('c, 'w, 'l, 'r) http" where
  "on_app f s = s\<lparr>ht_app := f (ht_app s)\<rparr>"

definition call_os :: "('w \<Rightarrow> 'a \<times> 'w) \<Rightarrow> ('c, 'w, 'l, 'r) http \<Rightarrow> 'a \<times> ('c, 'w, 'l, 'r) http" where
  "call_os f s = (case call_world f (ht_app s) of (a, p) \<Rightarrow> (a, s\<lparr>ht_app := p\<rparr>))"

text \<open>A call of the lower layers, which change the state of the program only.\<close>

definition call_app ::
    "('w app \<Rightarrow> ('a, 'w app) outcome) \<Rightarrow> ('c, 'w, 'l, 'r) http \<Rightarrow> ('a, ('c, 'w, 'l, 'r) http) outcome" where
  "call_app f s =
     (case f (ht_app s) of
        Returned a p \<Rightarrow> Returned a (s\<lparr>ht_app := p\<rparr>)
      | Panicked e p \<Rightarrow> Panicked e (s\<lparr>ht_app := p\<rparr>))"

lemma on_ctx_simps [simp]:
  "ht_ctx (on_ctx f s) = f (ht_ctx s)" "ht_app (on_ctx f s) = ht_app s" "ht_limiter (on_ctx f s) = ht_limiter s"
  by (simp_all add: on_ctx_def)

lemma on_app_simps [simp]:
  "ht_ctx (on_app f s) = ht_ctx s" "ht_app (on_app f s) = f (ht_app s)" "ht_limiter (on_app f s) = ht_limiter s"
  by (simp_all add: on_app_def)

lemma call_os_simps [simp]:
  "fst (call_os f s) = fst (f (app_world (ht_app s)))"
  "ht_ctx (snd (call_os f s)) = ht_ctx s" "ht_limiter (snd (call_os f s)) = ht_limiter s"
  "app_logs (ht_app (snd (call_os f s))) = app_logs (ht_app s)"
  by (simp_all add: call_os_def call_world_def split: prod.split)

section \<open>The contract of a middleware\<close>

text \<open>
  From \<open>s\<close> to \<open>s'\<close> the request is aborted, a preflight without a body, any other with one
  envelope that carries no data.
\<close>

definition bodies :: "('c, 'd body, 'x) gin \<Rightarrow> ('c, 'w, 'l, 'r) http \<Rightarrow> 'd body list" where
  "bodies g s = gin_bodies g (ht_ctx s)"

definition refused :: "('c, 'd body, 'x) gin \<Rightarrow> ('c, 'w, 'l, 'r) http \<Rightarrow> ('c, 'w, 'l, 'r) http \<Rightarrow> bool" where
  "refused g s s' \<longleftrightarrow>
     gin_aborted g (ht_ctx s') \<and> same_request g (ht_ctx s) (ht_ctx s') \<and>
     (bodies g s' = bodies g s \<and> gin_method g (ht_ctx s) = ''OPTIONS'' \<or>
      (\<exists>e. bodies g s' = bodies g s @ [Envelope e] \<and> rsp_data e = None))"

definition prepared :: "('c, 'd body, 'x) gin \<Rightarrow> ('c, 'w, 'l, 'r) http \<Rightarrow> ('c, 'w, 'l, 'r) http \<Rightarrow> bool" where
  "prepared g s s' \<longleftrightarrow>
     bodies g s' = bodies g s \<and> same_request g (ht_ctx s) (ht_ctx s')"

text \<open>
  A middleware refuses a request without calling the next handler, or prepares it, calls the next
  handler exactly once, and afterwards leaves the response of a handler that returned alone; a
  panic passes, or is answered.
\<close>

definition mw_post ::
    "('c, 'd body, 'x) gin \<Rightarrow> ((unit, ('c, 'w, 'l, 'r) http) outcome \<Rightarrow> (unit, ('c, 'w, 'l, 'r) http) outcome) \<Rightarrow> bool" where
  "mw_post g k \<longleftrightarrow>
     (\<forall>s2. \<exists>s3. k (Returned () s2) = Returned () s3 \<and> ht_ctx s3 = ht_ctx s2) \<and>
     (\<forall>p s2. k (Panicked p s2) = Panicked p s2 \<or> (\<exists>s3. k (Panicked p s2) = Returned () s3 \<and> refused g s2 s3))"

definition mw_contract :: "('c, 'd body, 'x) gin \<Rightarrow> ('c, 'w, 'l, 'r) middleware \<Rightarrow> bool" where
  "mw_contract g mw \<longleftrightarrow>
     (\<forall>s. (\<exists>s'. refused g s s' \<and> (\<forall>nxt. mw nxt s = Returned () s')) \<or>
          (\<exists>s1 k. prepared g s s1 \<and> mw_post g k \<and> (\<forall>nxt. mw nxt s = k (nxt s1))))"

text \<open>
  A handler of a route answers a request nobody has answered with exactly one body, or panics
  before it has written anything.
\<close>

definition answers_once :: "('c, 'd body, 'x) gin \<Rightarrow> ('c, 'w, 'l, 'r) handler \<Rightarrow> bool" where
  "answers_once g h \<longleftrightarrow>
     (\<forall>s. bodies g s = [] \<longrightarrow>
        (case h s of
           Returned u s' \<Rightarrow> length (bodies g s') = 1 \<and> same_request g (ht_ctx s) (ht_ctx s')
         | Panicked p s' \<Rightarrow> bodies g s' = [] \<and> same_request g (ht_ctx s) (ht_ctx s')))"

text \<open>What a chain keeps: at most one body, and none only for a refused preflight.\<close>

definition answered :: "('c, 'd body, 'x) gin \<Rightarrow> ('c, 'w, 'l, 'r) http \<Rightarrow> (unit, ('c, 'w, 'l, 'r) http) outcome \<Rightarrow> bool" where
  "answered g s out \<longleftrightarrow>
     (case out of
        Returned u s' \<Rightarrow>
          same_request g (ht_ctx s) (ht_ctx s') \<and>
          (length (bodies g s') = 1 \<or>
           (bodies g s' = [] \<and> gin_aborted g (ht_ctx s') \<and> gin_method g (ht_ctx s) = ''OPTIONS''))
      | Panicked p s' \<Rightarrow> bodies g s' = [] \<and> same_request g (ht_ctx s) (ht_ctx s'))"

lemma same_request_method: "same_request g c c' \<Longrightarrow> gin_method g c' = gin_method g c"
  by (simp add: same_request_def)

lemma answers_once_answered: "answers_once g h \<Longrightarrow> bodies g s = [] \<Longrightarrow> answered g s (h s)"
proof -
  assume "answers_once g h" "bodies g s = []"
  then have "case h s of
           Returned u s' \<Rightarrow> length (bodies g s') = 1 \<and> same_request g (ht_ctx s) (ht_ctx s')
         | Panicked p s' \<Rightarrow> bodies g s' = [] \<and> same_request g (ht_ctx s) (ht_ctx s')"
    unfolding answers_once_def by blast
  then show ?thesis by (cases "h s") (simp_all add: answered_def)
qed

lemma mw_post_answered:
  assumes "mw_post g k" and "answered g s out"
  shows "answered g s (k out)"
proof (cases out)
  case (Returned u s2)
  with assms(1) obtain s3 where s3: "k (Returned () s2) = Returned () s3" "ht_ctx s3 = ht_ctx s2"
    unfolding mw_post_def by blast
  with assms(2) Returned show ?thesis by (simp add: answered_def bodies_def)
next
  case (Panicked p s2)
  with assms(2) have none: "bodies g s2 = []" "same_request g (ht_ctx s) (ht_ctx s2)" by (simp_all add: answered_def)
  from assms(1) consider "k (Panicked p s2) = Panicked p s2"
    | s3 where "k (Panicked p s2) = Returned () s3" "refused g s2 s3"
    unfolding mw_post_def by blast
  then show ?thesis
  proof cases
    case 2
    then have "same_request g (ht_ctx s2) (ht_ctx s3)" by (simp add: refused_def)
    with none(2) have "same_request g (ht_ctx s) (ht_ctx s3)" by (rule same_request_trans)
    then show ?thesis
      using 2 none(1) Panicked same_request_method [OF none(2)]
      by (auto simp: answered_def refused_def)
  qed (use assms(2) Panicked in simp)
qed

lemma mw_answered:
  assumes "mw_contract g mw" and "bodies g s = []"
    and "\<And>s1. bodies g s1 = [] \<Longrightarrow> answered g s1 (nxt s1)"
  shows "answered g s (mw nxt s)"
proof -
  from assms(1) consider s' where "refused g s s'" "\<forall>nxt. mw nxt s = Returned () s'"
    | s1 k where "prepared g s s1" "mw_post g k" "\<forall>nxt. mw nxt s = k (nxt s1)"
    unfolding mw_contract_def by blast
  then show ?thesis
  proof cases
    case 1
    then show ?thesis using assms(2) by (auto simp: answered_def refused_def)
  next
    case 2
    then have s1: "bodies g s1 = []" "same_request g (ht_ctx s) (ht_ctx s1)"
      using assms(2) by (simp_all add: prepared_def)
    have "answered g s1 (nxt s1)" using s1(1) by (rule assms(3))
    then have "answered g s (nxt s1)"
      using s1(2) same_request_method [OF s1(2)]
      by (cases "nxt s1") (simp_all add: answered_def same_request_trans [of g "ht_ctx s" "ht_ctx s1"])
    then show ?thesis using 2 mw_post_answered by metis
  qed
qed

text \<open>Gin runs the handlers of a route in order, each as the next of the one before.\<close>

definition run_chain :: "('c, 'w, 'l, 'r) middleware list \<Rightarrow> ('c, 'w, 'l, 'r) handler \<Rightarrow> ('c, 'w, 'l, 'r) handler" where
  "run_chain mws h = foldr (\<lambda>mw nxt. mw nxt) mws h"

lemma run_chain_simps [simp]:
  "run_chain [] h = h" "run_chain (mw # mws) h = mw (run_chain mws h)"
  by (simp_all add: run_chain_def)

lemma run_chain_append [simp]: "run_chain (xs @ ys) h = run_chain xs (run_chain ys h)"
  by (simp add: run_chain_def)

lemma chain_answered:
  "list_all (mw_contract g) mws \<Longrightarrow> answers_once g h \<Longrightarrow> bodies g s = [] \<Longrightarrow> answered g s (run_chain mws h s)"
proof (induction mws arbitrary: s)
  case Nil
  then show ?case by (simp add: answers_once_answered)
next
  case (Cons mw mws)
  then show ?case by (auto intro: mw_answered)
qed

text \<open>Data in a response can only come from the handler, run on the same request.\<close>

definition data_from :: "('c, 'd body, 'x) gin \<Rightarrow> ('c, 'w, 'l, 'r) handler \<Rightarrow> ('c, 'w, 'l, 'r) http \<Rightarrow> 'd response \<Rightarrow> bool" where
  "data_from g h s e \<longleftrightarrow>
     (\<exists>s1 s2. same_request g (ht_ctx s) (ht_ctx s1) \<and> bodies g s1 = [] \<and>
        h s1 = Returned () s2 \<and> bodies g s2 = [Envelope e])"

lemma mw_data:
  assumes c: "mw_contract g mw" and b: "bodies g s = []" and e: "rsp_data e \<noteq> None"
    and nopanic: "\<And>s1 p s2. bodies g s1 = [] \<Longrightarrow> nxt s1 = Panicked p s2 \<Longrightarrow> bodies g s2 = []"
    and r: "mw nxt s = Returned () s'" "bodies g s' = [Envelope e]"
  shows "data_from g nxt s e"
proof -
  from c consider s'' where "refused g s s''" "\<forall>nxt. mw nxt s = Returned () s''"
    | s1 k where "prepared g s s1" "mw_post g k" "\<forall>nxt. mw nxt s = k (nxt s1)"
    unfolding mw_contract_def by blast
  then show ?thesis
  proof cases
    case 1
    then show ?thesis using r b e by (auto simp: refused_def)
  next
    case 2
    then have s1: "bodies g s1 = []" "same_request g (ht_ctx s) (ht_ctx s1)"
      using b by (simp_all add: prepared_def)
    show ?thesis
    proof (cases "nxt s1")
      case (Returned u s2)
      with 2(2,3) r(1) have "ht_ctx s' = ht_ctx s2" unfolding mw_post_def by (metis outcome.inject(1) old.unit.exhaust)
      then show ?thesis using Returned s1 r(2) unfolding data_from_def bodies_def by (cases u) auto
    next
      case (Panicked p s2)
      with 2(2,3) r(1) obtain s3 where "k (Panicked p s2) = Returned () s3" "refused g s2 s3"
        unfolding mw_post_def by (metis outcome.distinct(1))
      with 2(3) r(1) Panicked have "refused g s2 s'" by (metis outcome.inject(1))
      then show ?thesis using r(2) e nopanic [OF s1(1) Panicked] by (auto simp: refused_def)
    qed
  qed
qed

lemma chain_panics_silent:
  assumes "list_all (mw_contract g) mws" and "answers_once g h" and "bodies g s = []"
    and "run_chain mws h s = Panicked p s'"
  shows "bodies g s' = []"
  using chain_answered [OF assms(1-3)] assms(4) by (simp add: answered_def)

lemma chain_data:
  "list_all (mw_contract g) mws \<Longrightarrow> answers_once g h \<Longrightarrow> bodies g s = [] \<Longrightarrow>
   run_chain mws h s = Returned () s' \<Longrightarrow> bodies g s' = [Envelope e] \<Longrightarrow> rsp_data e \<noteq> None \<Longrightarrow> data_from g h s e"
proof (induction mws arbitrary: s s')
  case Nil
  then show ?case unfolding data_from_def by (intro exI [of _ s] exI [of _ s']) simp
next
  case (Cons mw mws)
  then have "data_from g (run_chain mws h) s e"
    using chain_panics_silent by (intro mw_data [of g mw s e _ s']) auto
  then obtain s1 s2 where s1: "same_request g (ht_ctx s) (ht_ctx s1)" "bodies g s1 = []"
      "run_chain mws h s1 = Returned () s2" "bodies g s2 = [Envelope e]"
    unfolding data_from_def by blast
  then have "data_from g h s1 e" using Cons by simp
  then obtain s3 s4 where "same_request g (ht_ctx s1) (ht_ctx s3)" "bodies g s3 = []" "h s3 = Returned () s4" "bodies g s4 = [Envelope e]"
    unfolding data_from_def by blast
  then show ?case using same_request_trans [OF s1(1)] unfolding data_from_def by blast
qed

text \<open>The interface of a middleware, for the lemmas its users share.\<close>

locale http_middleware =
  fixes g :: "('c, 'd body, 'x) gin" and mw :: "('c, 'w, 'l, 'r) middleware"
  assumes contract: "gin_ok g \<Longrightarrow> mw_contract g mw"
begin

lemma answers:
  "gin_ok g \<Longrightarrow> answers_once g h \<Longrightarrow> bodies g s = [] \<Longrightarrow> answered g s (mw h s)"
  by (rule mw_answered [OF contract]) (auto intro: answers_once_answered)

end

end
