(* ===== verification/Middleware.thy ===== *)
theory Middleware
  imports Http Auth
begin

text \<open>
  \<open>internal/middleware\<close>: the middleware of the HTTP server. Each is interpreted in the contract
  \<open>http_middleware\<close>: it refuses a request with one envelope (or a preflight), or calls the next
  handler exactly once.
\<close>

section \<open>TraceLogger (logger.go)\<close>

definition trace_logger ::
    "('c, 'd body, 'db ctx) gin \<Rightarrow> 'w os_lib \<Rightarrow> bool \<Rightarrow> string list \<Rightarrow> ('c, 'w, 'l, 'r) middleware" where
  "trace_logger g os audit_enabled audit_excludes nxt s =
     (let excludes = filter (\<lambda>path. path \<noteq> []) audit_excludes;
          (start, s) = call_os (os_now os) s;
          trace_id = gin_get_header g (ht_ctx s) ''X-Request-ID'';
          (trace_id, s) = (if trace_id = [] then call_os (os_uuid os) s else (trace_id, s));
          s = on_ctx (gin_set g ''trace_id'' trace_id) s;
          s = on_ctx (gin_header g ''X-Request-ID'' trace_id) s;
          s = on_ctx (\<lambda>c. gin_with_ctx g (with_trace_id (Some (gin_req_ctx g c)) trace_id) c) s
      in and_then (nxt s) (\<lambda>_ s.
           if \<not> audit_enabled then Returned () s
           else if gin_path g (ht_ctx s) \<in> set excludes then Returned () s
           else
             let (now, s) = call_os (os_now os) s; c = ht_ctx s in
             Returned ()
               (on_app (add_log (ctx_log (Some (gin_req_ctx g c)) ''info'' ''http request completed''
                  [(''method'', FStr (gin_method g c)), (''path'', FStr (gin_path g c)),
                   (''status'', FInt (gin_status g c)), (''latency'', FInt (now - start)),
                   (''client_ip'', FStr (gin_client_ip g c))])) s)))"

section \<open>Recovery (recovery.go)\<close>

definition recovery ::
    "('c, 'd body, 'db ctx) gin \<Rightarrow> 'w os_lib \<Rightarrow> ('c, 'w, 'l, 'r) middleware" where
  "recovery g os nxt s =
     (case nxt s of
        Returned u s \<Rightarrow> Returned u s
      | Panicked err s \<Rightarrow>
          (case call_os (os_stack os) s of
             (stack, s) \<Rightarrow>
               let c = ht_ctx s;
                   s = on_app (add_log (ctx_log (Some (gin_req_ctx g c)) ''error'' ''panic recovered''
                         [(''method'', FStr (gin_method g c)), (''path'', FStr (gin_path g c)),
                          (''error'', FStr err), (''stacktrace'', FStr stack)])) s
               in Returned () (on_ctx (\<lambda>c. gin_abort_json g 200 (Envelope (error_response g c InternalError)) c) s)))"

section \<open>Timeout (timeout.go)\<close>

text \<open>
  The deferred \<open>cancel\<close> ends the derived context when the request is over. What runs after it, the audit of
  \<open>TraceLogger\<close>, reads only the trace id of the context, so it has no effect here.
\<close>

definition timeout_middleware ::
    "('c, 'd body, 'db ctx) gin \<Rightarrow> 'w os_lib \<Rightarrow> int \<Rightarrow> ('c, 'w, 'l, 'r) middleware" where
  "timeout_middleware g os timeout nxt s =
     (if timeout \<le> 0 then nxt s
      else
        (case call_os (os_now os) s of
           (now, s) \<Rightarrow>
             nxt (on_ctx (\<lambda>c. gin_with_ctx g (with_timeout now timeout (gin_req_ctx g c)) c) s)))"

section \<open>CORS (cors.go)\<close>

text \<open>The map of allowed origins is the list of its keys.\<close>

definition allowed_origins :: "string list \<Rightarrow> string list" where
  "allowed_origins allow_origins = filter (\<lambda>origin. origin \<noteq> []) (map trim_space allow_origins)"

definition contains_origin :: "string list \<Rightarrow> string \<Rightarrow> bool" where
  "contains_origin allowed origin \<longleftrightarrow> origin \<in> set allowed"

definition cors_headers :: "('c, 'b, 'x) gin \<Rightarrow> string \<Rightarrow> 'c \<Rightarrow> 'c" where
  "cors_headers g origin c =
     gin_header g ''Access-Control-Allow-Credentials'' ''true''
       (gin_header g ''Access-Control-Allow-Headers'' ''Origin,Content-Type,Accept,Authorization,X-Request-ID''
         (gin_header g ''Access-Control-Allow-Methods'' ''GET,POST,PUT,PATCH,DELETE,OPTIONS''
           (gin_header g ''Vary'' ''Origin''
             (gin_header g ''Access-Control-Allow-Origin'' origin c))))"

definition cors :: "('c, 'd body, 'x) gin \<Rightarrow> string list \<Rightarrow> ('c, 'w, 'l, 'r) middleware" where
  "cors g allow_origins nxt s =
     (let allowed = allowed_origins allow_origins;
          origin = trim_space (gin_get_header g (ht_ctx s) ''Origin'');
          s = (if origin \<noteq> [] \<and> contains_origin allowed origin then on_ctx (cors_headers g origin) s else s)
      in if gin_method g (ht_ctx s) = ''OPTIONS'' then Returned () (on_ctx (gin_abort_status g 204) s)
         else nxt s)"

section \<open>The rate limiter's middleware (rate_limit.go)\<close>

definition rate_limit_middleware ::
    "('c, 'd body, 'x) gin \<Rightarrow> 'w os_lib \<Rightarrow> ('l, 'r) rate_lib \<Rightarrow> ('c, 'w, 'l, 'r) middleware" where
  "rate_limit_middleware g os R nxt s =
     (case ht_limiter s of
        None \<Rightarrow> nxt s
      | Some l \<Rightarrow>
          let (now, s) = call_os (os_now os) s; (now', s) = call_os (os_now os) s in
          (case allow R (gin_client_ip g (ht_ctx s)) now now' l of
             (ok, l) \<Rightarrow>
               let s = s\<lparr>ht_limiter := Some l\<rparr> in
               if ok then nxt s
               else Returned ()
                 (on_ctx (\<lambda>c. gin_abort_json g 200 (Envelope (error_response g c TooManyRequests)) c) s)))"

section \<open>BearerAuth (auth.go)\<close>

definition auth_subject_key :: string where
  "auth_subject_key = ''auth_subject''"

definition auth_subject :: "('c, 'b, 'x) gin \<Rightarrow> 'c \<Rightarrow> string" where
  "auth_subject g c = gin_get_string g c auth_subject_key"

definition reject_unauthorized :: "('c, 'd body, 'x) gin \<Rightarrow> 'c \<Rightarrow> 'c" where
  "reject_unauthorized g c = gin_abort_json g 200 (Envelope (error_response g c Unauthorized)) c"

definition bearer_auth ::
    "('c, 'd body, 'x) gin \<Rightarrow> 'w os_lib \<Rightarrow> jwt_lib \<Rightarrow> jwt_manager option \<Rightarrow> ('c, 'w, 'l, 'r) middleware" where
  "bearer_auth g os J manager nxt s =
     (case manager of
        None \<Rightarrow> Returned () (on_ctx (reject_unauthorized g) s)
      | Some m \<Rightarrow>
          (case call_os (os_now os) s of
             (now, s) \<Rightarrow>
               (case parse_token J m now (gin_get_header g (ht_ctx s) ''Authorization'') of
                  Inl err \<Rightarrow> Returned () (on_ctx (reject_unauthorized g) s)
                | Inr cl \<Rightarrow> nxt (on_ctx (gin_set g auth_subject_key (cl_subject cl)) s))))"

section \<open>The contract\<close>

lemma mw_post_id: "mw_post g (\<lambda>out. out)"
  by (simp add: mw_post_def)

lemma same_request_writes [simp]:
  "gin_ok g \<Longrightarrow> same_request g c (gin_set g k v c)"
  "gin_ok g \<Longrightarrow> same_request g c (gin_header g k v c)"
  "gin_ok g \<Longrightarrow> same_request g c (gin_with_ctx g x c)"
  "gin_ok g \<Longrightarrow> same_request g c (gin_json g st b c)"
  "gin_ok g \<Longrightarrow> same_request g c (gin_abort_json g st b c)"
  "gin_ok g \<Longrightarrow> same_request g c (gin_abort_status g st c)"
  by (simp_all add: gin_ok_def gin_request_ok_def)

text \<open>The two ways to meet the contract, for one request.\<close>

lemma contractI_refuse:
  "refused g s s' \<Longrightarrow> (\<And>nxt. mw nxt s = Returned () s') \<Longrightarrow>
   (\<exists>s'. refused g s s' \<and> (\<forall>nxt. mw nxt s = Returned () s')) \<or>
   (\<exists>s1 k. prepared g s s1 \<and> mw_post g k \<and> (\<forall>nxt. mw nxt s = k (nxt s1)))"
  by blast

lemma contractI_pass:
  "prepared g s s1 \<Longrightarrow> mw_post g k \<Longrightarrow> (\<And>nxt. mw nxt s = k (nxt s1)) \<Longrightarrow>
   (\<exists>s'. refused g s s' \<and> (\<forall>nxt. mw nxt s = Returned () s')) \<or>
   (\<exists>s1 k. prepared g s s1 \<and> mw_post g k \<and> (\<forall>nxt. mw nxt s = k (nxt s1)))"
  by blast

lemma refused_abort_json:
  "gin_ok g \<Longrightarrow> ht_ctx s' = ht_ctx s \<Longrightarrow>
   refused g s (on_ctx (\<lambda>c. gin_abort_json g st (Envelope (error_response g c e)) c) s')"
  by (simp add: refused_def bodies_def error_response_def Let_def)

lemma refused_unauthorized:
  "gin_ok g \<Longrightarrow> ht_ctx s' = ht_ctx s \<Longrightarrow> refused g s (on_ctx (reject_unauthorized g) s')"
  by (simp add: refused_def bodies_def reject_unauthorized_def error_response_def Let_def)

lemma call_os_ctx:
  "call_os f s = (a, s') \<Longrightarrow>
   ht_ctx s' = ht_ctx s \<and> ht_limiter s' = ht_limiter s \<and> app_logs (ht_app s') = app_logs (ht_app s)"
  using call_os_simps(2-4) [of f s] by simp

lemma contract_timeout: "gin_ok g \<Longrightarrow> mw_contract g (timeout_middleware g os t)"
  unfolding mw_contract_def
proof (intro allI)
  fix s
  assume g: "gin_ok g"
  show "(\<exists>s'. refused g s s' \<and> (\<forall>nxt. timeout_middleware g os t nxt s = Returned () s')) \<or>
      (\<exists>s1 k. prepared g s s1 \<and> mw_post g k \<and> (\<forall>nxt. timeout_middleware g os t nxt s = k (nxt s1)))"
  proof (cases "t \<le> 0")
    case True
    then show ?thesis
      by (intro contractI_pass [OF _ mw_post_id, of g s s]) (simp_all add: prepared_def timeout_middleware_def)
  next
    case False
    obtain now s' where now: "call_os (os_now os) s = (now, s')" by fastforce
    then have c: "ht_ctx s' = ht_ctx s" by (simp add: call_os_ctx)
    show ?thesis using False now c g
      by (intro contractI_pass [OF _ mw_post_id, of g s
            "on_ctx (\<lambda>c. gin_with_ctx g (with_timeout now t (gin_req_ctx g c)) c) s'"])
         (simp_all add: prepared_def timeout_middleware_def bodies_def)
  qed
qed

lemma contract_recovery: "gin_ok g \<Longrightarrow> mw_contract g (recovery g os)"
  unfolding mw_contract_def
proof (intro allI contractI_pass)
  fix s
  assume g: "gin_ok g"
  define k where "k = (\<lambda>out. recovery g os (\<lambda>_. out) s)"
  show "prepared g s s" by (simp add: prepared_def)
  show "recovery g os nxt s = k (nxt s)" for nxt by (simp add: k_def recovery_def)
  show "mw_post g k"
    unfolding mw_post_def
  proof (intro conjI allI disjI2)
    show "\<exists>s3. k (Returned () s2) = Returned () s3 \<and> ht_ctx s3 = ht_ctx s2" for s2
      by (simp add: k_def recovery_def)
    show "\<exists>s3. k (Panicked p s2) = Returned () s3 \<and> refused g s2 s3" for p s2
    proof -
      obtain st s' where "call_os (os_stack os) s2 = (st, s')" by fastforce
      moreover from this have "ht_ctx s' = ht_ctx s2" by (simp add: call_os_ctx)
      ultimately show ?thesis using g by (auto simp: k_def recovery_def Let_def intro!: refused_abort_json)
    qed
  qed
qed

lemma contract_cors: "gin_ok g \<Longrightarrow> mw_contract g (cors g origins)"
  unfolding mw_contract_def
proof (intro allI)
  fix s
  assume g: "gin_ok g"
  define s1 where "s1 = (let origin = trim_space (gin_get_header g (ht_ctx s) ''Origin'') in
      if origin \<noteq> [] \<and> contains_origin (allowed_origins origins) origin then on_ctx (cors_headers g origin) s else s)"
  have s1: "same_request g (ht_ctx s) (ht_ctx s1)" "bodies g s1 = bodies g s"
    using g by (auto simp: s1_def Let_def same_request_def bodies_def cors_headers_def)
  have eq: "cors g origins nxt s =
      (if gin_method g (ht_ctx s1) = ''OPTIONS'' then Returned () (on_ctx (gin_abort_status g 204) s1) else nxt s1)" for nxt
    by (simp add: cors_def s1_def Let_def)
  show "(\<exists>s'. refused g s s' \<and> (\<forall>nxt. cors g origins nxt s = Returned () s')) \<or>
      (\<exists>s1 k. prepared g s s1 \<and> mw_post g k \<and> (\<forall>nxt. cors g origins nxt s = k (nxt s1)))"
  proof (cases "gin_method g (ht_ctx s1) = ''OPTIONS''")
    case True
    have "same_request g (ht_ctx s1) (gin_abort_status g 204 (ht_ctx s1))" using g by simp
    with s1(1) have "same_request g (ht_ctx s) (gin_abort_status g 204 (ht_ctx s1))" by (rule same_request_trans)
    then have "refused g s (on_ctx (gin_abort_status g 204) s1)"
      using True g s1 same_request_method [OF s1(1)] by (simp add: refused_def bodies_def)
    then show ?thesis using True by (intro contractI_refuse) (simp_all add: eq)
  next
    case False
    with s1 show ?thesis by (intro contractI_pass [OF _ mw_post_id, of g s s1]) (simp_all add: eq prepared_def)
  qed
qed

lemma contract_rate_limit: "gin_ok g \<Longrightarrow> mw_contract g (rate_limit_middleware g os R)"
  unfolding mw_contract_def
proof (intro allI)
  fix s
  assume g: "gin_ok g"
  show "(\<exists>s'. refused g s s' \<and> (\<forall>nxt. rate_limit_middleware g os R nxt s = Returned () s')) \<or>
      (\<exists>s1 k. prepared g s s1 \<and> mw_post g k \<and> (\<forall>nxt. rate_limit_middleware g os R nxt s = k (nxt s1)))"
  proof (cases "ht_limiter s")
    case None
    then show ?thesis
      by (intro contractI_pass [OF _ mw_post_id, of g s s]) (simp_all add: prepared_def rate_limit_middleware_def)
  next
    case (Some l)
    obtain t s1 where 1: "call_os (os_now os) s = (t, s1)" by fastforce
    obtain t' s2 where 2: "call_os (os_now os) s1 = (t', s2)" by fastforce
    obtain ok l' where a: "allow R (gin_client_ip g (ht_ctx s2)) t t' l = (ok, l')" by fastforce
    define s3 where "s3 = s2\<lparr>ht_limiter := Some l'\<rparr>"
    have c: "ht_ctx s3 = ht_ctx s" using call_os_ctx [OF 1] call_os_ctx [OF 2] by (simp add: s3_def)
    have eq: "rate_limit_middleware g os R nxt s =
        (if ok then nxt s3 else Returned ()
           (on_ctx (\<lambda>c. gin_abort_json g 200 (Envelope (error_response g c TooManyRequests)) c) s3))" for nxt
      using Some 1 2 a by (simp add: rate_limit_middleware_def s3_def Let_def)
    show ?thesis
    proof (cases ok)
      case True
      then show ?thesis
        using c by (intro contractI_pass [OF _ mw_post_id, of g s s3]) (simp_all add: eq prepared_def bodies_def)
    next
      case False
      then show ?thesis
        by (intro contractI_refuse [OF refused_abort_json [OF g c]]) (simp add: eq)
    qed
  qed
qed

lemma contract_bearer_auth: "gin_ok g \<Longrightarrow> mw_contract g (bearer_auth g os J manager)"
  unfolding mw_contract_def
proof (intro allI)
  fix s
  assume g: "gin_ok g"
  show "(\<exists>s'. refused g s s' \<and> (\<forall>nxt. bearer_auth g os J manager nxt s = Returned () s')) \<or>
      (\<exists>s1 k. prepared g s s1 \<and> mw_post g k \<and> (\<forall>nxt. bearer_auth g os J manager nxt s = k (nxt s1)))"
  proof (cases manager)
    case None
    then show ?thesis
      by (intro contractI_refuse [OF refused_unauthorized [OF g refl]]) (simp add: bearer_auth_def)
  next
    case (Some m)
    obtain t s1 where 1: "call_os (os_now os) s = (t, s1)" by fastforce
    then have c: "ht_ctx s1 = ht_ctx s" by (simp add: call_os_ctx)
    show ?thesis
    proof (cases "parse_token J m t (gin_get_header g (ht_ctx s1) ''Authorization'')")
      case (Inl e)
      then show ?thesis
        by (intro contractI_refuse [OF refused_unauthorized [OF g c]]) (simp add: bearer_auth_def Some 1)
    next
      case (Inr cl)
      then show ?thesis
        using c g
        by (intro contractI_pass [OF _ mw_post_id, of g s "on_ctx (gin_set g auth_subject_key (cl_subject cl)) s1"])
           (simp_all add: bearer_auth_def Some 1 prepared_def bodies_def)
    qed
  qed
qed

text \<open>
  What \<open>TraceLogger\<close> does before and after the next handler, for the lemmas below: \<open>tid\<close> is the
  trace id it picks, \<open>s1\<close> what it hands on and \<open>post\<close> what it does with the outcome.
\<close>

definition uuid_ok :: "'w os_lib \<Rightarrow> bool" where
  "uuid_ok os \<longleftrightarrow> (\<forall>w. fst (os_uuid os w) \<noteq> [])"

definition audit_entry :: "('c, 'd body, 'db ctx) gin \<Rightarrow> 'c \<Rightarrow> int \<Rightarrow> log_entry" where
  "audit_entry g c latency =
     ctx_log (Some (gin_req_ctx g c)) ''info'' ''http request completed''
       [(''method'', FStr (gin_method g c)), (''path'', FStr (gin_path g c)),
        (''status'', FInt (gin_status g c)), (''latency'', FInt latency),
        (''client_ip'', FStr (gin_client_ip g c))]"

definition trace_post ::
    "('c, 'd body, 'db ctx) gin \<Rightarrow> 'w os_lib \<Rightarrow> bool \<Rightarrow> string list \<Rightarrow> int \<Rightarrow>
     (unit, ('c, 'w, 'l, 'r) http) outcome \<Rightarrow> (unit, ('c, 'w, 'l, 'r) http) outcome" where
  "trace_post g os audit excludes start out =
     and_then out (\<lambda>_ s.
       if \<not> audit then Returned () s
       else if gin_path g (ht_ctx s) \<in> set (filter (\<lambda>path. path \<noteq> []) excludes) then Returned () s
       else case call_os (os_now os) s of
              (now, s) \<Rightarrow> Returned () (on_app (add_log (audit_entry g (ht_ctx s) (now - start))) s))"

definition trace_prep :: "('c, 'b, 'db ctx) gin \<Rightarrow> string \<Rightarrow> 'c \<Rightarrow> 'c" where
  "trace_prep g tid c =
     (let c = gin_header g ''X-Request-ID'' tid (gin_set g ''trace_id'' tid c)
      in gin_with_ctx g (with_trace_id (Some (gin_req_ctx g c)) tid) c)"

text \<open>The outside after the calls of \<open>TraceLogger\<close> before the next handler, and of the timeout.\<close>

definition trace_world :: "('c, 'b, 'x) gin \<Rightarrow> 'w os_lib \<Rightarrow> 'c \<Rightarrow> 'w \<Rightarrow> 'w" where
  "trace_world g os c w =
     (let w = snd (os_now os w) in if gin_get_header g c ''X-Request-ID'' = [] then snd (os_uuid os w) else w)"

definition timeout_world :: "'w os_lib \<Rightarrow> int \<Rightarrow> 'w \<Rightarrow> 'w" where
  "timeout_world os t w = (if t \<le> 0 then w else snd (os_now os w))"

lemma call_os_world: "call_os f s = (a, s') \<Longrightarrow> app_world (ht_app s') = snd (f (app_world (ht_app s)))"
  by (auto simp: call_os_def call_world_def split: prod.splits)

lemma trace_logger_steps:
  fixes s :: "('c, 'w, 'l, 'r) http"
  obtains start tid s1 where
    "\<And>nxt. trace_logger g os audit excludes nxt s = trace_post g os audit excludes start (nxt s1)"
    "ht_ctx s1 = trace_prep g tid (ht_ctx s)" "ht_limiter s1 = ht_limiter s"
    "app_logs (ht_app s1) = app_logs (ht_app s)"
    "if gin_get_header g (ht_ctx s) ''X-Request-ID'' = [] then \<exists>w. tid = fst (os_uuid os w)
     else tid = gin_get_header g (ht_ctx s) ''X-Request-ID''"
    "app_world (ht_app s1) = trace_world g os (ht_ctx s) (app_world (ht_app s))"
proof -
  obtain start s0 where 1: "call_os (os_now os) s = (start, s0)" by fastforce
  define h where "h = gin_get_header g (ht_ctx s0) ''X-Request-ID''"
  obtain tid s2 where 2: "(if h = [] then call_os (os_uuid os) s0 else (h, s0)) = (tid, s2)" by fastforce
  define s3 where "s3 = on_ctx (trace_prep g tid) s2"
  have s2: "ht_ctx s2 = ht_ctx s \<and> ht_limiter s2 = ht_limiter s \<and> app_logs (ht_app s2) = app_logs (ht_app s)"
    using call_os_ctx [OF 1] 2 by (auto split: if_splits dest!: call_os_ctx)
  have tid: "if gin_get_header g (ht_ctx s) ''X-Request-ID'' = [] then \<exists>w. tid = fst (os_uuid os w)
     else tid = gin_get_header g (ht_ctx s) ''X-Request-ID''"
  proof (cases "h = []")
    case True
    then have "tid = fst (os_uuid os (app_world (ht_app s0)))"
      using 2 call_os_simps(1) [of "os_uuid os" s0] by (metis fst_conv)
    then show ?thesis using True call_os_ctx [OF 1] by (auto simp: h_def)
  next
    case False
    then show ?thesis using 2 call_os_ctx [OF 1] by (auto simp: h_def split: if_splits)
  qed
  have w: "app_world (ht_app s2) = trace_world g os (ht_ctx s) (app_world (ht_app s))"
    using call_os_world [OF 1] call_os_ctx [OF 1] 2
    by (auto simp: trace_world_def h_def Let_def split: if_splits dest!: call_os_world)
  have s3: "on_ctx (\<lambda>c. gin_with_ctx g (with_trace_id (Some (gin_req_ctx g c)) tid) c)
      (on_ctx (gin_header g ''X-Request-ID'' tid) (on_ctx (gin_set g ''trace_id'' tid) s2)) = s3"
    by (simp add: s3_def on_ctx_def trace_prep_def Let_def)
  have "trace_logger g os audit excludes nxt s = trace_post g os audit excludes start (nxt s3)" for nxt
    unfolding trace_logger_def trace_post_def audit_entry_def Let_def
    by (simp add: 1 2 [unfolded h_def] s3 del: if_split)
  then show ?thesis
    using that [of start s3 tid] s2 tid w by (simp add: s3_def)
qed

lemma trace_post_Returned:
  "\<exists>s3. trace_post g os audit excludes start (Returned () s2) = Returned () s3 \<and> ht_ctx s3 = ht_ctx s2 \<and>
        ht_limiter s3 = ht_limiter s2 \<and>
        (\<exists>latency. app_logs (ht_app s3) = app_logs (ht_app s2) @
          (if audit \<and> \<not> (gin_path g (ht_ctx s2) \<noteq> [] \<and> gin_path g (ht_ctx s2) \<in> set excludes)
           then [audit_entry g (ht_ctx s2) latency] else []))"
proof -
  obtain now s' where n: "call_os (os_now os) s2 = (now, s')" by fastforce
  show ?thesis using call_os_ctx [OF n]
    by (auto simp: trace_post_def n)
qed

lemma trace_post_Panicked [simp]: "trace_post g os audit excludes start (Panicked p s2) = Panicked p s2"
  by (simp add: trace_post_def)

lemma contract_trace_logger: "gin_ok g \<Longrightarrow> mw_contract g (trace_logger g os audit excludes)"
  unfolding mw_contract_def
proof (intro allI)
  fix s
  assume g: "gin_ok g"
  obtain start tid s1 where t:
      "\<And>nxt. trace_logger g os audit excludes nxt s = trace_post g os audit excludes start (nxt s1)"
      "ht_ctx s1 = trace_prep g tid (ht_ctx s)"
    by (rule trace_logger_steps) blast
  have "prepared g s s1" using g by (simp add: prepared_def bodies_def same_request_def t(2) trace_prep_def Let_def)
  moreover have "mw_post g (trace_post g os audit excludes start)"
    unfolding mw_post_def using trace_post_Returned by (metis trace_post_Panicked)
  ultimately show "(\<exists>s'. refused g s s' \<and> (\<forall>nxt. trace_logger g os audit excludes nxt s = Returned () s')) \<or>
      (\<exists>s1 k. prepared g s s1 \<and> mw_post g k \<and> (\<forall>nxt. trace_logger g os audit excludes nxt s = k (nxt s1)))"
    using t(1) by blast
qed

interpretation mw_timeout: http_middleware g "timeout_middleware g os t" for g os t
  by unfold_locales (rule contract_timeout)

interpretation mw_recovery: http_middleware g "recovery g os" for g os
  by unfold_locales (rule contract_recovery)

interpretation mw_cors: http_middleware g "cors g origins" for g origins
  by unfold_locales (rule contract_cors)

interpretation mw_rate_limit: http_middleware g "rate_limit_middleware g os R" for g os R
  by unfold_locales (rule contract_rate_limit)

interpretation mw_bearer_auth: http_middleware g "bearer_auth g os J manager" for g os J manager
  by unfold_locales (rule contract_bearer_auth)

interpretation mw_trace_logger: http_middleware g "trace_logger g os audit excludes" for g os audit excludes
  by unfold_locales (rule contract_trace_logger)

lemmas middleware_contracts =
  mw_trace_logger.contract mw_recovery.contract mw_timeout.contract mw_cors.contract
  mw_rate_limit.contract mw_bearer_auth.contract

section \<open>Lemmas\<close>

lemma cors_headers_origin:
  "gin_ok g \<Longrightarrow> origin \<noteq> [] \<Longrightarrow>
   gin_resp_header g (cors_headers g origin c) ''Access-Control-Allow-Origin'' = Some origin \<and>
   gin_resp_header g (cors_headers g origin c) ''Access-Control-Allow-Credentials'' = Some ''true'' \<and>
   gin_resp_header g (cors_headers g origin c) ''Vary'' = Some ''Origin''"
  by (simp add: cors_headers_def)

lemma cors_headers_keeps [simp]:
  "gin_ok g \<Longrightarrow> gin_bodies g (cors_headers g origin c) = gin_bodies g c"
  "gin_ok g \<Longrightarrow> gin_method g (cors_headers g origin c) = gin_method g c"
  by (simp_all add: cors_headers_def)

text \<open>The context the CORS middleware hands on or aborts.\<close>

definition cors_ctx :: "('c, 'b, 'x) gin \<Rightarrow> string list \<Rightarrow> 'c \<Rightarrow> 'c" where
  "cors_ctx g origins c =
     (let origin = trim_space (gin_get_header g c ''Origin'') in
      if origin \<noteq> [] \<and> origin \<in> set (map trim_space origins) then cors_headers g origin c else c)"

lemma cors_eq:
  "gin_ok g \<Longrightarrow> cors g origins nxt s =
     (if gin_method g (ht_ctx s) = ''OPTIONS''
      then Returned () (on_ctx (\<lambda>c. gin_abort_status g 204 (cors_ctx g origins c)) s)
      else nxt (on_ctx (cors_ctx g origins) s))"
  by (auto simp: cors_def cors_ctx_def contains_origin_def allowed_origins_def Let_def on_ctx_def cong: if_cong)

lemma trace_prep_facts:
  "gin_ok g \<Longrightarrow> gin_get_string g (trace_prep g tid c) ''trace_id'' = tid"
  "gin_ok g \<Longrightarrow> gin_bodies g (trace_prep g tid c) = gin_bodies g c"
  "gin_ok g \<Longrightarrow> gin_method g (trace_prep g tid c) = gin_method g c"
  "gin_ok g \<Longrightarrow> gin_get_header g (trace_prep g tid c) = gin_get_header g c"
  "gin_ok g \<Longrightarrow> trace_id_from (Some (gin_req_ctx g (trace_prep g tid c))) = tid"
  "gin_ok g \<Longrightarrow> tid \<noteq> [] \<Longrightarrow> gin_resp_header g (trace_prep g tid c) k =
     (if to_lower k = to_lower ''X-Request-ID'' then Some tid else gin_resp_header g c k)"
  by (simp_all add: trace_prep_def Let_def del: to_lower.simps)

text \<open>What the timeout hands on.\<close>

lemma timeout_steps:
  fixes s :: "('c, 'w, 'l, 'r) http"
  obtains s1 where "\<And>nxt. timeout_middleware g os t nxt s = nxt s1"
    "ht_ctx s1 = (if t \<le> 0 then ht_ctx s
       else gin_with_ctx g (with_timeout (fst (os_now os (app_world (ht_app s)))) t (gin_req_ctx g (ht_ctx s))) (ht_ctx s))"
    "ht_limiter s1 = ht_limiter s" "app_logs (ht_app s1) = app_logs (ht_app s)"
    "app_world (ht_app s1) = timeout_world os t (app_world (ht_app s))"
proof (cases "t \<le> 0")
  case True
  then show ?thesis by (intro that [of s]) (simp_all add: timeout_middleware_def timeout_world_def)
next
  case False
  obtain now s' where n: "call_os (os_now os) s = (now, s')" by fastforce
  then have "now = fst (os_now os (app_world (ht_app s)))" using call_os_simps(1) [of "os_now os" s] by simp
  then show ?thesis using False n call_os_ctx [OF n] call_os_world [OF n]
    by (intro that [of "on_ctx (\<lambda>c. gin_with_ctx g (with_timeout now t (gin_req_ctx g c)) c) s'"])
       (simp_all add: timeout_middleware_def timeout_world_def)
qed

section \<open>Properties\<close>

text \<open>
  C35. Every request has one trace id: \<open>TraceLogger\<close> takes the one of the request's X-Request-ID
  header, else a new UUID; the next handler finds this id in the Gin context, in the request's
  context, where the services log it, and in the response header. It leaves the response of the
  next handler and its panics alone, and writes at most one audit entry, exactly when auditing is
  on and the path is not excluded.
\<close>

theorem trace_logger_traces:
  assumes "gin_ok g" and "uuid_ok os"
  shows "\<exists>tid s1.
     tid \<noteq> [] \<and>
     tid \<in> (if gin_get_header g (ht_ctx s) ''X-Request-ID'' = [] then range (\<lambda>w. fst (os_uuid os w))
            else {gin_get_header g (ht_ctx s) ''X-Request-ID''}) \<and>
     gin_get_string g (ht_ctx s1) ''trace_id'' = tid \<and>
     trace_id_from (Some (gin_req_ctx g (ht_ctx s1))) = tid \<and>
     gin_resp_header g (ht_ctx s1) ''X-Request-ID'' = Some tid \<and>
     (case nxt s1 of
        Panicked p s2 \<Rightarrow> trace_logger g os audit excludes nxt s = Panicked p s2
      | Returned u s2 \<Rightarrow>
          \<exists>s3 latency. trace_logger g os audit excludes nxt s = Returned () s3 \<and> ht_ctx s3 = ht_ctx s2 \<and>
            app_logs (ht_app s3) = app_logs (ht_app s2) @
              (if audit \<and> \<not> (gin_path g (ht_ctx s2) \<noteq> [] \<and> gin_path g (ht_ctx s2) \<in> set excludes)
               then [audit_entry g (ht_ctx s2) latency] else []))"
proof -
  obtain start tid s1 where t:
      "\<And>nxt. trace_logger g os audit excludes nxt s = trace_post g os audit excludes start (nxt s1)"
      "ht_ctx s1 = trace_prep g tid (ht_ctx s)"
      "if gin_get_header g (ht_ctx s) ''X-Request-ID'' = [] then \<exists>w. tid = fst (os_uuid os w)
       else tid = gin_get_header g (ht_ctx s) ''X-Request-ID''"
    by (rule trace_logger_steps) blast
  have tid: "tid \<noteq> []" using t(3) assms(2) by (auto simp: uuid_ok_def split: if_splits)
  have "case nxt s1 of
        Panicked p s2 \<Rightarrow> trace_logger g os audit excludes nxt s = Panicked p s2
      | Returned u s2 \<Rightarrow>
          \<exists>s3 latency. trace_logger g os audit excludes nxt s = Returned () s3 \<and> ht_ctx s3 = ht_ctx s2 \<and>
            app_logs (ht_app s3) = app_logs (ht_app s2) @
              (if audit \<and> \<not> (gin_path g (ht_ctx s2) \<noteq> [] \<and> gin_path g (ht_ctx s2) \<in> set excludes)
               then [audit_entry g (ht_ctx s2) latency] else [])"
  proof (cases "nxt s1")
    case (Returned u s2)
    then show ?thesis
      using trace_post_Returned [of g os audit excludes start s2] t(1) by (cases u) fastforce
  qed (simp add: t(1))
  moreover have "tid \<in> (if gin_get_header g (ht_ctx s) ''X-Request-ID'' = [] then range (\<lambda>w. fst (os_uuid os w))
            else {gin_get_header g (ht_ctx s) ''X-Request-ID''})"
    using t(3) by (auto split: if_splits)
  moreover have "gin_get_string g (ht_ctx s1) ''trace_id'' = tid"
      "trace_id_from (Some (gin_req_ctx g (ht_ctx s1))) = tid"
      "gin_resp_header g (ht_ctx s1) ''X-Request-ID'' = Some tid"
    using tid assms(1) by (simp_all add: t(2) trace_prep_facts)
  ultimately show ?thesis using tid by blast
qed

text \<open>
  \<open>BearerAuth\<close> is a gate: it either answers UNAUTHORIZED and aborts, without running the next
  handler, or runs it once on the same request, with the subject of claims the manager accepted
  in the Authorization header. Without a manager nobody passes.
\<close>

theorem bearer_auth_gate:
  "(\<exists>s0. ht_ctx s0 = ht_ctx s \<and>
      bearer_auth g os J manager nxt s =
        Returned () (on_ctx (\<lambda>c. gin_abort_json g 200 (Envelope (error_response g c Unauthorized)) c) s0)) \<or>
   (\<exists>m now cl s0. manager = Some m \<and> ht_ctx s0 = ht_ctx s \<and>
      parse_token J m now (gin_get_header g (ht_ctx s) ''Authorization'') = Inr cl \<and>
      bearer_auth g os J manager nxt s = nxt (on_ctx (gin_set g ''auth_subject'' (cl_subject cl)) s0))"
proof (cases manager)
  case None
  then show ?thesis by (auto simp: bearer_auth_def reject_unauthorized_def)
next
  case (Some m)
  obtain now s0 where 1: "call_os (os_now os) s = (now, s0)" by fastforce
  then have c: "ht_ctx s0 = ht_ctx s" by (simp add: call_os_ctx)
  show ?thesis
  proof (cases "parse_token J m now (gin_get_header g (ht_ctx s) ''Authorization'')")
    case (Inl err)
    then show ?thesis using c by (intro disjI1 exI [of _ s0]) (simp add: bearer_auth_def Some 1 reject_unauthorized_def)
  next
    case (Inr cl)
    then show ?thesis using c
      by (intro disjI2 exI [of _ m] exI [of _ now] exI [of _ cl] exI [of _ s0])
         (simp add: bearer_auth_def Some 1 auth_subject_key_def)
  qed
qed

text \<open>
  CORS grants an origin, with credentials, exactly when it is on the allow list, both trimmed:
  the allowing header of the response then names this origin and no other; otherwise the
  middleware sets none. The preflight gets its answer here; every other request goes on.
\<close>

theorem cors_allow_list:
  assumes "gin_ok g"
  shows "\<exists>c'. cors g origins nxt s =
       (if gin_method g (ht_ctx s) = ''OPTIONS'' then Returned () (on_ctx (\<lambda>_. gin_abort_status g 204 c') s)
        else nxt (on_ctx (\<lambda>_. c') s)) \<and>
     (if trim_space (gin_get_header g (ht_ctx s) ''Origin'') \<in> set (map trim_space origins) - {[]}
      then gin_resp_header g c' ''Access-Control-Allow-Origin'' =
             Some (trim_space (gin_get_header g (ht_ctx s) ''Origin'')) \<and>
           gin_resp_header g c' ''Access-Control-Allow-Credentials'' = Some ''true'' \<and>
           gin_resp_header g c' ''Vary'' = Some ''Origin''
      else c' = ht_ctx s)"
  using assms
  by (intro exI [of _ "cors_ctx g origins (ht_ctx s)"])
     (auto simp: cors_eq on_ctx_def cors_ctx_def cors_headers_origin Let_def)

definition sample_os :: "nat os_lib" where
  "sample_os = \<lparr>os_now = (\<lambda>w. (int w * second, w + 1)), os_uuid = (\<lambda>w. (''uuid'', w)), os_stack = (\<lambda>w. (''stack'', w))\<rparr>"

type_synonym ('d) sample_http = "((('d body, unit ctx) sample_ctx), nat, token_bucket, int) http"

definition sample_http :: "string \<Rightarrow> string \<Rightarrow> (string \<times> string) list \<Rightarrow> 'd sample_http" where
  "sample_http method path headers =
     \<lparr>ht_ctx = sample_request method path headers background, ht_app = \<lparr>app_world = 1, app_logs = []\<rparr>, ht_limiter = None\<rparr>"

lemma sample_uuid_ok: "uuid_ok sample_os"
  by (simp add: uuid_ok_def sample_os_def)

theorem trace_logger_traces_witness:
  "\<exists>s1 :: unit sample_http. gin_get_string sample_gin (ht_ctx s1) ''trace_id'' = ''r-1'' \<and>
     (\<exists>s3. trace_logger sample_gin sample_os True [] (Returned ())
        (sample_http ''GET'' ''/health'' [(''X-Request-ID'', ''r-1'')] :: unit sample_http) = Returned () s3)"
proof -
  let ?s = "sample_http ''GET'' ''/health'' [(''X-Request-ID'', ''r-1'')] :: unit sample_http"
  have h: "gin_get_header sample_gin (ht_ctx ?s) ''X-Request-ID'' = ''r-1''"
    by (simp add: sample_http_def sample_request_def sample_gin_def)
  show ?thesis
    using trace_logger_traces [OF sample_gin_ok sample_uuid_ok, where s = ?s and nxt = "Returned ()" and audit = True and excludes = "[]"]
    unfolding h by auto
qed

theorem cors_allow_list_witness:
  "\<exists>c'. cors sample_gin ['' http://a ''] (Returned ())
       (sample_http ''GET'' ''/x'' [(''Origin'', ''http://a'')] :: unit sample_http) =
       Returned () (on_ctx (\<lambda>_. c') (sample_http ''GET'' ''/x'' [(''Origin'', ''http://a'')])) \<and>
     gin_resp_header sample_gin c' ''Access-Control-Allow-Origin'' = Some ''http://a''"
proof -
  let ?s = "sample_http ''GET'' ''/x'' [(''Origin'', ''http://a'')] :: unit sample_http"
  have h: "gin_get_header sample_gin (ht_ctx ?s) ''Origin'' = ''http://a''" "gin_method sample_gin (ht_ctx ?s) = ''GET''"
    by (simp_all add: sample_http_def sample_request_def sample_gin_def)
  have t: "trim_space ''http://a'' = ''http://a''" "trim_space '' http://a '' = ''http://a''" by code_simp+
  show ?thesis
    using cors_allow_list [OF sample_gin_ok, where s = ?s and origins = "['' http://a '']" and nxt = "Returned ()"]
    unfolding h by (auto simp: t)
qed

end
