(* ===== verification/Repository.thy ===== *)
theory Repository
  imports Effects "HOL-Library.Sublist"
begin

text \<open>
  \<open>internal/model\<close> and \<open>internal/repository\<close>: the example table, and transactions carried by
  contexts. GORM is a parameter.
\<close>

section \<open>The model\<close>

record example =
  ex_id :: nat
  ex_name :: string
  ex_created_at :: int
  ex_updated_at :: int

definition table_name :: string where
  "table_name = ''examples''"

text \<open>A Go struct literal leaves what it does not name at its zero value.\<close>

definition new_example :: "string \<Rightarrow> example" where
  "new_example name = \<lparr>ex_id = 0, ex_name = name, ex_created_at = 0, ex_updated_at = 0\<rparr>"

section \<open>GORM\<close>

text \<open>
  The functions of \<open>*gorm.DB\<close> the program calls, for a non-nil handle \<open>'db\<close> (a connection or an
  open transaction) over the outside state \<open>'w\<close>. \<open>Create\<close> fills in the row it is given;
  \<open>Find\<close> is called with an order, a limit and an offset; \<open>Transaction\<close> runs a callback on the
  handle of a new transaction. A call on a nil handle dereferences nil.
\<close>

type_synonym ('db, 'w) tx_body = "'db \<Rightarrow> 'w app \<Rightarrow> (go_error option, 'w app) outcome"

record ('db, 'w) gorm =
  gorm_with_context :: "'db ctx option \<Rightarrow> 'db \<Rightarrow> 'db"
  gorm_create :: "'db \<Rightarrow> example \<Rightarrow> 'w \<Rightarrow> (go_error option \<times> example) \<times> 'w"
  gorm_count :: "'db \<Rightarrow> 'w \<Rightarrow> (go_error + int) \<times> 'w"
  gorm_find :: "'db \<Rightarrow> string \<Rightarrow> int \<Rightarrow> int \<Rightarrow> 'w \<Rightarrow> (go_error + example list) \<times> 'w"
  gorm_transaction :: "'db \<Rightarrow> ('db, 'w) tx_body \<Rightarrow> 'w app \<Rightarrow> (go_error option, 'w app) outcome"

section \<open>Transactions (tx.go)\<close>

definition errNilDB :: go_error where
  "errNilDB = Plain ''repository: database connection is required''"
definition errNilTxFn :: go_error where
  "errNilTxFn = Plain ''repository: transaction callback is required''"

definition normalize_context :: "'db ctx option \<Rightarrow> 'db ctx" where
  "normalize_context c = (case c of None \<Rightarrow> background | Some c \<Rightarrow> c)"

definition tx_from_context :: "'db ctx option \<Rightarrow> 'db option" where
  "tx_from_context c =
     (case c of
        None \<Rightarrow> None
      | Some c \<Rightarrow> (case ctx_tx c of None \<Rightarrow> None | Some tx \<Rightarrow> tx))"

definition db_from_context :: "'db ctx option \<Rightarrow> 'db option \<Rightarrow> 'db option" where
  "db_from_context c db =
     (case tx_from_context c of Some tx \<Rightarrow> Some tx | None \<Rightarrow> db)"

definition with_tx :: "'db ctx option \<Rightarrow> 'db option \<Rightarrow> 'db ctx" where
  "with_tx c tx = TxEntry tx # normalize_context c"

type_synonym ('db, 'w) tx_fn = "'db ctx \<Rightarrow> 'w app \<Rightarrow> (go_error option, 'w app) outcome"

definition in_tx ::
    "('db, 'w) gorm \<Rightarrow> 'db ctx option \<Rightarrow> 'db option \<Rightarrow> ('db, 'w) tx_fn option \<Rightarrow>
     'w app \<Rightarrow> (go_error option, 'w app) outcome" where
  "in_tx G c db fn s =
     (case fn of
        None \<Rightarrow> Returned (Some errNilTxFn) s
      | Some fn \<Rightarrow>
          if tx_from_context c \<noteq> None then fn (normalize_context c) s
          else
            (case db of
               None \<Rightarrow> Returned (Some errNilDB) s
             | Some db \<Rightarrow>
                 let base_ctx = normalize_context c
                 in gorm_transaction G (gorm_with_context G (Some base_ctx) db)
                      (\<lambda>tx. fn (with_tx (Some base_ctx) (Some tx))) s))"

section \<open>The example repository (example.go)\<close>

record 'db example_repo =
  repo_db :: "'db option"

definition new_example_repository :: "'db option \<Rightarrow> 'db example_repo" where
  "new_example_repository db = \<lparr>repo_db = db\<rparr>"

text \<open>\<open>Create\<close> writes through its pointer: the row as the database filled it in.\<close>

definition repo_create ::
    "('db, 'w) gorm \<Rightarrow> 'db example_repo \<Rightarrow> 'db ctx option \<Rightarrow> example \<Rightarrow>
     'w app \<Rightarrow> (go_error option \<times> example, 'w app) outcome" where
  "repo_create G r c ex s =
     (case db_from_context c (repo_db r) of
        None \<Rightarrow> Panicked nil_dereference s
      | Some db \<Rightarrow>
          (case call_world (gorm_create G (gorm_with_context G c db) ex) s of
             (res, s) \<Rightarrow> Returned res s))"

definition repo_list ::
    "('db, 'w) gorm \<Rightarrow> 'db example_repo \<Rightarrow> 'db ctx option \<Rightarrow> int \<Rightarrow> int \<Rightarrow>
     'w app \<Rightarrow> (go_error + example list \<times> int, 'w app) outcome" where
  "repo_list G r c limit offset s =
     (case db_from_context c (repo_db r) of
        None \<Rightarrow> Panicked nil_dereference s
      | Some db \<Rightarrow>
          let db = gorm_with_context G c db in
          (case call_world (gorm_count G db) s of
             (Inl err, s) \<Rightarrow> Returned (Inl err) s
           | (Inr n, s) \<Rightarrow>
               (case call_world (gorm_find G db ''id DESC'' limit offset) s of
                  (Inl err, s) \<Rightarrow> Returned (Inl err) s
                | (Inr examples, s) \<Rightarrow> Returned (Inr (examples, n)) s)))"

section \<open>What GORM promises\<close>

text \<open>
  \<open>Transaction\<close> begins a transaction, runs the callback on it, commits when the callback returns
  nil and rolls back when it returns an error or panics. \<open>committed\<close> is the part of the outside
  state other connections see, \<open>is_tx\<close> the handles of open transactions.
\<close>

record ('db, 'w, 't) tx_model =
  tm_begin :: "'db \<Rightarrow> 'w \<Rightarrow> (go_error + 'db) \<times> 'w"
  tm_commit :: "'db \<Rightarrow> 'w \<Rightarrow> go_error option \<times> 'w"
  tm_rollback :: "'db \<Rightarrow> 'w \<Rightarrow> 'w"
  tm_committed :: "'w \<Rightarrow> 't"
  tm_is_tx :: "'db \<Rightarrow> bool"

definition run_transaction ::
    "('db, 'w, 't) tx_model \<Rightarrow> 'db \<Rightarrow> ('db, 'w) tx_body \<Rightarrow> 'w app \<Rightarrow> (go_error option, 'w app) outcome" where
  "run_transaction T db body s =
     (case call_world (tm_begin T db) s of
        (Inl e, s1) \<Rightarrow> Returned (Some e) s1
      | (Inr tx, s1) \<Rightarrow>
          (case body tx s1 of
             Returned None s2 \<Rightarrow> (case call_world (tm_commit T tx) s2 of (r, s3) \<Rightarrow> Returned r s3)
           | Returned (Some e) s2 \<Rightarrow> Returned (Some e) (s2\<lparr>app_world := tm_rollback T tx (app_world s2)\<rparr>)
           | Panicked p s2 \<Rightarrow> Panicked p (s2\<lparr>app_world := tm_rollback T tx (app_world s2)\<rparr>)))"

definition gorm_tx_ok :: "('db, 'w) gorm \<Rightarrow> ('db, 'w, 't) tx_model \<Rightarrow> bool" where
  "gorm_tx_ok G T \<longleftrightarrow>
     (\<forall>db body s. gorm_transaction G db body s = run_transaction T db body s) \<and>
     (\<forall>db w. tm_committed T (snd (tm_begin T db w)) = tm_committed T w \<and>
             (\<forall>tx. fst (tm_begin T db w) = Inr tx \<longrightarrow> tm_is_tx T tx)) \<and>
     (\<forall>db w. tm_committed T (tm_rollback T db w) = tm_committed T w) \<and>
     (\<forall>db w. fst (tm_commit T db w) \<noteq> None \<longrightarrow> tm_committed T (snd (tm_commit T db w)) = tm_committed T w) \<and>
     (\<forall>c db. tm_is_tx T db \<longrightarrow> tm_is_tx T (gorm_with_context G c db)) \<and>
     (\<forall>db ex w. tm_is_tx T db \<longrightarrow> tm_committed T (snd (gorm_create G db ex w)) = tm_committed T w) \<and>
     (\<forall>db w. tm_is_tx T db \<longrightarrow> tm_committed T (snd (gorm_count G db w)) = tm_committed T w) \<and>
     (\<forall>db ord l k w. tm_is_tx T db \<longrightarrow> tm_committed T (snd (gorm_find G db ord l k w)) = tm_committed T w)"

text \<open>
  The queries of \<open>List\<close>, on the rows \<open>rows db w\<close> a handle sees, when nothing else writes in
  between: \<open>Count\<close> counts them and \<open>Find\<close> returns the window of them, newest first.
\<close>

definition newest_first :: "example list \<Rightarrow> example list" where
  "newest_first rows = rev (sort_key ex_id rows)"

definition gorm_reads_ok :: "('db, 'w) gorm \<Rightarrow> ('db \<Rightarrow> 'w \<Rightarrow> example list) \<Rightarrow> bool" where
  "gorm_reads_ok G rows \<longleftrightarrow>
     (\<forall>c db w. rows (gorm_with_context G c db) w = rows db w) \<and>
     (\<forall>db db' w. rows db' (snd (gorm_count G db w)) = rows db' w \<and>
        (\<forall>n. fst (gorm_count G db w) = Inr n \<longrightarrow> n = int (length (rows db w)))) \<and>
     (\<forall>db db' l k w. 0 \<le> l \<longrightarrow> 0 \<le> k \<longrightarrow>
        rows db' (snd (gorm_find G db ''id DESC'' l k w)) = rows db' w \<and>
        (\<forall>xs. fst (gorm_find G db ''id DESC'' l k w) = Inr xs \<longrightarrow>
           xs = take (nat l) (drop (nat k) (newest_first (rows db w)))))"

text \<open>
  An insert that succeeds adds the row, under an id above those of the rows before (the primary key
  is an autoincrement); one that fails adds none.
\<close>

definition gorm_create_ok :: "('db, 'w) gorm \<Rightarrow> ('db \<Rightarrow> 'w \<Rightarrow> example list) \<Rightarrow> bool" where
  "gorm_create_ok G rows \<longleftrightarrow>
     (\<forall>db ex w. case gorm_create G db ex w of
        ((None, ex'), w') \<Rightarrow> rows db w' = rows db w @ [ex'] \<and> ex_name ex' = ex_name ex \<and>
          (\<forall>e \<in> set (rows db w). ex_id e < ex_id ex')
      | ((Some err, ex'), w') \<Rightarrow> rows db w' = rows db w)"

section \<open>Lemmas\<close>

lemma tx_from_context_simps [simp]:
  "tx_from_context None = None" "tx_from_context (Some background) = None"
  "tx_from_context (Some (with_tx c tx)) = tx"
  "tx_from_context (Some (normalize_context c)) = tx_from_context c"
  by (auto simp: tx_from_context_def with_tx_def normalize_context_def background_def split: option.split)

lemma normalize_context_Some [simp]: "normalize_context (Some c) = c"
  by (simp add: normalize_context_def)

lemma tx_from_with_trace [simp]: "tx_from_context (Some (with_trace_id (Some c) t)) = tx_from_context (Some c)"
  by (simp add: tx_from_context_def)

lemma tx_from_ensure [simp]:
  "tx_from_context (Some (ensure_trace_id c t)) = tx_from_context c"
  by (cases c) (auto simp: ensure_trace_id_cases with_trace_id_def background_def tx_from_context_def)

lemma db_from_context_tx [simp]: "db_from_context (Some (with_tx c (Some tx))) db = Some tx"
  by (simp add: db_from_context_def)

lemma in_tx_nested [simp]: "in_tx G (Some (with_tx c (Some tx))) db (Some fn) = fn (with_tx c (Some tx))"
  by (rule ext) (simp add: in_tx_def)

lemma newest_first_sorted: "sorted_wrt (\<lambda>a b. ex_id b \<le> ex_id a) (newest_first rows)"
proof -
  have "sorted_wrt (\<lambda>a b. ex_id a \<le> ex_id b) (sort_key ex_id rows)"
    using sorted_sort_key [of ex_id rows] by (simp add: sorted_map)
  then show ?thesis by (simp add: newest_first_def sorted_wrt_rev)
qed

lemma length_newest_first [simp]: "length (newest_first rows) = length rows"
  by (simp add: newest_first_def)

lemma set_newest_first [simp]: "set (newest_first rows) = set rows"
  by (simp add: newest_first_def)

lemma newest_first_snoc:
  assumes "\<forall>e \<in> set rows. ex_id e < ex_id x"
  shows "newest_first (rows @ [x]) = x # newest_first rows"
proof -
  have ins: "insort_key ex_id y (zs @ [x]) = insort_key ex_id y zs @ [x]" if "ex_id y < ex_id x" for y and zs :: "example list"
    using that by (induction zs) auto
  have "sort_key ex_id (rows @ [x]) = sort_key ex_id rows @ [x]"
    using assms by (induction rows) (simp_all add: ins)
  then show ?thesis by (simp add: newest_first_def)
qed

text \<open>What a repository call inside a transaction leaves alone.\<close>

lemma repo_create_in_tx:
  assumes "gorm_tx_ok G T" "tm_is_tx T tx" "db_from_context c (repo_db r) = Some tx"
  shows "tm_committed T (app_world (outcome_state (repo_create G r c ex s))) = tm_committed T (app_world s)"
  using assms
  by (auto simp: repo_create_def gorm_tx_ok_def call_world_def split: prod.split) (metis snd_conv)

lemma in_tx_failure:
  assumes ok: "gorm_tx_ok G T" and outer: "tx_from_context c = None"
    and body: "\<And>tx s. tm_is_tx T tx \<Longrightarrow>
      tm_committed T (app_world (outcome_state (fn (with_tx (Some (normalize_context c)) (Some tx)) s))) =
      tm_committed T (app_world s)"
    and fail: "case in_tx G c db (Some fn) s of Returned r s' \<Rightarrow> r \<noteq> None | Panicked p s' \<Rightarrow> True"
  shows "tm_committed T (app_world (outcome_state (in_tx G c db (Some fn) s))) = tm_committed T (app_world s)"
proof (cases db)
  case None
  then show ?thesis using outer by (simp add: in_tx_def)
next
  case (Some d)
  define d' where "d' = gorm_with_context G (Some (normalize_context c)) d"
  define b where "b = (\<lambda>tx. fn (with_tx (Some (normalize_context c)) (Some tx)))"
  have eq: "in_tx G c db (Some fn) s = run_transaction T d' b s"
    using ok outer Some by (simp add: in_tx_def gorm_tx_ok_def d'_def b_def Let_def)
  obtain r w where beg: "tm_begin T d' (app_world s) = (r, w)" by fastforce
  have w: "tm_committed T w = tm_committed T (app_world s)"
    using ok beg unfolding gorm_tx_ok_def by (metis snd_conv)
  show ?thesis
  proof (cases r)
    case (Inl e)
    then show ?thesis using w beg by (simp add: eq run_transaction_def call_world_def)
  next
    case (Inr tx)
    have tx: "tm_is_tx T tx" using ok beg Inr unfolding gorm_tx_ok_def by (metis fst_conv)
    define s1 where "s1 = s\<lparr>app_world := w\<rparr>"
    have s1: "tm_committed T (app_world (outcome_state (b tx s1))) = tm_committed T (app_world s)"
      using body [OF tx, of s1] w by (simp add: b_def s1_def)
    have rb: "tm_committed T (tm_rollback T tx v) = tm_committed T v" for v
      using ok unfolding gorm_tx_ok_def by blast
    have cm: "tm_committed T (snd (tm_commit T tx v)) = tm_committed T v" if "fst (tm_commit T tx v) \<noteq> None" for v
      using ok that unfolding gorm_tx_ok_def by blast
    have run: "run_transaction T d' b s =
      (case b tx s1 of
             Returned None s2 \<Rightarrow> (case call_world (tm_commit T tx) s2 of (r, s3) \<Rightarrow> Returned r s3)
           | Returned (Some e) s2 \<Rightarrow> Returned (Some e) (s2\<lparr>app_world := tm_rollback T tx (app_world s2)\<rparr>)
           | Panicked p s2 \<Rightarrow> Panicked p (s2\<lparr>app_world := tm_rollback T tx (app_world s2)\<rparr>))"
      using beg Inr by (simp add: run_transaction_def call_world_def s1_def)
    show ?thesis
      using s1 fail cm unfolding eq run
      by (auto simp: rb call_world_def split: outcome.splits option.splits prod.splits)
         (metis fst_conv snd_conv option.distinct(1))
  qed
qed

section \<open>A database to try the theorems on\<close>

text \<open>
  One table whose ids count up. A transaction works on a copy of the rows that \<open>Commit\<close>
  installs. A name over 255 bytes violates the column type.
\<close>

datatype sample_handle = Conn | Tx

record sample_db =
  sdb_rows :: "example list"
  sdb_pending :: "example list"

definition sample_rows :: "sample_handle \<Rightarrow> sample_db \<Rightarrow> example list" where
  "sample_rows h w = (case h of Conn \<Rightarrow> sdb_rows w | Tx \<Rightarrow> sdb_pending w)"

definition sample_insert :: "sample_handle \<Rightarrow> example \<Rightarrow> sample_db \<Rightarrow> (go_error option \<times> example) \<times> sample_db" where
  "sample_insert h ex w =
     (if 255 < length (ex_name ex) then ((Some (Foreign ''value too long''), ex), w)
      else let ex = ex\<lparr>ex_id := foldr max (map ex_id (sample_rows h w)) 0 + 1\<rparr> in
           ((None, ex),
            (case h of Conn \<Rightarrow> w\<lparr>sdb_rows := sdb_rows w @ [ex]\<rparr>
             | Tx \<Rightarrow> w\<lparr>sdb_pending := sdb_pending w @ [ex]\<rparr>)))"

definition sample_tx :: "(sample_handle, sample_db, example list) tx_model" where
  "sample_tx =
     \<lparr>tm_begin = (\<lambda>db w. (Inr Tx, w\<lparr>sdb_pending := sdb_rows w\<rparr>)),
      tm_commit = (\<lambda>tx w. (None, w\<lparr>sdb_rows := sdb_pending w\<rparr>)),
      tm_rollback = (\<lambda>tx w. w\<lparr>sdb_pending := []\<rparr>),
      tm_committed = sdb_rows, tm_is_tx = (\<lambda>h. h = Tx)\<rparr>"

definition sample_gorm :: "(sample_handle, sample_db) gorm" where
  "sample_gorm =
     \<lparr>gorm_with_context = (\<lambda>c db. db), gorm_create = sample_insert,
      gorm_count = (\<lambda>db w. (Inr (int (length (sample_rows db w))), w)),
      gorm_find = (\<lambda>db ord l k w. (Inr (take (nat l) (drop (nat k) (newest_first (sample_rows db w)))), w)),
      gorm_transaction = run_transaction sample_tx\<rparr>"

lemma sample_gorm_tx_ok: "gorm_tx_ok sample_gorm sample_tx"
  by (auto simp: gorm_tx_ok_def sample_gorm_def sample_tx_def sample_insert_def Let_def)

lemma sample_gorm_reads_ok: "gorm_reads_ok sample_gorm sample_rows"
  by (auto simp: gorm_reads_ok_def sample_gorm_def)

lemma sample_gorm_create_ok: "gorm_create_ok sample_gorm sample_rows"
proof -
  have le: "e \<in> set rows \<Longrightarrow> ex_id e \<le> foldr max (map ex_id rows) 0" for e and rows :: "example list"
    by (induction rows) auto
  show ?thesis
    by (auto simp: gorm_create_ok_def sample_gorm_def sample_insert_def Let_def less_Suc_eq_le sample_rows_def
        split: sample_handle.splits intro: le)
qed

definition empty_db :: "sample_db app" where
  "empty_db = \<lparr>app_world = \<lparr>sdb_rows = [], sdb_pending = []\<rparr>, app_logs = []\<rparr>"

section \<open>Properties\<close>

text \<open>
  C36. Transactions nest by joining: a callback that calls \<open>InTx\<close> again, on whatever database,
  runs in the transaction already open, so that the inner call is the same as calling the inner
  callback. A missing callback or connection is an error and changes nothing.
\<close>

theorem in_tx_joins:
  "in_tx G c db (Some (\<lambda>c'. in_tx G (Some c') db' (Some fn))) s = in_tx G c db (Some fn) s \<and>
   in_tx G c db None s = Returned (Some errNilTxFn) s \<and>
   in_tx G None None (Some fn) s = Returned (Some errNilDB) s"
proof (cases "tx_from_context c")
  case None
  then show ?thesis by (cases db) (simp_all add: in_tx_def [of G _ _ "Some _"] in_tx_def [of G _ _ None] Let_def)
next
  case (Some tx)
  then show ?thesis by (simp add: in_tx_def)
qed

text \<open>A callback that stores one example after the other and stops at the first error.\<close>

fun create_examples ::
    "('db, 'w) gorm \<Rightarrow> 'db example_repo \<Rightarrow> string list \<Rightarrow> ('db, 'w) tx_fn" where
  "create_examples G r [] c s = Returned None s"
| "create_examples G r (n # ns) c s =
     and_then (repo_create G r (Some c) (new_example n) s)
       (\<lambda>res s. if fst res = None then create_examples G r ns c s else Returned (fst res) s)"

lemma create_examples_in_tx:
  assumes "gorm_tx_ok G T" "tm_is_tx T tx" "tx_from_context (Some c) = Some tx"
  shows "tm_committed T (app_world (outcome_state (create_examples G r ns c s))) = tm_committed T (app_world s)"
proof (induction ns arbitrary: s)
  case (Cons n ns)
  have "db_from_context (Some c) (repo_db r) = Some tx" using assms(3) by (simp add: db_from_context_def)
  from repo_create_in_tx [OF assms(1,2) this, of "new_example n" s] Cons show ?case
    by (cases "repo_create G r (Some c) (new_example n) s") auto
qed simp

text \<open>
  C6. Repository writes inside \<open>InTx\<close> are all or nothing: when storing a list of examples in a
  transaction ends in an error or a panic (of one of the inserts, of the begin or of the commit),
  no connection sees any of them, although the repository was made with a plain connection: its
  calls use the transaction of the context. Under what GORM documents of transactions.
\<close>

theorem in_tx_all_or_nothing:
  assumes "gorm_tx_ok G T" and "tx_from_context c = None"
    and "in_tx G c db (Some (create_examples G r names)) s = out"
    and "case out of Returned err s' \<Rightarrow> err \<noteq> None | Panicked p s' \<Rightarrow> True"
  shows "tm_committed T (app_world (outcome_state out)) = tm_committed T (app_world s)"
  unfolding assms(3) [symmetric]
  using assms by (intro in_tx_failure create_examples_in_tx) auto

definition sample_names :: "string list" where
  "sample_names = [''a'', ''b'', replicate 300 CHR ''x'']"

theorem in_tx_all_or_nothing_witness:
  "\<exists>e s'. in_tx sample_gorm None (Some Conn) (Some (create_examples sample_gorm \<lparr>repo_db = Some Conn\<rparr> sample_names))
        empty_db = Returned (Some e) s' \<and> sdb_rows (app_world s') = []"
proof -
  let ?out = "in_tx sample_gorm None (Some Conn)
      (Some (create_examples sample_gorm \<lparr>repo_db = Some Conn\<rparr> sample_names)) empty_db"
  have "case ?out of Returned e s' \<Rightarrow> e = Some (Foreign ''value too long'') | Panicked p s' \<Rightarrow> False"
    by code_simp
  then have "\<exists>s'. ?out = Returned (Some (Foreign ''value too long'')) s'" by (auto split: outcome.splits)
  then obtain s' where out: "?out = Returned (Some (Foreign ''value too long'')) s'" ..
  have "tm_committed sample_tx (app_world (outcome_state ?out)) = tm_committed sample_tx (app_world empty_db)"
    by (rule in_tx_all_or_nothing [OF sample_gorm_tx_ok _ refl]) (simp_all add: out)
  then show ?thesis using out by (simp add: sample_tx_def empty_db_def)
qed

end
