(* ===== verification/Service.thy ===== *)
theory Service
  imports TaskQueue Repository
begin

text \<open>
  \<open>internal/service\<close>: the example application flow over two interfaces. A value of an interface
  is the record of its methods, already applied to their receiver; \<open>None\<close> is the nil interface,
  which a nil \<open>*Queue\<close> stored in the interface is not.
\<close>

record ('db, 'w) repository_iface =
  ri_create :: "'db ctx option \<Rightarrow> example \<Rightarrow> 'w app \<Rightarrow> (go_error option \<times> example, 'w app) outcome"
  ri_list :: "'db ctx option \<Rightarrow> int \<Rightarrow> int \<Rightarrow> 'w app \<Rightarrow> (go_error + example list \<times> int, 'w app) outcome"

record ('db, 'i, 'w) queue_iface =
  qi_available :: bool
  qi_enqueue :: "'db ctx option \<Rightarrow> task option \<Rightarrow> task_option list \<Rightarrow> 'w \<Rightarrow> (go_error + 'i) \<times> 'w"

text \<open>The two implementations, of \<open>internal/repository\<close> and \<open>internal/taskqueue\<close>.\<close>

definition repository_value :: "('db, 'w) gorm \<Rightarrow> 'db example_repo \<Rightarrow> ('db, 'w) repository_iface" where
  "repository_value G r = \<lparr>ri_create = repo_create G r, ri_list = repo_list G r\<rparr>"

definition queue_value ::
    "('q, 'db, 'i, 'w) enqueue_fn \<Rightarrow> 'q queue option \<Rightarrow> ('db, 'i, 'w) queue_iface" where
  "queue_value aq_enqueue q = \<lparr>qi_available = available q, qi_enqueue = enqueue aq_enqueue q\<rparr>"

record ('db, 'i, 'w) example_service =
  svc_repo :: "('db, 'w) repository_iface option"
  svc_queue :: "('db, 'i, 'w) queue_iface option"

definition new_example_service ::
    "('db, 'w) repository_iface option \<Rightarrow> ('db, 'i, 'w) queue_iface option list \<Rightarrow>
     ('db, 'i, 'w) example_service" where
  "new_example_service repo queue =
     \<lparr>svc_repo = repo, svc_queue = (case queue of [] \<Rightarrow> None | q # _ \<Rightarrow> q)\<rparr>"

definition svc_create ::
    "('db, 'i, 'w) example_service \<Rightarrow> 'db ctx option \<Rightarrow> string \<Rightarrow> 'w app \<Rightarrow>
     (go_error + example, 'w app) outcome" where
  "svc_create svc c name s =
     (case svc_repo svc of
        None \<Rightarrow> Panicked nil_dereference s
      | Some repo \<Rightarrow>
          and_then (ri_create repo c (new_example name) s) (\<lambda>res s.
            case res of
              (Some err, _) \<Rightarrow>
                Returned (Inl (Coded DatabaseError))
                  (add_log (ctx_log c ''error'' ''failed to create example'' [(''error'', FErr err)]) s)
            | (None, ex) \<Rightarrow> Returned (Inr ex) s))"

text \<open>\<open>EnqueueTask\<close>: the result is \<open>EnqueueExampleTaskRes\<close>, whose only field is \<open>Queued\<close>.\<close>

definition svc_enqueue_task ::
    "('db, 'i, 'w) example_service \<Rightarrow> 'db ctx option \<Rightarrow> string \<Rightarrow> 'w app \<Rightarrow>
     (go_error + bool) \<times> 'w app" where
  "svc_enqueue_task svc c name s =
     (case svc_queue svc of
        None \<Rightarrow> (Inl (Coded QueueUnavailable), s)
      | Some queue \<Rightarrow>
          if \<not> qi_available queue then (Inl (Coded QueueUnavailable), s)
          else
            (case new_example_task name [trace_id_from c] of
               Inl err \<Rightarrow>
                 (Inl (Coded QueueError),
                  add_log (ctx_log c ''error'' ''failed to create example task'' [(''error'', FErr err)]) s)
             | Inr t \<Rightarrow>
                 (case call_world (qi_enqueue queue c (Some t) []) s of
                    (Inl err, s) \<Rightarrow>
                      (Inl (Coded QueueError),
                       add_log (ctx_log c ''error'' ''failed to enqueue example task'' [(''error'', FErr err)]) s)
                  | (Inr _, s) \<Rightarrow> (Inr True, s))))"

text \<open>\<open>List\<close>: a limit of 0 counts as 20.\<close>

record list_res =
  lr_examples :: "example list"
  lr_total :: int

definition svc_list ::
    "('db, 'i, 'w) example_service \<Rightarrow> 'db ctx option \<Rightarrow> int \<Rightarrow> int \<Rightarrow> 'w app \<Rightarrow>
     (go_error + list_res, 'w app) outcome" where
  "svc_list svc c limit offset s =
     (let limit = (if limit = 0 then 20 else limit) in
      case svc_repo svc of
        None \<Rightarrow> Panicked nil_dereference s
      | Some repo \<Rightarrow>
          and_then (ri_list repo c limit offset s) (\<lambda>res s.
            case res of
              Inl err \<Rightarrow>
                Returned (Inl (Coded DatabaseError))
                  (add_log (ctx_log c ''error'' ''failed to list examples'' [(''error'', FErr err)]) s)
            | Inr (examples, n) \<Rightarrow> Returned (Inr \<lparr>lr_examples = examples, lr_total = n\<rparr>) s))"

section \<open>The interfaces\<close>

text \<open>
  A repository writes no log entries of its own, so that the service is the one place where a
  failure is logged. The service's logging discipline follows for every such repository.
\<close>

locale quiet_repository =
  fixes create :: "'db ctx option \<Rightarrow> example \<Rightarrow> 'w app \<Rightarrow> (go_error option \<times> example, 'w app) outcome"
    and list :: "'db ctx option \<Rightarrow> int \<Rightarrow> int \<Rightarrow> 'w app \<Rightarrow> (go_error + example list \<times> int, 'w app) outcome"
  assumes create_quiet: "app_logs (outcome_state (create c ex s)) = app_logs s"
    and list_quiet: "app_logs (outcome_state (list c l k s)) = app_logs s"
begin

definition service :: "('db, 'i, 'w) queue_iface option \<Rightarrow> ('db, 'i, 'w) example_service" where
  "service q = \<lparr>svc_repo = Some \<lparr>ri_create = create, ri_list = list\<rparr>, svc_queue = q\<rparr>"

lemma create_discipline:
  "case svc_create (service q) c name s of
     Returned (Inl e) s' \<Rightarrow> e = Coded DatabaseError \<and>
       (\<exists>err. app_logs s' = app_logs s @ [ctx_log c ''error'' ''failed to create example'' [(''error'', FErr err)]])
   | Returned (Inr ex) s' \<Rightarrow> app_logs s' = app_logs s
   | Panicked p s' \<Rightarrow> app_logs s' = app_logs s"
  using create_quiet [of c "new_example name" s]
  by (cases "create c (new_example name) s")
     (auto simp: svc_create_def service_def split: option.splits prod.splits)

lemma list_discipline:
  "case svc_list (service q) c limit offset s of
     Returned (Inl e) s' \<Rightarrow> e = Coded DatabaseError \<and>
       (\<exists>err. app_logs s' = app_logs s @ [ctx_log c ''error'' ''failed to list examples'' [(''error'', FErr err)]])
   | Returned (Inr res) s' \<Rightarrow> app_logs s' = app_logs s
   | Panicked p s' \<Rightarrow> app_logs s' = app_logs s"
  using list_quiet [of c "if limit = 0 then 20 else limit" offset s]
  by (cases "list c (if limit = 0 then 20 else limit) offset s")
     (auto simp: svc_list_def service_def Let_def split: sum.splits prod.splits)

end

interpretation rp: quiet_repository "repo_create G r" "repo_list G r" for G r
proof
  show "app_logs (outcome_state (repo_create G r c ex s)) = app_logs s" for c ex s
    by (simp add: repo_create_def call_world_def split: option.split prod.split)
  show "app_logs (outcome_state (repo_list G r c l k s)) = app_logs s" for c l k s
    by (simp add: repo_list_def call_world_def Let_def split: option.split prod.split sum.split)
qed

context example_queue
begin

definition value_of :: "'p \<Rightarrow> ('db, 'i, 'w) queue_iface" where
  "value_of q = \<lparr>qi_available = avail q, qi_enqueue = enq q\<rparr>"

text \<open>The service never passes the queue what it refuses by contract.\<close>

lemma enqueue_task_calls:
  assumes "svc_queue svc = Some (value_of q)"
  shows "svc_enqueue_task svc c name s =
     (if \<not> avail q then (Inl (Coded QueueUnavailable), s)
      else case new_example_task name [trace_id_from c] of
             Inl err \<Rightarrow> (Inl (Coded QueueError),
                  add_log (ctx_log c ''error'' ''failed to create example task'' [(''error'', FErr err)]) s)
           | Inr t \<Rightarrow>
             (case enq q c (Some t) [] (app_world s) of
                (Inl err, w) \<Rightarrow> (Inl (Coded QueueError),
                  add_log (ctx_log c ''error'' ''failed to enqueue example task'' [(''error'', FErr err)])
                    (s\<lparr>app_world := w\<rparr>))
              | (Inr i, w) \<Rightarrow> (Inr True, s\<lparr>app_world := w\<rparr>)))"
  using assms
  by (simp add: svc_enqueue_task_def value_of_def call_world_def split: sum.split prod.split)

lemma enqueue_task_accepted:
  assumes "svc_queue svc = Some (value_of q)" "svc_enqueue_task svc c name s = (Inr b, s')"
  shows "avail q \<and> b \<and> app_logs s' = app_logs s \<and>
     (\<exists>t i. new_example_task name [trace_id_from c] = Inr t \<and>
            enq q c (Some t) [] (app_world s) = (Inr i, app_world s'))"
  using assms(2) unfolding enqueue_task_calls [OF assms(1)] new_example_task_eq
  by (auto split: if_splits prod.splits sum.splits)

end

section \<open>Lemmas\<close>

lemma new_example_service_repo: "new_example_service (Some (repository_value G r)) qs = rp.service G r (case qs of [] \<Rightarrow> None | q # _ \<Rightarrow> q)"
  by (simp add: new_example_service_def rp.service_def repository_value_def)

lemma list_page:
  assumes "gorm_reads_ok G rows" and "db_from_context c (repo_db r) = Some db" and "0 \<le> limit" "0 \<le> offset"
    and "svc_list (new_example_service (Some (repository_value G r)) qs) c limit offset s = Returned (Inr res) s'"
  shows "lr_total res = int (length (rows db (app_world s)))"
    and "lr_examples res =
      take (if limit = 0 then 20 else nat limit) (drop (nat offset) (newest_first (rows db (app_world s))))"
    and "rows h (app_world s') = rows h (app_world s)"
proof -
  define l where "l = (if limit = 0 then 20 else limit)"
  define d where "d = gorm_with_context G c db"
  have l: "0 \<le> l" using assms(3) by (simp add: l_def)
  have d: "rows d w = rows db w" for w using assms(1) by (simp add: gorm_reads_ok_def d_def)
  have count: "rows h (snd (gorm_count G d w)) = rows h w"
      "fst (gorm_count G d w) = Inr n \<Longrightarrow> n = int (length (rows db w))" for h w n
    using assms(1) d unfolding gorm_reads_ok_def by metis+
  have find: "rows h (snd (gorm_find G d ''id DESC'' l offset w)) = rows h w"
      "fst (gorm_find G d ''id DESC'' l offset w) = Inr xs \<Longrightarrow>
         xs = take (nat l) (drop (nat offset) (newest_first (rows db w)))" for h w xs
    using assms(1,4) l d unfolding gorm_reads_ok_def by metis+
  obtain n w where c: "gorm_count G d (app_world s) = (Inr n, w)"
      and f: "gorm_find G d ''id DESC'' l offset w = (Inr (lr_examples res), app_world s')" and n: "lr_total res = n"
    using assms(2,5)
    by (auto simp: svc_list_def new_example_service_def repository_value_def repo_list_def call_world_def
        Let_def l_def d_def split: prod.splits sum.splits)
  have w: "rows h w = rows h (app_world s)" for h using count(1) [of h "app_world s"] by (simp add: c)
  show "lr_total res = int (length (rows db (app_world s)))"
    using count(2) [of "app_world s" n] by (simp add: c n)
  have "fst (gorm_find G d ''id DESC'' l offset w) = Inr (lr_examples res)" by (simp add: f)
  from find(2) [OF this] show "lr_examples res =
      take (if limit = 0 then 20 else nat limit) (drop (nat offset) (newest_first (rows db (app_world s))))"
    by (simp add: w l_def)
  show "rows h (app_world s') = rows h (app_world s)" using find(1) [of h w] by (simp add: f w)
qed

lemma create_row:
  assumes "gorm_reads_ok G rows" and "gorm_create_ok G rows" and "db_from_context c (repo_db r) = Some db"
    and "svc_create (new_example_service (Some (repository_value G r)) qs) c name s = Returned (Inr ex) s'"
  shows "rows db (app_world s') = rows db (app_world s) @ [ex]" and "ex_name ex = name"
    and "\<forall>e \<in> set (rows db (app_world s)). ex_id e < ex_id ex"
proof -
  define d where "d = gorm_with_context G c db"
  have d: "rows d w = rows db w" for w using assms(1) by (simp add: gorm_reads_ok_def d_def)
  have "gorm_create G d (new_example name) (app_world s) = ((None, ex), app_world s')"
    using assms(3,4)
    by (auto simp: svc_create_def new_example_service_def repository_value_def repo_create_def call_world_def d_def
        split: prod.splits option.splits)
  then have "rows d (app_world s') = rows d (app_world s) @ [ex] \<and> ex_name ex = ex_name (new_example name) \<and>
      (\<forall>e \<in> set (rows d (app_world s)). ex_id e < ex_id ex)"
    using assms(2) unfolding gorm_create_ok_def by (metis (mono_tags, lifting) old.prod.case option.simps(4))
  then show "rows db (app_world s') = rows db (app_world s) @ [ex]" "ex_name ex = name"
      "\<forall>e \<in> set (rows db (app_world s)). ex_id e < ex_id ex"
    by (simp_all add: d new_example_def)
qed

text \<open>A client that asks for \<open>k\<close> pages in a row, each after the last: their examples, if none fails.\<close>

fun fetch_pages ::
    "('db, 'i, 'w) example_service \<Rightarrow> 'db ctx option \<Rightarrow> nat \<Rightarrow> nat \<Rightarrow> nat \<Rightarrow> 'w app \<Rightarrow> example list option" where
  "fetch_pages svc c limit offset 0 s = Some []"
| "fetch_pages svc c limit offset (Suc k) s =
     (case svc_list svc c (int limit) (int offset) s of
        Returned (Inr res) s' \<Rightarrow>
          map_option (\<lambda>xs. lr_examples res @ xs) (fetch_pages svc c limit (offset + limit) k s')
      | _ \<Rightarrow> None)"

lemma fetch_pages_window:
  assumes "gorm_reads_ok G rows" "db_from_context c (repo_db r) = Some db" "0 < limit"
  shows "fetch_pages (new_example_service (Some (repository_value G r)) qs) c limit offset k s = Some xs \<Longrightarrow>
    xs = take (k * limit) (drop offset (newest_first (rows db (app_world s))))"
proof (induction k arbitrary: offset s xs)
  case (Suc k)
  let ?svc = "new_example_service (Some (repository_value G r)) qs"
  from Suc.prems obtain res s' ys where p: "svc_list ?svc c (int limit) (int offset) s = Returned (Inr res) s'"
      and ys: "fetch_pages ?svc c limit (offset + limit) k s' = Some ys" and xs: "xs = lr_examples res @ ys"
    by (auto split: outcome.splits sum.splits)
  note page = list_page [OF assms(1,2) _ _ p, simplified]
  have "lr_examples res = take limit (drop offset (newest_first (rows db (app_world s))))"
    using page(2) assms(3) by simp
  moreover have "ys = take (k * limit) (drop (offset + limit) (newest_first (rows db (app_world s))))"
    using Suc.IH [OF ys] page(3) by simp
  ultimately show ?case by (simp add: xs take_add add.commute)
qed simp

section \<open>Properties\<close>

text \<open>
  The service hides what went wrong and logs it once: with the repository of the program,
  \<open>Create\<close> and \<open>List\<close> either succeed and log nothing, or answer the database error code and log
  exactly one error entry with the trace id of the request and the cause; a panic logs nothing.
\<close>

theorem service_logs_once:
  "(case svc_create (new_example_service (Some (repository_value G r)) qs) c name s of
     Returned (Inl e) s' \<Rightarrow> e = Coded DatabaseError \<and>
       (\<exists>err. app_logs s' = app_logs s @ [ctx_log c ''error'' ''failed to create example'' [(''error'', FErr err)]])
   | Returned (Inr ex) s' \<Rightarrow> app_logs s' = app_logs s
   | Panicked p s' \<Rightarrow> app_logs s' = app_logs s) \<and>
   (case svc_list (new_example_service (Some (repository_value G r)) qs) c limit offset s of
     Returned (Inl e) s' \<Rightarrow> e = Coded DatabaseError \<and>
       (\<exists>err. app_logs s' = app_logs s @ [ctx_log c ''error'' ''failed to list examples'' [(''error'', FErr err)]])
   | Returned (Inr res) s' \<Rightarrow> app_logs s' = app_logs s
   | Panicked p s' \<Rightarrow> app_logs s' = app_logs s)"
  unfolding new_example_service_repo
  by (intro conjI rp.create_discipline rp.list_discipline)

text \<open>
  C20. Paging is complete: a client that asks for page after page gets every row of the table once,
  newest first, when its pages cover the table and nobody writes meanwhile. Under what the
  database promises of the two queries.
\<close>

theorem list_pages_tile:
  assumes "gorm_reads_ok G rows" and "db_from_context c (repo_db r) = Some db" and "0 < limit"
    and "length (rows db (app_world s)) \<le> k * limit"
    and "fetch_pages (new_example_service (Some (repository_value G r)) qs) c limit 0 k s = Some xs"
  shows "xs = newest_first (rows db (app_world s)) \<and> sorted_wrt (\<lambda>a b. ex_id b \<le> ex_id a) xs \<and>
         set xs = set (rows db (app_world s))"
proof -
  from fetch_pages_window [OF assms(1-3,5)] assms(4) have "xs = newest_first (rows db (app_world s))" by simp
  then show ?thesis by (simp add: newest_first_sorted)
qed

definition three_rows :: "sample_db app" where
  "three_rows =
     \<lparr>app_world = \<lparr>sdb_rows = map (\<lambda>i. (new_example ''x'')\<lparr>ex_id := i\<rparr>) [1, 2, 3], sdb_pending = []\<rparr>, app_logs = []\<rparr>"

theorem list_pages_tile_witness:
  "\<exists>xs. fetch_pages (new_example_service (Some (repository_value sample_gorm \<lparr>repo_db = Some Conn\<rparr>))
           ([] :: (sample_handle, unit, sample_db) queue_iface option list)) None 2 0 2 three_rows = Some xs \<and>
        map ex_id xs = [3, 2, 1] \<and> set xs = set (sdb_rows (app_world three_rows))"
proof -
  let ?f = "fetch_pages (new_example_service (Some (repository_value sample_gorm \<lparr>repo_db = Some Conn\<rparr>))
           ([] :: (sample_handle, unit, sample_db) queue_iface option list)) None 2 0 2 three_rows"
  have "map_option (map ex_id) ?f = Some [3, 2, 1]" by code_simp
  then obtain xs where xs: "?f = Some xs" "map ex_id xs = [3, 2, 1]" by auto
  have "db_from_context None (repo_db \<lparr>repo_db = Some Conn\<rparr>) = Some Conn" by (simp add: db_from_context_def)
  from list_pages_tile [OF sample_gorm_reads_ok this _ _ xs(1)] xs
  show ?thesis by (simp add: sample_rows_def three_rows_def)
qed

text \<open>
  What was created is on the first page: when \<open>Create\<close> has succeeded and nobody else writes, a
  \<open>List\<close> from the start, with any limit, shows the new example first, with the name it was
  created with, followed by the examples that were the newest before, and counts one more.
\<close>

theorem created_is_listed_first:
  assumes "gorm_reads_ok G rows" and "gorm_create_ok G rows"
    and "db_from_context c (repo_db r) = Some db" and "db_from_context c' (repo_db r) = Some db" and "0 \<le> limit"
    and "svc_create (new_example_service (Some (repository_value G r)) qs) c name s = Returned (Inr ex) s1"
    and "svc_list (new_example_service (Some (repository_value G r)) qs) c' limit 0 s1 = Returned (Inr res) s2"
  shows "ex_name ex = name \<and> lr_total res = int (length (rows db (app_world s))) + 1 \<and>
     lr_examples res =
       ex # take ((if limit = 0 then 20 else nat limit) - 1) (newest_first (rows db (app_world s)))"
proof -
  note made = create_row [OF assms(1,2,3,6)] and page = list_page [OF assms(1,4,5) _ assms(7), simplified]
  have "0 < (if limit = 0 then 20 else nat limit)" using assms(5) by simp
  then show ?thesis using made page(1,2) by (simp add: newest_first_snoc take_Cons')
qed

definition sample_service :: "(sample_handle, unit, sample_db) example_service" where
  "sample_service = new_example_service (Some (repository_value sample_gorm \<lparr>repo_db = Some Conn\<rparr>)) []"

theorem created_is_listed_first_witness:
  "\<exists>ex s1 res s2. svc_create sample_service None ''new'' three_rows = Returned (Inr ex) s1 \<and>
     svc_list sample_service None 2 0 s1 = Returned (Inr res) s2 \<and> lr_total res = 4 \<and>
     map ex_name (lr_examples res) = [''new'', ''x'']"
proof -
  let ?c = "svc_create sample_service None ''new'' three_rows"
  obtain ex s1 where c: "?c = Returned (Inr ex) s1"
    by (simp add: sample_service_def svc_create_def new_example_service_def repository_value_def repo_create_def
        db_from_context_def call_world_def sample_gorm_def sample_insert_def new_example_def three_rows_def Let_def)
  obtain res s2 where l: "svc_list sample_service None 2 0 s1 = Returned (Inr res) s2"
    by (simp add: sample_service_def svc_list_def new_example_service_def repository_value_def repo_list_def
        db_from_context_def call_world_def sample_gorm_def Let_def)
  have "db_from_context None (repo_db \<lparr>repo_db = Some Conn\<rparr>) = Some Conn" by (simp add: db_from_context_def)
  from created_is_listed_first [OF sample_gorm_reads_ok sample_gorm_create_ok this this _
      c [unfolded sample_service_def] l [unfolded sample_service_def]] c l
  show ?thesis by (auto simp: sample_rows_def three_rows_def newest_first_def new_example_def)
qed

text \<open>
  C22. \<open>EnqueueTask\<close> over the program's queue: without a usable queue (none, a nil pointer in the
  interface, or one without a client) it answers QUEUE_UNAVAILABLE and has no effect. Otherwise
  it asks the client once, with a task of which the worker will decode the name and the trace id
  of the request, and answers that the task is queued exactly when the client accepts it; a
  refusal is logged once and answered with QUEUE_ERROR.
\<close>

theorem enqueue_task_traced:
  "svc_enqueue_task (new_example_service repo []) c name s = (Inl (Coded QueueUnavailable), s) \<and>
   svc_enqueue_task (new_example_service repo [Some (queue_value aq None)]) c name s =
     (Inl (Coded QueueUnavailable), s) \<and>
   (\<exists>t. task_type t = type_example_task \<and>
        unmarshal_payload (task_payload t) =
          (\<lparr>pl_name = to_valid_utf8 name, pl_trace_id = to_valid_utf8 (trim_space (trace_id_from c))\<rparr>, True) \<and>
        trace_id_from_payload (task_payload t) = to_valid_utf8 (trim_space (trace_id_from c)) \<and>
        svc_enqueue_task (new_example_service repo [Some (queue_value aq (new_queue (Some client)))]) c name s =
          (case aq client (normalize_context c) t [] (app_world s) of
             (Inr i, w) \<Rightarrow> (Inr True, s\<lparr>app_world := w\<rparr>)
           | (Inl err, w) \<Rightarrow>
               (Inl (Coded QueueError),
                add_log (ctx_log c ''error'' ''failed to enqueue example task'' [(''error'', FErr err)])
                  (s\<lparr>app_world := w\<rparr>))))"
proof -
  have v: "svc_queue (new_example_service repo [Some (queue_value aq q)]) = Some (tq.value_of aq q)" for q
    by (simp add: new_example_service_def queue_value_def tq.value_of_def)
  note calls = tq.enqueue_task_calls [OF v]
  have none: "svc_enqueue_task (new_example_service repo []) c name s = (Inl (Coded QueueUnavailable), s)"
    by (simp add: svc_enqueue_task_def new_example_service_def)
  define t where "t = \<lparr>task_type = type_example_task, task_payload = json_marshal (payload_fields
            \<lparr>pl_name = name, pl_trace_id = trim_space (trace_id_from c)\<rparr>), task_opts = [MaxRetry 5]\<rparr>"
  have "enqueue aq (new_queue (Some client)) c (Some t) [] w = aq client (normalize_context c) t [] w" for w
    by (simp add: enqueue_def new_queue_def normalize_context_def)
  then have "svc_enqueue_task (new_example_service repo [Some (queue_value aq (new_queue (Some client)))]) c name s =
          (case aq client (normalize_context c) t [] (app_world s) of
             (Inr i, w) \<Rightarrow> (Inr True, s\<lparr>app_world := w\<rparr>)
           | (Inl err, w) \<Rightarrow>
               (Inl (Coded QueueError),
                add_log (ctx_log c ''error'' ''failed to enqueue example task'' [(''error'', FErr err)])
                  (s\<lparr>app_world := w\<rparr>)))"
    by (simp add: calls new_example_task_eq t_def split: prod.split sum.split)
  moreover have "svc_enqueue_task (new_example_service repo [Some (queue_value aq None)]) c name s =
     (Inl (Coded QueueUnavailable), s)"
    by (simp add: calls available_def)
  ultimately show ?thesis using none
    by (intro conjI exI [of _ t]) (simp_all add: t_def unmarshal_payload_fields trace_id_from_payload_fields)
qed

end
