(* ===== verification/Handlers.thy ===== *)
theory Handlers
  imports Middleware Service Infra
begin

text \<open>
  \<open>internal/handler\<close>: the handlers of the routes, over the services they were made with. Binding
  and validating a request is Gin's: \<open>bind_string name\<close> is \<open>ShouldBindJSON\<close> into a struct whose
  one field, the required string \<open>name\<close>, is the result, and \<open>bind_list\<close> is \<open>ShouldBindQuery\<close> of
  the limit and the offset.
\<close>

record 'c binding =
  bind_string :: "string \<Rightarrow> 'c \<Rightarrow> go_error + string"
  bind_list :: "'c \<Rightarrow> go_error + int \<times> int"

text \<open>
  The tags of the request structs of \<open>handler/auth.go\<close> and \<open>service/example.go\<close>, as Gin's validator
  reads them: \<open>required\<close> refuses the zero value, \<open>omitempty\<close> lets it pass.
\<close>

definition create_token_req_tags :: "string \<Rightarrow> bool" where
  "create_token_req_tags subject \<longleftrightarrow> subject \<noteq> []"

definition create_example_req_tags :: "string \<Rightarrow> bool" where
  "create_example_req_tags name \<longleftrightarrow> name \<noteq> []"

definition enqueue_example_task_req_tags :: "string \<Rightarrow> bool" where
  "enqueue_example_task_req_tags name \<longleftrightarrow> name \<noteq> []"

definition list_examples_req_tags :: "int \<Rightarrow> int \<Rightarrow> bool" where
  "list_examples_req_tags limit offset \<longleftrightarrow>
     (limit = 0 \<or> 1 \<le> limit \<and> limit \<le> 100) \<and> (offset = 0 \<or> 0 \<le> offset)"

text \<open>What a successful binding gives: the tags hold, and a string decoded from JSON is valid UTF-8.\<close>

definition binding_ok :: "'c binding \<Rightarrow> bool" where
  "binding_ok B \<longleftrightarrow>
     (\<forall>c v. bind_string B ''subject'' c = Inr v \<longrightarrow> create_token_req_tags v \<and> valid_utf8 v) \<and>
     (\<forall>c v. bind_string B ''name'' c = Inr v \<longrightarrow>
        create_example_req_tags v \<and> enqueue_example_task_req_tags v \<and> valid_utf8 v) \<and>
     (\<forall>c l k. bind_list B c = Inr (l, k) \<longrightarrow> list_examples_req_tags l k)"

text \<open>What the request binds to does not depend on what the program writes to the context.\<close>

definition binding_stable :: "('c, 'b, 'x) gin \<Rightarrow> 'c binding \<Rightarrow> bool" where
  "binding_stable g B \<longleftrightarrow>
     (\<forall>n c k v. bind_string B n (gin_set g k v c) = bind_string B n c) \<and>
     (\<forall>n c k v. bind_string B n (gin_header g k v c) = bind_string B n c) \<and>
     (\<forall>n c x. bind_string B n (gin_with_ctx g x c) = bind_string B n c) \<and>
     (\<forall>c k v. bind_list B (gin_set g k v c) = bind_list B c) \<and>
     (\<forall>c k v. bind_list B (gin_header g k v c) = bind_list B c) \<and>
     (\<forall>c x. bind_list B (gin_with_ctx g x c) = bind_list B c)"

text \<open>The payloads of the success envelopes.\<close>

datatype api_data =
    TokenRes string string
  | MeRes string
  | ExampleRes example
  | ListRes list_res
  | QueuedRes bool

type_synonym ('c, 'db) api_gin = "('c, api_data body, 'db ctx) gin"

section \<open>auth.go\<close>

record auth_handler =
  ah_manager :: "jwt_manager option"

definition new_auth_handler :: "jwt_manager option \<Rightarrow> auth_handler option" where
  "new_auth_handler manager = (if manager = None then None else Some \<lparr>ah_manager = manager\<rparr>)"

definition create_token ::
    "('c, 'db) api_gin \<Rightarrow> 'w os_lib \<Rightarrow> jwt_lib \<Rightarrow> 'c binding \<Rightarrow> auth_handler option \<Rightarrow> ('c, 'w, 'l, 'r) handler" where
  "create_token g os J B h s =
     (case (case h of None \<Rightarrow> None | Some h \<Rightarrow> ah_manager h) of
        None \<Rightarrow> Returned () (on_ctx (write_error g (Coded Unauthorized)) s)
      | Some manager \<Rightarrow>
          (case bind_string B ''subject'' (ht_ctx s) of
             Inl err \<Rightarrow>
               Returned () (on_ctx (\<lambda>c. gin_json g 200 (Envelope (build_validation_error_response g c err)) c) s)
           | Inr subject \<Rightarrow>
               (case call_os (os_now os) s of
                  (now, s) \<Rightarrow>
                    (case generate_token J manager now subject of
                       Inl err \<Rightarrow> Returned () (on_ctx (write_error g (Coded InvalidParams)) s)
                     | Inr tok \<Rightarrow> Returned () (on_ctx (write_success g (TokenRes tok ''Bearer'')) s)))))"

definition me :: "('c, 'db) api_gin \<Rightarrow> ('c, 'w, 'l, 'r) handler" where
  "me g s = Returned () (on_ctx (\<lambda>c. write_success g (MeRes (auth_subject g c)) c) s)"

section \<open>example.go\<close>

record ('db, 'i, 'w) example_handler =
  eh_svc :: "('db, 'i, 'w) example_service"

definition new_example_handler :: "('db, 'i, 'w) example_service \<Rightarrow> ('db, 'i, 'w) example_handler" where
  "new_example_handler svc = \<lparr>eh_svc = svc\<rparr>"

definition example_create ::
    "('c, 'db) api_gin \<Rightarrow> 'c binding \<Rightarrow> ('db, 'i, 'w) example_handler \<Rightarrow> ('c, 'w, 'l, 'r) handler" where
  "example_create g B h s =
     (case bind_string B ''name'' (ht_ctx s) of
        Inl err \<Rightarrow> Returned () (on_ctx (write_validation_error g err) s)
      | Inr name \<Rightarrow>
          and_then (call_app (svc_create (eh_svc h) (Some (gin_req_ctx g (ht_ctx s))) name) s) (\<lambda>res s.
            case res of
              Inl err \<Rightarrow> Returned () (on_ctx (write_error g err) s)
            | Inr ex \<Rightarrow> Returned () (on_ctx (write_success g (ExampleRes ex)) s)))"

definition example_list ::
    "('c, 'db) api_gin \<Rightarrow> 'c binding \<Rightarrow> ('db, 'i, 'w) example_handler \<Rightarrow> ('c, 'w, 'l, 'r) handler" where
  "example_list g B h s =
     (case bind_list B (ht_ctx s) of
        Inl err \<Rightarrow> Returned () (on_ctx (write_validation_error g err) s)
      | Inr (limit, offset) \<Rightarrow>
          and_then (call_app (svc_list (eh_svc h) (Some (gin_req_ctx g (ht_ctx s))) limit offset) s) (\<lambda>res s.
            case res of
              Inl err \<Rightarrow> Returned () (on_ctx (write_error g err) s)
            | Inr r \<Rightarrow> Returned () (on_ctx (write_success g (ListRes r)) s)))"

definition example_enqueue_task ::
    "('c, 'db) api_gin \<Rightarrow> 'c binding \<Rightarrow> ('db, 'i, 'w) example_handler \<Rightarrow> ('c, 'w, 'l, 'r) handler" where
  "example_enqueue_task g B h s =
     (case bind_string B ''name'' (ht_ctx s) of
        Inl err \<Rightarrow> Returned () (on_ctx (write_validation_error g err) s)
      | Inr name \<Rightarrow>
          (case svc_enqueue_task (eh_svc h) (Some (gin_req_ctx g (ht_ctx s))) name (ht_app s) of
             (res, p) \<Rightarrow>
               let s = s\<lparr>ht_app := p\<rparr> in
               (case res of
                  Inl err \<Rightarrow> Returned () (on_ctx (write_error g err) s)
                | Inr queued \<Rightarrow> Returned () (on_ctx (write_success g (QueuedRes queued)) s))))"

section \<open>health.go\<close>

record ('db, 'k) health_handler =
  hh_db :: "'db db_manager option"
  hh_cache :: "'k cache_client option"

definition new_health_handler :: "'db db_manager option \<Rightarrow> 'k cache_client option \<Rightarrow> ('db, 'k) health_handler" where
  "new_health_handler db cache = \<lparr>hh_db = db, hh_cache = cache\<rparr>"

definition health ::
    "('c, 'db) api_gin \<Rightarrow> 'w os_lib \<Rightarrow> ('db, 'sql, 'w) db_lib \<Rightarrow> ('k, 'db, 'w) redis_lib \<Rightarrow>
     ('db, 'k) health_handler \<Rightarrow> ('c, 'w, 'l, 'r) handler" where
  "health g os D L h s =
     (let (now, s) = call_os (os_now os) s;
          ctx = with_timeout now (2 * second) (gin_req_ctx g (ht_ctx s));
          ((postgres, healthy), s) =
            (case hh_db h of
               None \<Rightarrow> ((''not_configured'', False), s)
             | Some db \<Rightarrow>
                 (case call_os (dm_ping D (Some db) ctx) s of
                    (Some err, s) \<Rightarrow> ((''unavailable'', False), s)
                  | (None, s) \<Rightarrow> ((''ok'', True), s)));
          ((redis, healthy), s) =
            (case hh_cache h of
               None \<Rightarrow> ((''not_configured'', healthy), s)
             | Some cache \<Rightarrow>
                 (case call_os (cache_ping L (Some cache) ctx) s of
                    (Some err, s) \<Rightarrow> ((''unavailable'', False), s)
                  | (None, s) \<Rightarrow> ((''ok'', healthy), s)));
          checks = [''postgres'' \<mapsto> postgres, ''redis'' \<mapsto> redis]
      in if \<not> healthy
         then Returned () (on_ctx (gin_json g 503 (HealthReport ''unhealthy'' checks)) s)
         else Returned () (on_ctx (gin_json g 200 (HealthReport ''ok'' checks)) s))"

section \<open>The contract of a route\<close>

locale route_handler =
  fixes g :: "('c, 'd body, 'x) gin" and h :: "('c, 'w, 'l, 'r) handler"
  assumes answers: "gin_ok g \<Longrightarrow> answers_once g h"
begin

text \<open>Behind any chain of middleware that keeps its contract the request is answered.\<close>

lemma chain_answers:
  "gin_ok g \<Longrightarrow> list_all (mw_contract g) mws \<Longrightarrow> bodies g s = [] \<Longrightarrow> answered g s (run_chain mws h s)"
  by (rule chain_answered [OF _ answers])

end

lemma answers_onceI:
  "(\<And>s. bodies g s = [] \<Longrightarrow>
      (\<exists>s'. h s = Returned () s' \<and> length (bodies g s') = 1 \<and> same_request g (ht_ctx s) (ht_ctx s')) \<or>
      (\<exists>p s'. h s = Panicked p s' \<and> ht_ctx s' = ht_ctx s)) \<Longrightarrow> answers_once g h"
  for h :: "('c, 'w, 'l, 'r) handler"
  unfolding answers_once_def
proof (intro allI impI)
  fix s :: "('c, 'w, 'l, 'r) http"
  assume a: "\<And>s. bodies g s = [] \<Longrightarrow>
      (\<exists>s'. h s = Returned () s' \<and> length (bodies g s') = 1 \<and> same_request g (ht_ctx s) (ht_ctx s')) \<or>
      (\<exists>p s'. h s = Panicked p s' \<and> ht_ctx s' = ht_ctx s)" and "bodies g s = []"
  from a [OF this(2)] this(2) show "case h s of
           Returned u s' \<Rightarrow> length (bodies g s') = 1 \<and> same_request g (ht_ctx s) (ht_ctx s')
         | Panicked p s' \<Rightarrow> bodies g s' = [] \<and> same_request g (ht_ctx s) (ht_ctx s')"
    by (auto simp: bodies_def)
qed

text \<open>One write to a context that shows no body yet.\<close>

lemma one_write:
  assumes "gin_ok g" "bodies g s = []" "ht_ctx s' = ht_ctx s"
  shows "length (bodies g (on_ctx (write_error g e) s')) = 1"
    "length (bodies g (on_ctx (write_success g d) s')) = 1"
    "length (bodies g (on_ctx (write_validation_error g e) s')) = 1"
    "length (bodies g (on_ctx (\<lambda>c. gin_json g st (b c) c) s')) = 1"
    "same_request g (ht_ctx s) (ht_ctx (on_ctx (write_error g e) s'))"
    "same_request g (ht_ctx s) (ht_ctx (on_ctx (write_success g d) s'))"
    "same_request g (ht_ctx s) (ht_ctx (on_ctx (write_validation_error g e) s'))"
    "same_request g (ht_ctx s) (ht_ctx (on_ctx (\<lambda>c. gin_json g st (b c) c) s'))"
  using assms by (simp_all add: bodies_def write_error_eq write_success_def write_validation_error_def)

lemma call_app_ctx:
  "call_app f s = Returned a s' \<Longrightarrow> ht_ctx s' = ht_ctx s \<and> ht_limiter s' = ht_limiter s"
  "call_app f s = Panicked p s' \<Longrightarrow> ht_ctx s' = ht_ctx s \<and> ht_limiter s' = ht_limiter s"
  by (auto simp: call_app_def split: outcome.splits)

lemma answers_create_token: "gin_ok g \<Longrightarrow> answers_once g (create_token g os J B h :: ('c, 'w, 'l, 'r) handler)"
proof (rule answers_onceI, rule disjI1)
  fix s :: "('c, 'w, 'l, 'r) http"
  assume g: "gin_ok g" and b: "bodies g s = []"
  obtain now s' where n: "call_os (os_now os) s = (now, s')" by fastforce
  then have c: "ht_ctx s' = ht_ctx s" by (simp add: call_os_ctx)
  show "\<exists>s'. create_token g os J B h s = Returned () s' \<and> length (bodies g s') = 1 \<and>
      same_request g (ht_ctx s) (ht_ctx s')"
    using one_write [OF g b refl] one_write [OF g b c]
    by (simp add: create_token_def n del: on_ctx_simps split: option.splits sum.splits)
qed

lemma answers_me: "gin_ok g \<Longrightarrow> answers_once g (me g)"
  by (rule answers_onceI, rule disjI1) (simp add: me_def bodies_def write_success_def)

lemma answers_example_create: "gin_ok g \<Longrightarrow> answers_once g (example_create g B h :: ('c, 'w, 'l, 'r) handler)"
proof (rule answers_onceI)
  fix s :: "('c, 'w, 'l, 'r) http"
  assume g: "gin_ok g" and b: "bodies g s = []"
  let ?goal = "(\<exists>s'. example_create g B h s = Returned () s' \<and> length (bodies g s') = 1 \<and> same_request g (ht_ctx s) (ht_ctx s')) \<or>
      (\<exists>p s'. example_create g B h s = Panicked p s' \<and> ht_ctx s' = ht_ctx s)"
  show ?goal
  proof (cases "bind_string B ''name'' (ht_ctx s)")
    case (Inl err)
    then show ?thesis using one_write [OF g b refl] by (simp add: example_create_def del: on_ctx_simps)
  next
    case (Inr name)
    show ?thesis
    proof (cases "call_app (svc_create (eh_svc h) (Some (gin_req_ctx g (ht_ctx s))) name) s")
      case (Returned res s')
      then show ?thesis using one_write [OF g b, of s'] call_app_ctx(1) [OF Returned] Inr
        by (cases res) (simp_all add: example_create_def del: on_ctx_simps)
    next
      case (Panicked p s')
      then show ?thesis using call_app_ctx(2) [OF Panicked] Inr by (simp add: example_create_def)
    qed
  qed
qed

lemma answers_example_list: "gin_ok g \<Longrightarrow> answers_once g (example_list g B h :: ('c, 'w, 'l, 'r) handler)"
proof (rule answers_onceI)
  fix s :: "('c, 'w, 'l, 'r) http"
  assume g: "gin_ok g" and b: "bodies g s = []"
  let ?goal = "(\<exists>s'. example_list g B h s = Returned () s' \<and> length (bodies g s') = 1 \<and> same_request g (ht_ctx s) (ht_ctx s')) \<or>
      (\<exists>p s'. example_list g B h s = Panicked p s' \<and> ht_ctx s' = ht_ctx s)"
  show ?goal
  proof (cases "bind_list B (ht_ctx s)")
    case (Inl err)
    then show ?thesis using one_write [OF g b refl] by (simp add: example_list_def del: on_ctx_simps)
  next
    case (Inr lk)
    obtain limit offset where lk: "bind_list B (ht_ctx s) = Inr (limit, offset)" using Inr by (cases lk) simp
    show ?thesis
    proof (cases "call_app (svc_list (eh_svc h) (Some (gin_req_ctx g (ht_ctx s))) limit offset) s")
      case (Returned res s')
      then show ?thesis using one_write [OF g b, of s'] call_app_ctx(1) [OF Returned] lk
        by (cases res) (simp_all add: example_list_def del: on_ctx_simps)
    next
      case (Panicked p s')
      then show ?thesis using call_app_ctx(2) [OF Panicked] lk by (simp add: example_list_def)
    qed
  qed
qed

lemma answers_example_enqueue_task: "gin_ok g \<Longrightarrow> answers_once g (example_enqueue_task g B h :: ('c, 'w, 'l, 'r) handler)"
proof (rule answers_onceI, rule disjI1)
  fix s :: "('c, 'w, 'l, 'r) http"
  assume g: "gin_ok g" and b: "bodies g s = []"
  show "\<exists>s'. example_enqueue_task g B h s = Returned () s' \<and> length (bodies g s') = 1 \<and>
      same_request g (ht_ctx s) (ht_ctx s')"
  proof (cases "bind_string B ''name'' (ht_ctx s)")
    case (Inl err)
    then show ?thesis using one_write [OF g b refl] by (simp add: example_enqueue_task_def del: on_ctx_simps)
  next
    case (Inr name)
    obtain res p where r: "svc_enqueue_task (eh_svc h) (Some (gin_req_ctx g (ht_ctx s))) name (ht_app s) = (res, p)" by fastforce
    show ?thesis using one_write [OF g b, of "s\<lparr>ht_app := p\<rparr>"] Inr r
      by (cases res) (simp_all add: example_enqueue_task_def Let_def del: on_ctx_simps)
  qed
qed

text \<open>
  What the health check finds, and answers: \<open>pg\<close> and \<open>rd\<close> are the two entries of \<open>checks\<close>, by
  the pings it makes, Redis after the database.
\<close>

definition ping_state :: "'a option \<Rightarrow> go_error option \<Rightarrow> string" where
  "ping_state resource err =
     (if resource = None then ''not_configured'' else if err = None then ''ok'' else ''unavailable'')"

lemma call_os_fst: "call_os f s = (a, s') \<Longrightarrow> fst (f (app_world (ht_app s))) = a"
  using call_os_simps(1) [of f s] by simp

lemma health_report:
  fixes s :: "('c, 'w, 'l, 'r) http"
  obtains s' ctx w1 w2 pg rd where
    "health g os D L h s = Returned ()
       (on_ctx (if pg = ''ok'' \<and> rd \<noteq> ''unavailable''
                then gin_json g 200 (HealthReport ''ok'' [''postgres'' \<mapsto> pg, ''redis'' \<mapsto> rd])
                else gin_json g 503 (HealthReport ''unhealthy'' [''postgres'' \<mapsto> pg, ''redis'' \<mapsto> rd])) s')"
    "ht_ctx s' = ht_ctx s" "ht_limiter s' = ht_limiter s"
    "pg = ping_state (hh_db h) (fst (dm_ping D (hh_db h) ctx w1))"
    "rd = ping_state (hh_cache h) (fst (cache_ping L (hh_cache h) ctx w2))"
proof -
  obtain now s1 where 1: "call_os (os_now os) s = (now, s1)" by fastforce
  define ctx where "ctx = with_timeout now (2 * second) (gin_req_ctx g (ht_ctx s1))"
  define s2 where "s2 = (if hh_db h = None then s1 else snd (call_os (dm_ping D (hh_db h) ctx) s1))"
  define s3 where "s3 = (if hh_cache h = None then s2 else snd (call_os (cache_ping L (hh_cache h) ctx) s2))"
  define pg where "pg = ping_state (hh_db h) (fst (dm_ping D (hh_db h) ctx (app_world (ht_app s1))))"
  define rd where "rd = ping_state (hh_cache h) (fst (cache_ping L (hh_cache h) ctx (app_world (ht_app s2))))"
  have 2: "(case hh_db h of
               None \<Rightarrow> ((''not_configured'', False), s1)
             | Some db \<Rightarrow>
                 (case call_os (dm_ping D (Some db) ctx) s1 of
                    (Some err, s) \<Rightarrow> ((''unavailable'', False), s)
                  | (None, s) \<Rightarrow> ((''ok'', True), s))) = ((pg, pg = ''ok''), s2)"
    by (cases "hh_db h"; cases "call_os (dm_ping D (hh_db h) ctx) s1")
       (auto simp: pg_def s2_def ping_state_def dest: call_os_fst split: option.split)
  have 3: "(case hh_cache h of
               None \<Rightarrow> ((''not_configured'', b), s2)
             | Some cache \<Rightarrow>
                 (case call_os (cache_ping L (Some cache) ctx) s2 of
                    (Some err, s) \<Rightarrow> ((''unavailable'', False), s)
                  | (None, s) \<Rightarrow> ((''ok'', b), s))) = ((rd, b \<and> rd \<noteq> ''unavailable''), s3)" for b
    by (cases "hh_cache h"; cases "call_os (cache_ping L (hh_cache h) ctx) s2")
       (auto simp: rd_def s3_def ping_state_def dest: call_os_fst split: option.split)
  have "health g os D L h s = Returned ()
       (on_ctx (if pg = ''ok'' \<and> rd \<noteq> ''unavailable''
                then gin_json g 200 (HealthReport ''ok'' [''postgres'' \<mapsto> pg, ''redis'' \<mapsto> rd])
                else gin_json g 503 (HealthReport ''unhealthy'' [''postgres'' \<mapsto> pg, ''redis'' \<mapsto> rd])) s3)"
    unfolding health_def Let_def 1 prod.case ctx_def [symmetric] 2 3 by simp
  moreover have "ht_ctx s3 = ht_ctx s" "ht_limiter s3 = ht_limiter s"
    using call_os_ctx [OF 1] by (simp_all add: s3_def s2_def)
  ultimately show ?thesis using that pg_def rd_def by blast
qed

lemma health_json:
  fixes s :: "('c, 'w, 'l, 'r) http"
  shows "\<exists>s' st a b. health g os D L h s = Returned () (on_ctx (gin_json g st (HealthReport a b)) s') \<and>
     ht_ctx s' = ht_ctx s \<and> ht_limiter s' = ht_limiter s"
proof -
  obtain s' pg rd where r: "health g os D L h s = Returned ()
       (on_ctx (if pg = ''ok'' \<and> rd \<noteq> ''unavailable''
                then gin_json g 200 (HealthReport ''ok'' [''postgres'' \<mapsto> pg, ''redis'' \<mapsto> rd])
                else gin_json g 503 (HealthReport ''unhealthy'' [''postgres'' \<mapsto> pg, ''redis'' \<mapsto> rd])) s')"
    "ht_ctx s' = ht_ctx s" "ht_limiter s' = ht_limiter s"
    by (rule health_report [of g os D L h s])
  show ?thesis
    by (cases "pg = ''ok'' \<and> rd \<noteq> ''unavailable''"; rule exI [of _ s']; insert r; auto)
qed

lemma answers_health: "gin_ok g \<Longrightarrow> answers_once g (health g os D L h :: ('c, 'w, 'l, 'r) handler)"
proof (rule answers_onceI, rule disjI1)
  fix s :: "('c, 'w, 'l, 'r) http"
  assume g: "gin_ok g" and b: "bodies g s = []"
  obtain s' st a bs where "health g os D L h s = Returned () (on_ctx (gin_json g st (HealthReport a bs)) s')"
      "ht_ctx s' = ht_ctx s"
    using health_json by metis
  then show "\<exists>s'. health g os D L h s = Returned () s' \<and> length (bodies g s') = 1 \<and>
      same_request g (ht_ctx s) (ht_ctx s')"
    using one_write(4,8) [OF g b, of s' st "\<lambda>_. HealthReport a bs"] by simp
qed

interpretation rt_create_token: route_handler g "create_token g os J B h" for g os J B h
  by unfold_locales (rule answers_create_token)

interpretation rt_me: route_handler g "me g" for g
  by unfold_locales (rule answers_me)

interpretation rt_create: route_handler g "example_create g B h" for g B h
  by unfold_locales (rule answers_example_create)

interpretation rt_list: route_handler g "example_list g B h" for g B h
  by unfold_locales (rule answers_example_list)

interpretation rt_enqueue: route_handler g "example_enqueue_task g B h" for g B h
  by unfold_locales (rule answers_example_enqueue_task)

interpretation rt_health: route_handler g "health g os D L h" for g os D L h
  by unfold_locales (rule answers_health)

section \<open>Properties\<close>

text \<open>
  C37. The health check tells what it found: one report, with status 200 exactly when the database
  is configured and answers its ping and Redis answers its own or is not configured, else 503; each
  entry says whether the resource is missing, answered, or did not.
\<close>

theorem health_verdict:
  assumes "gin_ok g" and "gin_bodies g (ht_ctx s) = []"
  shows "\<exists>s' ctx w1 w2 pg rd. health g os D L h s = Returned () s' \<and>
     pg = (case hh_db h of None \<Rightarrow> ''not_configured''
           | Some m \<Rightarrow> if fst (dm_ping D (Some m) ctx w1) = None then ''ok'' else ''unavailable'') \<and>
     rd = (case hh_cache h of None \<Rightarrow> ''not_configured''
           | Some k \<Rightarrow> if fst (cache_ping L (Some k) ctx w2) = None then ''ok'' else ''unavailable'') \<and>
     gin_bodies g (ht_ctx s') =
       [HealthReport (if pg = ''ok'' \<and> rd \<noteq> ''unavailable'' then ''ok'' else ''unhealthy'')
         [''postgres'' \<mapsto> pg, ''redis'' \<mapsto> rd]] \<and>
     gin_status g (ht_ctx s') = (if pg = ''ok'' \<and> rd \<noteq> ''unavailable'' then 200 else 503)"
proof -
  obtain s' ctx w1 w2 pg rd where r:
    "health g os D L h s = Returned ()
       (on_ctx (if pg = ''ok'' \<and> rd \<noteq> ''unavailable''
                then gin_json g 200 (HealthReport ''ok'' [''postgres'' \<mapsto> pg, ''redis'' \<mapsto> rd])
                else gin_json g 503 (HealthReport ''unhealthy'' [''postgres'' \<mapsto> pg, ''redis'' \<mapsto> rd])) s')"
    "ht_ctx s' = ht_ctx s" "pg = ping_state (hh_db h) (fst (dm_ping D (hh_db h) ctx w1))"
    "rd = ping_state (hh_cache h) (fst (cache_ping L (hh_cache h) ctx w2))"
    by (rule health_report)
  show ?thesis
    using assms r(2)
    by (intro exI [of _ "outcome_state (health g os D L h s)"] exI [of _ ctx] exI [of _ w1] exI [of _ w2]
          exI [of _ pg] exI [of _ rd] conjI)
       (simp_all add: r(1) r(3,4) ping_state_def split: option.split)
qed

definition health_request :: "((api_data body, nat ctx) sample_ctx, nat, nat, nat) http" where
  "health_request =
     \<lparr>ht_ctx = sample_request ''GET'' ''/health'' [] background, ht_app = \<lparr>app_world = 1, app_logs = []\<rparr>,
      ht_limiter = None\<rparr>"

theorem health_verdict_witness:
  "\<exists>s'. health sample_gin sample_os open_db open_redis \<lparr>hh_db = Some \<lparr>dm_primary = Some 0\<rparr>, hh_cache = None\<rparr>
       health_request = Returned () s' \<and> gin_status sample_gin (ht_ctx s') = 200"
proof -
  have b: "gin_bodies sample_gin (ht_ctx health_request) = []"
    by (simp add: health_request_def sample_request_def sample_gin_def)
  have p: "fst (dm_ping open_db (Some \<lparr>dm_primary = Some 0\<rparr>) ctx w) = None" for ctx w
    by (simp add: dm_ping_def dm_db_def open_db_def)
  show ?thesis
    using health_verdict [OF sample_gin_ok b, where h = "\<lparr>hh_db = Some \<lparr>dm_primary = Some 0\<rparr>, hh_cache = None\<rparr>"
        and D = open_db and L = open_redis and os = sample_os] p
    by fastforce
qed

end
