(* ===== verification/Server.thy ===== *)
theory Server
  imports Bootstrap Handlers
begin

text \<open>
  \<open>internal/router\<close>, \<open>internal/server.go\<close> and \<open>internal/worker.go\<close>: the routes, the chain of
  middleware every request goes through, and the assembly of the two processes. The field
  \<open>Handlers\<close> of the server is left out: nothing reads it after the construction.
\<close>

text \<open>The libraries of the program, in one record.\<close>

record ('c, 'db, 'sql, 'k, 'q, 'i, 'w, 'l, 'r) libs =
  lib_gin :: "('c, 'db) api_gin"
  lib_binding :: "'c binding"
  lib_os :: "'w os_lib"
  lib_jwt :: jwt_lib
  lib_rate :: "('l, 'r) rate_lib"
  lib_db :: "('db, 'sql, 'w) db_lib"
  lib_gorm :: "('db, 'w) gorm"
  lib_redis :: "('k, 'db, 'w) redis_lib"
  lib_asynq :: "('q, 'db, 'i, 'w) asynq_lib"

section \<open>Routes (router.go)\<close>

record ('c, 'w, 'l, 'r) route =
  rt_method :: string
  rt_path :: string
  rt_middleware :: "('c, 'w, 'l, 'r) middleware list"
  rt_handler :: "('c, 'w, 'l, 'r) handler"

record ('db, 'i, 'w, 'c, 'l, 'r) dependencies =
  dp_auth :: "auth_handler option"
  dp_auth_required :: "('c, 'w, 'l, 'r) middleware option"
  dp_example :: "('db, 'i, 'w) example_handler option"

definition register_auth_routes ::
    "('c, 'db, 'sql, 'k, 'q, 'i, 'w, 'l, 'r) libs \<Rightarrow> string \<Rightarrow> ('db, 'i, 'w, 'c, 'l, 'r) dependencies \<Rightarrow>
     ('c, 'w, 'l, 'r) route list" where
  "register_auth_routes X grp deps =
     (case dp_auth deps of
        None \<Rightarrow> []
      | Some auth \<Rightarrow>
          let auth_routes = grp @ ''/auth'' in
          [\<lparr>rt_method = ''POST'', rt_path = auth_routes @ ''/token'', rt_middleware = [],
            rt_handler = create_token (lib_gin X) (lib_os X) (lib_jwt X) (lib_binding X) (Some auth)\<rparr>] @
          (case dp_auth_required deps of
             None \<Rightarrow> []
           | Some required \<Rightarrow>
               [\<lparr>rt_method = ''GET'', rt_path = auth_routes @ ''/me'', rt_middleware = [required],
                 rt_handler = me (lib_gin X)\<rparr>]))"

definition register_example_routes ::
    "('c, 'db, 'sql, 'k, 'q, 'i, 'w, 'l, 'r) libs \<Rightarrow> string \<Rightarrow> ('db, 'i, 'w, 'c, 'l, 'r) dependencies \<Rightarrow>
     ('c, 'w, 'l, 'r) route list" where
  "register_example_routes X grp deps =
     (case dp_example deps of
        None \<Rightarrow> []
      | Some h \<Rightarrow>
          let examples = grp @ ''/examples'' in
          [\<lparr>rt_method = ''GET'', rt_path = examples, rt_middleware = [],
            rt_handler = example_list (lib_gin X) (lib_binding X) h\<rparr>,
           \<lparr>rt_method = ''POST'', rt_path = examples, rt_middleware = [],
            rt_handler = example_create (lib_gin X) (lib_binding X) h\<rparr>,
           \<lparr>rt_method = ''POST'', rt_path = examples @ ''/tasks'', rt_middleware = [],
            rt_handler = example_enqueue_task (lib_gin X) (lib_binding X) h\<rparr>])"

text \<open>\<open>RegisterRoutes\<close> always returns nil; its result is the routes it adds.\<close>

definition register_routes ::
    "('c, 'db, 'sql, 'k, 'q, 'i, 'w, 'l, 'r) libs \<Rightarrow> string \<Rightarrow> ('db, 'i, 'w, 'c, 'l, 'r) dependencies \<Rightarrow>
     ('c, 'w, 'l, 'r) route list" where
  "register_routes X grp deps = register_auth_routes X grp deps @ register_example_routes X grp deps"

section \<open>The HTTP server (server.go)\<close>

definition errNilRegistry :: go_error where
  "errNilRegistry = Plain ''app: nil registry''"
definition errNilConfig :: go_error where
  "errNilConfig = Plain ''app: nil config''"
definition errMissingDB :: go_error where
  "errMissingDB = Plain ''app: missing database''"
definition errNilHTTPServer :: go_error where
  "errNilHTTPServer = Plain ''app: nil http server''"
definition errNilWorker :: go_error where
  "errNilWorker = Plain ''app: nil worker''"

record ('db, 'k, 'i, 'w) http_handlers =
  hs_auth :: "auth_handler option"
  hs_health :: "('db, 'k) health_handler"
  hs_example :: "('db, 'i, 'w) example_handler"

text \<open>
  The engine is what \<open>newEngine\<close> registers with Gin: middleware for every request, in order, and
  the routes. All \<open>Use\<close> calls come before the routes.
\<close>

record ('c, 'w, 'l, 'r) engine =
  en_middleware :: "('c, 'w, 'l, 'r) middleware list"
  en_routes :: "('c, 'w, 'l, 'r) route list"

record http_server =
  hv_addr :: string
  hv_read_header_timeout :: int

record ('c, 'w, 'l, 'r) server =
  sv_engine :: "('c, 'w, 'l, 'r) engine"
  sv_http :: "http_server option"
  sv_rate_limiter :: "('l, 'r) ip_rate_limiter option"

definition validate_http_registry :: "('db, 'k, 'q) registry option \<Rightarrow> go_error option" where
  "validate_http_registry reg =
     (case reg of
        None \<Rightarrow> Some errNilRegistry
      | Some r \<Rightarrow>
          if reg_cfg r = None then Some errNilConfig
          else if reg_db r = None \<or> dm_db (reg_db r) = None then Some errMissingDB
          else None)"

definition new_http_handlers ::
    "('c, 'db, 'sql, 'k, 'q, 'i, 'w, 'l, 'r) libs \<Rightarrow> ('db, 'k, 'q) registry \<Rightarrow> ('db, 'k, 'i, 'w) http_handlers" where
  "new_http_handlers X reg =
     (let db = dm_db (reg_db reg);
          repo = new_example_repository db;
          svc = new_example_service (Some (repository_value (lib_gorm X) repo))
                  [Some (queue_value (aq_enqueue (lib_asynq X)) (reg_queue reg))]
      in \<lparr>hs_auth = new_auth_handler (reg_auth reg),
          hs_health = new_health_handler (reg_db reg) (reg_cache reg),
          hs_example = new_example_handler svc\<rparr>)"

text \<open>\<open>set_trusted_proxies\<close> is Gin's check of the list of proxies.\<close>

definition new_engine ::
    "('c, 'db, 'sql, 'k, 'q, 'i, 'w, 'l, 'r) libs \<Rightarrow> (string list \<Rightarrow> go_error option) \<Rightarrow>
     ('db, 'k, 'q) registry \<Rightarrow> config \<Rightarrow> ('db, 'k, 'i, 'w) http_handlers \<Rightarrow>
     ('l, 'r) ip_rate_limiter option \<Rightarrow> go_error + ('c, 'w, 'l, 'r) engine" where
  "new_engine X set_trusted_proxies reg cfg handlers rl =
     (let g = lib_gin X; os = lib_os X in
      case set_trusted_proxies (srv_trusted_proxies (cfg_server cfg)) of
        Some err \<Rightarrow> Inl (wrap ''set trusted proxies'' err)
      | None \<Rightarrow>
          let mws = [trace_logger g os (log_audit_enabled (cfg_log cfg)) (log_audit_excludes (cfg_log cfg)),
                     recovery g os,
                     timeout_middleware g os (srv_request_timeout (cfg_server cfg)),
                     cors g (cors_allow_origins (cfg_cors cfg))] @
                    (if rl \<noteq> None then [rate_limit_middleware g os (lib_rate X)] else []);
              health_route =
                \<lparr>rt_method = ''GET'', rt_path = ''/health'', rt_middleware = [],
                 rt_handler = health g os (lib_db X) (lib_redis X) (hs_health handlers)\<rparr>;
              auth_required =
                (if reg_auth reg \<noteq> None then Some (bearer_auth g os (lib_jwt X) (reg_auth reg)) else None)
          in Inr \<lparr>en_middleware = mws,
                  en_routes = health_route #
                    register_routes X ''/api/v1''
                      \<lparr>dp_auth = hs_auth handlers, dp_auth_required = auth_required,
                       dp_example = Some (hs_example handlers)\<rparr>\<rparr>)"

definition new_http_server :: "config \<Rightarrow> http_server" where
  "new_http_server cfg =
     \<lparr>hv_addr = srv_port (cfg_server cfg), hv_read_header_timeout = srv_request_timeout (cfg_server cfg)\<rparr>"

definition new_server ::
    "('c, 'db, 'sql, 'k, 'q, 'i, 'w, 'l, 'r) libs \<Rightarrow> (string list \<Rightarrow> go_error option) \<Rightarrow>
     ('db, 'k, 'q) registry option \<Rightarrow> go_error + ('c, 'w, 'l, 'r) server" where
  "new_server X set_trusted_proxies reg =
     (case validate_http_registry reg of
        Some err \<Rightarrow> Inl err
      | None \<Rightarrow>
          let r = the reg; cfg = the (reg_cfg r);
              rpm = rl_requests_per_minute (cfg_rate_limit cfg);
              rl = (if 0 < rpm then new_ip_rate_limiter_per_minute (lib_rate X) rpm else None);
              handlers = new_http_handlers X r
          in case new_engine X set_trusted_proxies r cfg handlers rl of
               Inl err \<Rightarrow> Inl err
             | Inr engine \<Rightarrow>
                 Inr \<lparr>sv_engine = engine, sv_http = Some (new_http_server cfg), sv_rate_limiter = rl\<rparr>)"

section \<open>Serving a request\<close>

text \<open>
  Gin looks the route up by method and path, all of the program's paths being literal, and runs
  the engine's middleware, the route's and the handler. A request that matches no route goes
  through the engine's middleware to \<open>no_route\<close>, Gin's own answer.
\<close>

definition find_route :: "('c, 'w, 'l, 'r) engine \<Rightarrow> string \<Rightarrow> string \<Rightarrow> ('c, 'w, 'l, 'r) route option" where
  "find_route e method path = find (\<lambda>r. rt_method r = method \<and> rt_path r = path) (en_routes e)"

definition serve ::
    "('c, 'b, 'x) gin \<Rightarrow> ('c, 'w, 'l, 'r) handler \<Rightarrow> ('c, 'w, 'l, 'r) engine \<Rightarrow> ('c, 'w, 'l, 'r) handler" where
  "serve g no_route e s =
     (case find_route e (gin_method g (ht_ctx s)) (gin_path g (ht_ctx s)) of
        Some r \<Rightarrow> run_chain (en_middleware e @ rt_middleware r) (rt_handler r) s
      | None \<Rightarrow> run_chain (en_middleware e) no_route s)"

section \<open>The worker process (worker.go)\<close>

record ('m, 'db, 'w) worker =
  wk_server :: "(redis_opt \<times> ('db, 'w) asynq_config) option"
  wk_mux :: "'m option"

definition validate_worker_registry :: "('db, 'k, 'q) registry option \<Rightarrow> go_error option" where
  "validate_worker_registry reg =
     (case reg of
        None \<Rightarrow> Some errNilRegistry
      | Some r \<Rightarrow>
          (case reg_cfg r of
             None \<Rightarrow> Some errNilConfig
           | Some cfg \<Rightarrow>
               if rds_addr (cfg_redis cfg) = [] then Some (Plain ''app: missing redis address'') else None))"

definition build_worker_deps ::
    "('db, 'k, 'q) registry \<Rightarrow> ('db, 'k cache_client, 'rdb, 'q) deps" where
  "build_worker_deps reg =
     (let d = \<lparr>dep_db = None, dep_cache = reg_cache reg, dep_rdb = None, dep_queue = reg_queue reg\<rparr> in
      if reg_db reg \<noteq> None then d\<lparr>dep_db := dm_db (reg_db reg)\<rparr> else d)"

definition new_worker ::
    "('m, 'db, 'w) mux_ops \<Rightarrow> 'db asynq_getters \<Rightarrow> 'm \<Rightarrow> ('db, 'k, 'q) registry option \<Rightarrow>
     go_error + ('m, 'db, 'w) worker" where
  "new_worker M A fresh_mux reg =
     (case validate_worker_registry reg of
        Some err \<Rightarrow> Inl err
      | None \<Rightarrow>
          let r = the reg; redis = cfg_redis (the (reg_cfg r));
              d = (build_worker_deps r :: ('db, 'k cache_client, unit, 'q) deps);
              mux = register_handlers M A (Some d) (Some fresh_mux)
          in Inr \<lparr>wk_server = Some (new_server_config A (new_redis_opt (rds_addr redis) (rds_password redis) (rds_queue_db redis))),
                  wk_mux = mux\<rparr>)"

section \<open>Lemmas\<close>

text \<open>An assembled engine: tracing and recovery outside, and every part keeps its contract.\<close>

definition engine_ok :: "('c, 'd body, 'x) gin \<Rightarrow> ('c, 'w, 'l, 'r) engine \<Rightarrow> bool" where
  "engine_ok g e \<longleftrightarrow>
     list_all (mw_contract g) (en_middleware e) \<and>
     list_all (\<lambda>r. list_all (mw_contract g) (rt_middleware r) \<and> answers_once g (rt_handler r) \<and>
                   rt_method r \<in> {''GET'', ''POST''}) (en_routes e)"

lemma engine_middleware:
  "new_engine X p reg cfg handlers rl = Inr e \<Longrightarrow>
   en_middleware e =
     [trace_logger (lib_gin X) (lib_os X) (log_audit_enabled (cfg_log cfg)) (log_audit_excludes (cfg_log cfg)),
      recovery (lib_gin X) (lib_os X),
      timeout_middleware (lib_gin X) (lib_os X) (srv_request_timeout (cfg_server cfg)),
      cors (lib_gin X) (cors_allow_origins (cfg_cors cfg))] @
     (if rl \<noteq> None then [rate_limit_middleware (lib_gin X) (lib_os X) (lib_rate X)] else [])"
  by (auto simp: new_engine_def Let_def split: option.splits)

lemma engine_routes:
  "new_engine X p reg cfg handlers rl = Inr e \<Longrightarrow>
   en_routes e =
     \<lparr>rt_method = ''GET'', rt_path = ''/health'', rt_middleware = [],
      rt_handler = health (lib_gin X) (lib_os X) (lib_db X) (lib_redis X) (hs_health handlers)\<rparr> #
     register_routes X ''/api/v1''
       \<lparr>dp_auth = hs_auth handlers,
        dp_auth_required =
          (if reg_auth reg \<noteq> None then Some (bearer_auth (lib_gin X) (lib_os X) (lib_jwt X) (reg_auth reg)) else None),
        dp_example = Some (hs_example handlers)\<rparr>"
  by (auto simp: new_engine_def Let_def split: option.splits)

lemma new_engine_ok:
  "gin_ok (lib_gin X) \<Longrightarrow> new_engine X p reg cfg handlers rl = Inr e \<Longrightarrow> engine_ok (lib_gin X) e"
  unfolding engine_ok_def
  by (simp add: engine_middleware engine_routes register_routes_def register_auth_routes_def
      register_example_routes_def Let_def middleware_contracts rt_health.answers rt_create_token.answers rt_me.answers
      rt_list.answers rt_create.answers rt_enqueue.answers split: option.split)

lemma new_server_engine:
  assumes "new_server X p reg = Inr sv"
  obtains r cfg where "reg = Some r" "reg_cfg r = Some cfg" "dm_db (reg_db r) \<noteq> None"
    "sv_rate_limiter sv = (if 0 < rl_requests_per_minute (cfg_rate_limit cfg)
       then new_ip_rate_limiter_per_minute (lib_rate X) (rl_requests_per_minute (cfg_rate_limit cfg)) else None)"
    "new_engine X p r cfg (new_http_handlers X r) (sv_rate_limiter sv) = Inr (sv_engine sv)"
  using assms
  by (auto simp: new_server_def validate_http_registry_def Let_def split: option.splits sum.splits if_split_asm)

lemma recovery_returns: "\<exists>s'. recovery g os nxt s = Returned () s'"
  by (auto simp: recovery_def Let_def split: outcome.split prod.split)

lemma trace_logger_returns:
  assumes "\<And>s. \<exists>s'. nxt s = Returned () s'"
  shows "\<exists>s'. trace_logger g os audit excludes nxt s = Returned () s'"
proof -
  have k: "\<exists>s'. and_then (nxt s1) (\<lambda>_ s. if \<not> audit then Returned () s
           else if P s then Returned () s else (case call_os (os_now os) s of (now, s) \<Rightarrow> Returned () (f now s))) = Returned () s'"
    for s1 P f
    using assms [of s1] by (auto split: prod.split)
  show ?thesis unfolding trace_logger_def Let_def by (auto simp del: set_filter split: prod.split if_split intro!: k)
qed

text \<open>No request makes the process panic: recovery is under tracing alone.\<close>

lemma serve_returns:
  assumes "new_server X p reg = Inr sv"
  shows "\<exists>s'. serve (lib_gin X) no_route (sv_engine sv) s = Returned () s'"
proof -
  obtain r cfg where e: "new_engine X p r cfg (new_http_handlers X r) (sv_rate_limiter sv) = Inr (sv_engine sv)"
    using new_server_engine [OF assms] by metis
  have "\<exists>s'. run_chain (en_middleware (sv_engine sv)) h s = Returned () s'" for h
    by (simp add: engine_middleware [OF e] trace_logger_returns [OF recovery_returns])
  then show ?thesis by (simp add: serve_def split: option.split)
qed

lemma new_server_ok:
  "gin_ok (lib_gin X) \<Longrightarrow> new_server X p reg = Inr sv \<Longrightarrow> engine_ok (lib_gin X) (sv_engine sv)"
  by (erule new_server_engine) (auto intro: new_engine_ok)

lemma find_route_set: "find_route e m p = Some r \<Longrightarrow> r \<in> set (en_routes e) \<and> rt_method r = m \<and> rt_path r = p"
  by (auto simp: find_route_def find_Some_iff)

lemma auth_path_route:
  assumes "new_engine X p reg cfg (new_http_handlers X reg) rl = Inr e"
    and "find_route e ''GET'' ''/api/v1/auth/me'' = Some r"
  obtains m where "reg_auth reg = Some m" "rt_handler r = me (lib_gin X)"
    "rt_middleware r = [bearer_auth (lib_gin X) (lib_os X) (lib_jwt X) (Some m)]"
  using assms(2)
  by (cases "reg_auth reg")
     (auto simp: find_route_def engine_routes [OF assms(1)] register_routes_def register_auth_routes_def
       register_example_routes_def new_http_handlers_def new_auth_handler_def Let_def)

lemma error_response_no_data [simp]: "rsp_data (error_response g c e) = None"
  by (simp add: error_response_def Let_def)

text \<open>What bearer authentication lets through to the handler of \<open>/auth/me\<close>.\<close>

lemma bearer_me_data:
  assumes g: "gin_ok g" and b: "bodies g s = []"
    and r: "bearer_auth g os J (Some m) (me g) s = Returned () s'" "bodies g s' = [Envelope e]" "rsp_data e = Some d"
  shows "\<exists>now cl. parse_token J m now (gin_get_header g (ht_ctx s) ''Authorization'') = Inr cl \<and> d = MeRes (cl_subject cl)"
proof -
  obtain now s1 where 1: "call_os (os_now os) s = (now, s1)" by fastforce
  then have c: "ht_ctx s1 = ht_ctx s" by (simp add: call_os_ctx)
  show ?thesis
  proof (cases "parse_token J m now (gin_get_header g (ht_ctx s) ''Authorization'')")
    case (Inl err)
    then have "s' = on_ctx (reject_unauthorized g) s1" using r(1) by (simp add: bearer_auth_def 1 c)
    then show ?thesis using r(2,3) b g by (auto simp: bodies_def reject_unauthorized_def c)
  next
    case (Inr cl)
    then have "me g (on_ctx (gin_set g auth_subject_key (cl_subject cl)) s1) = Returned () s'"
      using r(1) by (simp add: bearer_auth_def 1 c)
    then have "e = success_response (MeRes (cl_subject cl))"
      using r(2) b g by (auto simp: me_def bodies_def write_success_def c auth_subject_def)
    then show ?thesis using Inr r(3) by (auto simp: success_response_def)
  qed
qed

lemma answers_bearer_me:
  "gin_ok g \<Longrightarrow> answers_once g (bearer_auth g os J (Some m) (me g) :: ('c, 'w, 'l, 'r) handler)"
  unfolding answers_once_def
proof (intro allI impI)
  fix s :: "('c, 'w, 'l, 'r) http"
  assume g: "gin_ok g" and b: "bodies g s = []"
  obtain now s1 where 1: "call_os (os_now os) s = (now, s1)" by fastforce
  then have c: "ht_ctx s1 = ht_ctx s" by (simp add: call_os_ctx)
  show "case bearer_auth g os J (Some m) (me g) s of
      Returned u s' \<Rightarrow> length (bodies g s') = 1 \<and> same_request g (ht_ctx s) (ht_ctx s')
    | Panicked p s' \<Rightarrow> bodies g s' = [] \<and> same_request g (ht_ctx s) (ht_ctx s')"
    using g b
    by (cases "parse_token J m now (gin_get_header g (ht_ctx s) ''Authorization'')")
       (simp_all add: bearer_auth_def 1 c bodies_def reject_unauthorized_def me_def write_success_def same_request_def
         gin_request)
qed

end
