(* ===== verification/Tracing.thy ===== *)
theory Tracing
  imports Handlers
begin

text \<open>
  What every handler below \<open>TraceLogger\<close> keeps: the trace id of the request, in the Gin context,
  in the response header and in each error envelope, and the state of the rate limiter.
\<close>

definition traced ::
    "('c, 'd body, 'x) gin \<Rightarrow> string \<Rightarrow> ('l, 'r) ip_rate_limiter option \<Rightarrow> ('c, 'w, 'l, 'r) http \<Rightarrow> bool" where
  "traced g tid l s \<longleftrightarrow>
     tid \<noteq> [] \<and> ht_limiter s = l \<and>
     gin_get_string g (ht_ctx s) ''trace_id'' = tid \<and>
     gin_resp_header g (ht_ctx s) ''X-Request-ID'' = Some tid \<and>
     (\<forall>e. Envelope e \<in> set (bodies g s) \<longrightarrow> rsp_data e = None \<longrightarrow> rsp_metadata e = [(''trace_id'', tid)])"

locale traced_handler =
  fixes g :: "('c, 'd body, 'x) gin" and h :: "('c, 'w, 'l, 'r) handler"
  assumes keeps: "gin_ok g \<Longrightarrow> traced g tid l s \<Longrightarrow> traced g tid l (outcome_state (h s))"
begin

text \<open>A middleware that hands a request on with the same marks keeps them too.\<close>

lemma keeps_after:
  "gin_ok g \<Longrightarrow> traced g tid l s1 \<Longrightarrow> h s1 = Returned u s2 \<Longrightarrow> traced g tid l s2"
  using keeps [of tid l s1] by simp

end

section \<open>Writes\<close>

lemma traced_same_ctx:
  "traced g tid l s \<Longrightarrow> ht_ctx s' = ht_ctx s \<Longrightarrow> ht_limiter s' = ht_limiter s \<Longrightarrow> traced g tid l s'"
  by (simp add: traced_def bodies_def)

lemma traced_metadata: "traced g tid l s \<Longrightarrow> build_metadata g (ht_ctx s) = [(''trace_id'', tid)]"
  by (simp add: traced_def build_metadata_def)

lemma traced_json:
  assumes "gin_ok g" "traced g tid l s" "rsp_data (e (ht_ctx s)) = None \<Longrightarrow> rsp_metadata (e (ht_ctx s)) = [(''trace_id'', tid)]"
  shows "traced g tid l (on_ctx (\<lambda>c. gin_json g st (Envelope (e c)) c) s)"
    "traced g tid l (on_ctx (\<lambda>c. gin_abort_json g st (Envelope (e c)) c) s)"
  using assms by (auto simp: traced_def bodies_def)

lemma traced_health:
  "gin_ok g \<Longrightarrow> traced g tid l s \<Longrightarrow> traced g tid l (on_ctx (gin_json g st (HealthReport a b)) s)"
  by (simp add: traced_def bodies_def)

lemma success_data [simp]: "rsp_data (success_response d) = Some d"
  by (simp add: success_response_def)

lemma traced_writes:
  assumes g: "gin_ok g" and t: "traced g tid l s"
  shows "traced g tid l (on_ctx (write_error g err) s)"
    "traced g tid l (on_ctx (write_success g d) s)"
    "traced g tid l (on_ctx (write_validation_error g err) s)"
    "traced g tid l (on_ctx (\<lambda>c. gin_json g st (Envelope (build_validation_error_response g c err)) c) s)"
    "traced g tid l (on_ctx (\<lambda>c. gin_abort_json g st (Envelope (error_response g c ec)) c) s)"
  using traced_json(1) [OF g t, of "\<lambda>c. error_response g c (errcode_for err)" 200]
    traced_json(1) [OF g t, of "\<lambda>_. success_response d" 200]
    traced_json(1) [OF g t, of "\<lambda>c. build_validation_error_response g c err"]
    traced_json(2) [OF g t, of "\<lambda>c. error_response g c ec" st]
    traced_metadata [OF t]
  by (simp_all add: write_error_eq [abs_def] write_success_def [abs_def] write_validation_error_def [abs_def])

lemma traced_set: "gin_ok g \<Longrightarrow> traced g tid l s \<Longrightarrow> k \<noteq> ''trace_id'' \<Longrightarrow> traced g tid l (on_ctx (gin_set g k v) s)"
  by (simp add: traced_def bodies_def)

section \<open>The handlers\<close>

lemma keeps_create_token:
  assumes g: "gin_ok g" and t: "traced g tid l s"
  shows "traced g tid l (outcome_state (create_token g os J B h s))"
proof -
  obtain now s' where n: "call_os (os_now os) s = (now, s')" by fastforce
  have t': "traced g tid l s'" using call_os_ctx [OF n] by (intro traced_same_ctx [OF t]) simp_all
  show ?thesis
    using traced_writes [OF g t] traced_writes [OF g t']
    by (simp add: create_token_def n split: option.split sum.split)
qed

lemma keeps_me: "gin_ok g \<Longrightarrow> traced g tid l s \<Longrightarrow> traced g tid l (outcome_state (me g s))"
  using traced_json(1) [of g tid l s "\<lambda>c. success_response (MeRes (auth_subject g c))" 200]
  by (simp add: me_def write_success_def)

text \<open>What the handlers do with the outcome of a service.\<close>

lemma keeps_call_app:
  assumes g: "gin_ok g" and t: "traced g tid l s"
  shows "traced g tid l (outcome_state (and_then (call_app f s)
    (\<lambda>res s. case res of Inl err \<Rightarrow> Returned () (on_ctx (write_error g err) s)
                       | Inr x \<Rightarrow> Returned () (on_ctx (write_success g (d x)) s))))"
proof (cases "call_app f s")
  case (Returned res s')
  have "traced g tid l s'" using call_app_ctx(1) [OF Returned] by (intro traced_same_ctx [OF t]) simp_all
  from traced_writes(1,2) [OF g this] show ?thesis by (simp add: Returned split: sum.split)
next
  case (Panicked p s')
  show ?thesis using call_app_ctx(2) [OF Panicked] by (simp add: Panicked traced_same_ctx [OF t])
qed

lemma keeps_example_create:
  assumes g: "gin_ok g" and t: "traced g tid l s"
  shows "traced g tid l (outcome_state (example_create g B h s))"
proof (cases "bind_string B ''name'' (ht_ctx s)")
  case (Inl err)
  with traced_writes(3) [OF g t] show ?thesis by (simp add: example_create_def)
next
  case (Inr name)
  then show ?thesis
    using keeps_call_app [OF g t, of "svc_create (eh_svc h) (Some (gin_req_ctx g (ht_ctx s))) name" ExampleRes]
    by (simp add: example_create_def)
qed

lemma keeps_example_list:
  assumes g: "gin_ok g" and t: "traced g tid l s"
  shows "traced g tid l (outcome_state (example_list g B h s))"
proof (cases "bind_list B (ht_ctx s)")
  case (Inl err)
  with traced_writes(3) [OF g t] show ?thesis by (simp add: example_list_def)
next
  case (Inr lk)
  then show ?thesis
    using keeps_call_app [OF g t, of "svc_list (eh_svc h) (Some (gin_req_ctx g (ht_ctx s))) (fst lk) (snd lk)" ListRes]
    by (cases lk) (simp add: example_list_def)
qed

lemma keeps_example_enqueue_task:
  assumes g: "gin_ok g" and t: "traced g tid l s"
  shows "traced g tid l (outcome_state (example_enqueue_task g B h s))"
proof -
  have t': "traced g tid l (s\<lparr>ht_app := p\<rparr>)" for p by (rule traced_same_ctx [OF t]) simp_all
  show ?thesis using traced_writes [OF g t] traced_writes [OF g t']
    by (simp add: example_enqueue_task_def Let_def split: sum.split prod.split)
qed

lemma keeps_health:
  assumes g: "gin_ok g" and t: "traced g tid l s"
  shows "traced g tid l (outcome_state (health g os D L h s))"
proof -
  obtain s' st a b where "health g os D L h s = Returned () (on_ctx (gin_json g st (HealthReport a b)) s')"
      "ht_ctx s' = ht_ctx s" "ht_limiter s' = ht_limiter s"
    using health_json by metis
  then show ?thesis using traced_health [OF g traced_same_ctx [OF t]] by simp
qed

interpretation tr_create_token: traced_handler g "create_token g os J B h" for g os J B h
  by unfold_locales (rule keeps_create_token)

interpretation tr_me: traced_handler g "me g" for g
  by unfold_locales (rule keeps_me)

interpretation tr_create: traced_handler g "example_create g B h" for g B h
  by unfold_locales (rule keeps_example_create)

interpretation tr_list: traced_handler g "example_list g B h" for g B h
  by unfold_locales (rule keeps_example_list)

interpretation tr_enqueue: traced_handler g "example_enqueue_task g B h" for g B h
  by unfold_locales (rule keeps_example_enqueue_task)

interpretation tr_health: traced_handler g "health g os D L h" for g os D L h
  by unfold_locales (rule keeps_health)

text \<open>\<open>BearerAuth\<close> in front of a traced handler is traced.\<close>

lemma keeps_bearer_auth:
  assumes g: "gin_ok g" and t: "traced g tid l s"
    and h: "\<And>s. traced g tid l s \<Longrightarrow> traced g tid l (outcome_state (h s))"
  shows "traced g tid l (outcome_state (bearer_auth g os J manager h s))"
proof -
  obtain now s' where n: "call_os (os_now os) s = (now, s')" by fastforce
  have t': "traced g tid l s'" using call_os_ctx [OF n] by (intro traced_same_ctx [OF t]) simp_all
  have "traced g tid l (on_ctx (gin_set g auth_subject_key v) s')" for v
    by (rule traced_set [OF g t']) (simp add: auth_subject_key_def)
  then show ?thesis
    using traced_writes(5) [OF g t] traced_writes(5) [OF g t'] h
    by (simp add: bearer_auth_def n reject_unauthorized_def [abs_def] split: option.split sum.split)
qed

interpretation tr_bearer_me: traced_handler g "bearer_auth g os J manager (me g)" for g os J manager
  by unfold_locales (rule keeps_bearer_auth [OF _ _ tr_me.keeps])

lemmas traced_handlers =
  tr_create_token.keeps tr_me.keeps tr_create.keeps tr_list.keeps tr_enqueue.keeps tr_health.keeps tr_bearer_me.keeps

end
