(* ===== verification/Pipeline.thy ===== *)
theory Pipeline
  imports Server Tracing
begin

text \<open>
  What the assembled server of \<open>Server\<close> does with a request: the engine's middleware and the
  route together. The lemmas reduce a request to the route's handler; the properties say what the
  client gets.
\<close>

section \<open>Down to the route\<close>

text \<open>What recovery makes of an outcome, wherever the handler started.\<close>

definition recover ::
    "('c, 'd body, 'db ctx) gin \<Rightarrow> 'w os_lib \<Rightarrow> (unit, ('c, 'w, 'l, 'r) http) outcome \<Rightarrow>
     (unit, ('c, 'w, 'l, 'r) http) outcome" where
  "recover g os out =
     (case out of Returned u s \<Rightarrow> Returned u s | Panicked p s \<Rightarrow> recovery g os (\<lambda>s. Panicked p s) s)"

lemma recovery_recover: "recovery g os nxt s = recover g os (nxt s)"
  by (simp add: recover_def recovery_def split: outcome.split)

lemma recover_simps:
  "recover g os (Returned u s) = Returned u s"
  "\<exists>s3. recover g os (Panicked p s) = Returned () s3 \<and> ht_limiter s3 = ht_limiter s \<and>
     ht_ctx s3 = gin_abort_json g 200 (Envelope (error_response g (ht_ctx s) InternalError)) (ht_ctx s)"
proof -
  obtain st s' where n: "call_os (os_stack os) s = (st, s')" by fastforce
  show "\<exists>s3. recover g os (Panicked p s) = Returned () s3 \<and> ht_limiter s3 = ht_limiter s \<and>
     ht_ctx s3 = gin_abort_json g 200 (Envelope (error_response g (ht_ctx s) InternalError)) (ht_ctx s)"
    using call_os_ctx [OF n] by (simp add: recover_def recovery_def n Let_def)
qed (simp add: recover_def)

text \<open>What the outer middleware do to the outcome of the inner ones.\<close>

definition respond ::
    "('c, 'd body, 'db ctx) gin \<Rightarrow> 'w os_lib \<Rightarrow> config \<Rightarrow> int \<Rightarrow> (unit, ('c, 'w, 'l, 'r) http) outcome \<Rightarrow>
     (unit, ('c, 'w, 'l, 'r) http) outcome" where
  "respond g os cfg start out =
     trace_post g os (log_audit_enabled (cfg_log cfg)) (log_audit_excludes (cfg_log cfg)) start (recover g os out)"

lemma respond_Returned:
  "\<exists>s3. respond g os cfg start (Returned () s2) = Returned () s3 \<and> ht_ctx s3 = ht_ctx s2 \<and> ht_limiter s3 = ht_limiter s2"
  using trace_post_Returned [of g os _ _ start s2] by (fastforce simp: respond_def recover_simps)

text \<open>\<open>f\<close> is what the clock, the ids and the stack traces leave alone, as the rows of the database.\<close>

definition os_quiet :: "'w os_lib \<Rightarrow> ('w \<Rightarrow> 'x) \<Rightarrow> bool" where
  "os_quiet os f \<longleftrightarrow>
     (\<forall>w. f (snd (os_now os w)) = f w) \<and> (\<forall>w. f (snd (os_uuid os w)) = f w) \<and> (\<forall>w. f (snd (os_stack os w)) = f w)"

lemma respond_quiet:
  "os_quiet os f \<Longrightarrow> respond g os cfg start (Returned () s2) = Returned () s3 \<Longrightarrow>
   f (app_world (ht_app s3)) = f (app_world (ht_app s2))"
  by (auto simp: respond_def recover_simps trace_post_def os_quiet_def split: if_splits prod.splits dest!: call_os_world)

lemma respond_Panicked:
  "\<exists>s3. respond g os cfg start (Panicked p s2) = Returned () s3 \<and> ht_limiter s3 = ht_limiter s2 \<and>
     ht_ctx s3 = gin_abort_json g 200 (Envelope (error_response g (ht_ctx s2) InternalError)) (ht_ctx s2)"
proof -
  obtain s3 where "recover g os (Panicked p s2) = Returned () s3" "ht_limiter s3 = ht_limiter s2"
     "ht_ctx s3 = gin_abort_json g 200 (Envelope (error_response g (ht_ctx s2) InternalError)) (ht_ctx s2)"
    using recover_simps(2) [of g os p s2] by blast
  then show ?thesis using trace_post_Returned [of g os _ _ start s3] by (fastforce simp: respond_def)
qed

text \<open>A traced handler stays traced behind them, also when it panics.\<close>

lemma respond_traced:
  assumes g: "gin_ok g" and t: "traced g tid l (outcome_state out)" and r: "respond g os cfg start out = Returned () s'"
  shows "traced g tid l s'"
proof (cases out)
  case (Returned u s2)
  then show ?thesis using t r respond_Returned [of g os cfg start s2] by (cases u) (auto intro: traced_same_ctx)
next
  case (Panicked p s2)
  obtain s3 where s3: "respond g os cfg start (Panicked p s2) = Returned () s3" "ht_limiter s3 = ht_limiter s2"
     "ht_ctx s3 = gin_abort_json g 200 (Envelope (error_response g (ht_ctx s2) InternalError)) (ht_ctx s2)"
    using respond_Panicked by blast
  have "traced g tid l s2" using t Panicked by simp
  from traced_writes(5) [OF g this] have "traced g tid l s3" by (rule traced_same_ctx) (simp_all add: s3(2,3))
  then show ?thesis using s3(1) r Panicked by simp
qed

text \<open>
  A request that is no preflight reaches the limiter, or the route, with a trace id and otherwise
  as the client sent it.
\<close>

definition limiter_mw ::
    "('c, 'db, 'sql, 'k, 'q, 'i, 'w, 'l, 'r) libs \<Rightarrow> ('c, 'w, 'l, 'r) server \<Rightarrow> ('c, 'w, 'l, 'r) middleware list" where
  "limiter_mw X sv = (if sv_rate_limiter sv \<noteq> None then [rate_limit_middleware (lib_gin X) (lib_os X) (lib_rate X)] else [])"

text \<open>The outside as the route finds it: the middleware above read the clock and make a trace id.\<close>

definition route_world ::
    "('c, 'db, 'sql, 'k, 'q, 'i, 'w, 'l, 'r) libs \<Rightarrow> config \<Rightarrow> ('c, 'w, 'l, 'r) http \<Rightarrow> 'w" where
  "route_world X cfg s =
     timeout_world (lib_os X) (srv_request_timeout (cfg_server cfg))
       (trace_world (lib_gin X) (lib_os X) (ht_ctx s) (app_world (ht_app s)))"

lemma route_world_quiet: "os_quiet (lib_os X) f \<Longrightarrow> f (route_world X cfg s) = f (app_world (ht_app s))"
  by (simp add: route_world_def timeout_world_def trace_world_def os_quiet_def Let_def)

lemma down_to_route:
  fixes X :: "('c, 'db, 'sql, 'k, 'q, 'i, 'w, 'l, 'r) libs"
  assumes "gin_ok (lib_gin X)" and "uuid_ok (lib_os X)" and "new_server X p (Some reg) = Inr sv"
    and "reg_cfg reg = Some cfg" and "gin_method (lib_gin X) (ht_ctx s) \<noteq> ''OPTIONS''"
    and "gin_bodies (lib_gin X) (ht_ctx s) = []"
  obtains tid start s1 where
    "\<And>h. run_chain (en_middleware (sv_engine sv)) h s =
       respond (lib_gin X) (lib_os X) cfg start (run_chain (limiter_mw X sv) h s1)"
    "traced (lib_gin X) tid (ht_limiter s) s1" "bodies (lib_gin X) s1 = []"
    "gin_get_header (lib_gin X) (ht_ctx s1) = gin_get_header (lib_gin X) (ht_ctx s)"
    "gin_client_ip (lib_gin X) (ht_ctx s1) = gin_client_ip (lib_gin X) (ht_ctx s)"
    "if gin_get_header (lib_gin X) (ht_ctx s) ''X-Request-ID'' = [] then \<exists>w. tid = fst (os_uuid (lib_os X) w)
     else tid = gin_get_header (lib_gin X) (ht_ctx s) ''X-Request-ID''"
    "app_world (ht_app s1) = route_world X cfg s"
    "\<And>B n. binding_stable (lib_gin X) B \<Longrightarrow> bind_string B n (ht_ctx s1) = bind_string B n (ht_ctx s)"
    "trace_id_from (Some (gin_req_ctx (lib_gin X) (ht_ctx s1))) = tid"
    "\<And>B. binding_stable (lib_gin X) B \<Longrightarrow> bind_list B (ht_ctx s1) = bind_list B (ht_ctx s)"
    "tx_from_context (Some (gin_req_ctx (lib_gin X) (ht_ctx s1))) = tx_from_context (Some (gin_req_ctx (lib_gin X) (ht_ctx s)))"
    "app_logs (ht_app s1) = app_logs (ht_app s)"
proof -
  let ?g = "lib_gin X" and ?os = "lib_os X" and ?e = "sv_engine sv"
  define t where "t = srv_request_timeout (cfg_server cfg)"
  define orig where "orig = cors_allow_origins (cfg_cors cfg)"
  have g: "gin_ok ?g" by fact
  obtain cfg' where "reg_cfg reg = Some cfg'"
      "new_engine X p reg cfg' (new_http_handlers X reg) (sv_rate_limiter sv) = Inr ?e"
    using new_server_engine [OF assms(3)] by (metis option.inject)
  then have ne: "new_engine X p reg cfg (new_http_handlers X reg) (sv_rate_limiter sv) = Inr ?e" using assms(4) by simp
  obtain start tid s1 where
      tl: "\<And>nxt. trace_logger ?g ?os (log_audit_enabled (cfg_log cfg)) (log_audit_excludes (cfg_log cfg)) nxt s =
             trace_post ?g ?os (log_audit_enabled (cfg_log cfg)) (log_audit_excludes (cfg_log cfg)) start (nxt s1)"
        "ht_ctx s1 = trace_prep ?g tid (ht_ctx s)" "ht_limiter s1 = ht_limiter s"
        "if gin_get_header ?g (ht_ctx s) ''X-Request-ID'' = [] then \<exists>w. tid = fst (os_uuid ?os w)
         else tid = gin_get_header ?g (ht_ctx s) ''X-Request-ID''"
        "app_world (ht_app s1) = trace_world ?g ?os (ht_ctx s) (app_world (ht_app s))"
        "app_logs (ht_app s1) = app_logs (ht_app s)"
    by (rule trace_logger_steps [where s = s]) blast
  have tid: "tid \<noteq> []" using tl(4) assms(2) by (auto simp: uuid_ok_def split: if_splits)
  obtain s2 where s2: "\<And>nxt. timeout_middleware ?g ?os t nxt s1 = nxt s2" "ht_limiter s2 = ht_limiter s1"
      "ht_ctx s2 = ht_ctx s1 \<or> (\<exists>now d. ht_ctx s2 = gin_with_ctx ?g (with_timeout now d (gin_req_ctx ?g (ht_ctx s1))) (ht_ctx s1))"
      "app_world (ht_app s2) = timeout_world ?os t (app_world (ht_app s1))" "app_logs (ht_app s2) = app_logs (ht_app s1)"
    by (rule timeout_steps [where s = s1]) (auto split: if_splits)
  define s3 where "s3 = on_ctx (cors_ctx ?g orig) s2"
  have m: "gin_method ?g (ht_ctx s2) \<noteq> ''OPTIONS''" using s2(3) tl(2) g assms(5) by (auto simp: trace_prep_facts)
  have "run_chain (en_middleware ?e) h s = respond ?g ?os cfg start (run_chain (limiter_mw X sv) h s3)" for h
    by (simp add: engine_middleware [OF ne] tl(1) recovery_recover s2(1) cors_eq [OF g] m respond_def limiter_mw_def
        s3_def t_def [symmetric] orig_def [symmetric])
  moreover have "traced ?g tid (ht_limiter s) s2" "bodies ?g s2 = []"
      "gin_get_header ?g (ht_ctx s2) = gin_get_header ?g (ht_ctx s)"
      "gin_client_ip ?g (ht_ctx s2) = gin_client_ip ?g (ht_ctx s)"
    using s2(2,3) tl(2,3) g assms(6) tid
    by (auto simp: traced_def trace_prep_facts bodies_def, simp_all add: trace_prep_def Let_def)
  then have "traced ?g tid (ht_limiter s) s3" "bodies ?g s3 = []"
      "gin_get_header ?g (ht_ctx s3) = gin_get_header ?g (ht_ctx s)"
      "gin_client_ip ?g (ht_ctx s3) = gin_client_ip ?g (ht_ctx s)"
    using g by (simp_all add: s3_def cors_ctx_def cors_headers_def traced_def bodies_def Let_def)
  moreover have "app_world (ht_app s3) = route_world X cfg s"
    by (simp add: s3_def s2(4) tl(5) route_world_def t_def)
  moreover have "bind_string B n (ht_ctx s3) = bind_string B n (ht_ctx s)" if "binding_stable ?g B" for B n
    using s2(3) that
    by (auto simp: binding_stable_def s3_def cors_ctx_def cors_headers_def tl(2) trace_prep_def Let_def)
  moreover have "trace_id_from (Some (gin_req_ctx ?g (ht_ctx s3))) = tid"
    using s2(3) tl(2) g by (auto simp: s3_def cors_ctx_def cors_headers_def Let_def trace_prep_facts)
  moreover have "bind_list B (ht_ctx s3) = bind_list B (ht_ctx s)" if "binding_stable ?g B" for B
    using s2(3) that
    by (auto simp: binding_stable_def s3_def cors_ctx_def cors_headers_def tl(2) trace_prep_def Let_def)
  moreover have "tx_from_context (Some (gin_req_ctx ?g (ht_ctx s3))) = tx_from_context (Some (gin_req_ctx ?g (ht_ctx s)))"
    using s2(3) tl(2) g
    by (auto simp: s3_def cors_ctx_def cors_headers_def Let_def trace_prep_def with_timeout_def tx_from_context_def)
  moreover have "app_logs (ht_app s3) = app_logs (ht_app s)" by (simp add: s3_def s2(5) tl(6))
  ultimately show ?thesis using tl(4) by (intro that [of start s3 tid]) simp_all
qed

text \<open>The limiter, for a request that reaches it.\<close>

lemma rate_limit_eq:
  fixes s :: "('c, 'w, 'l, 'r) http"
  assumes "ht_limiter s = Some l"
    and "allow R (gin_client_ip g (ht_ctx s)) (fst (os_now os (app_world (ht_app s))))
           (fst (os_now os (snd (os_now os (app_world (ht_app s)))))) l = (ok, l')"
  obtains s2 where "ht_ctx s2 = ht_ctx s" "ht_limiter s2 = Some l'"
    "\<And>nxt. rate_limit_middleware g os R nxt s =
       (if ok then nxt s2
        else Returned () (on_ctx (\<lambda>c. gin_abort_json g 200 (Envelope (error_response g c TooManyRequests)) c) s2))"
proof -
  obtain t s0 where 1: "call_os (os_now os) s = (t, s0)" by fastforce
  obtain t' s1 where 2: "call_os (os_now os) s0 = (t', s1)" by fastforce
  have "allow R (gin_client_ip g (ht_ctx s1)) t t' l = (ok, l')"
    using assms(2) call_os_fst [OF 1] call_os_fst [OF 2] call_os_world [OF 1] call_os_ctx [OF 1] call_os_ctx [OF 2] by simp
  then show ?thesis using assms(1) call_os_ctx [OF 1] call_os_ctx [OF 2]
    by (intro that [of "s1\<lparr>ht_limiter := Some l'\<rparr>"]) (simp_all add: rate_limit_middleware_def 1 2 Let_def)
qed

lemma no_limiter: "ht_limiter s = None \<Longrightarrow> run_chain (limiter_mw X sv) h s = h s"
  by (simp add: limiter_mw_def rate_limit_middleware_def)

lemma traced_limiter: "traced g tid l s \<Longrightarrow> ht_ctx s' = ht_ctx s \<Longrightarrow> ht_limiter s' = l' \<Longrightarrow> traced g tid l' s'"
  by (simp add: traced_def bodies_def)

lemma limiter_keeps:
  fixes s :: "('c, 'w, 'l, 'r) http"
  assumes g: "gin_ok (lib_gin X)" and t: "traced (lib_gin X) tid l s"
    and h: "\<And>l s. traced (lib_gin X) tid l s \<Longrightarrow> traced (lib_gin X) tid l (outcome_state (h s))"
  shows "\<exists>l'. traced (lib_gin X) tid l' (outcome_state (run_chain (limiter_mw X sv) h s))"
proof (cases "sv_rate_limiter sv = None \<or> ht_limiter s = None")
  case True
  then have "run_chain (limiter_mw X sv) h s = h s" by (auto simp: limiter_mw_def rate_limit_middleware_def)
  then show ?thesis using h [OF t] by auto
next
  case False
  then obtain l0 where l0: "ht_limiter s = Some l0" by blast
  obtain ok l' where "allow (lib_rate X) (gin_client_ip (lib_gin X) (ht_ctx s)) (fst (os_now (lib_os X) (app_world (ht_app s))))
      (fst (os_now (lib_os X) (snd (os_now (lib_os X) (app_world (ht_app s)))))) l0 = (ok, l')" by fastforce
  from rate_limit_eq [OF l0 this] obtain s2 :: "('c, 'w, 'l, 'r) http" where
    s2: "ht_ctx s2 = ht_ctx s" "ht_limiter s2 = Some l'"
      "\<And>nxt. rate_limit_middleware (lib_gin X) (lib_os X) (lib_rate X) nxt s = (if ok then nxt s2
        else Returned () (on_ctx (\<lambda>c. gin_abort_json (lib_gin X) 200 (Envelope (error_response (lib_gin X) c TooManyRequests)) c) s2))"
    by blast
  have "traced (lib_gin X) tid (Some l') s2" using traced_limiter [OF t s2(1,2)] .
  then show ?thesis
    using False h [of "Some l'" s2] traced_writes(5) [OF g, of tid "Some l'" s2]
    by (cases ok) (auto simp: limiter_mw_def s2(3))
qed

lemma route_keeps:
  assumes "gin_ok (lib_gin X)" and "new_server X p reg = Inr sv" and "r \<in> set (en_routes (sv_engine sv))"
    and "traced (lib_gin X) tid l s"
  shows "traced (lib_gin X) tid l (outcome_state (run_chain (rt_middleware r) (rt_handler r) s))"
proof -
  obtain rg cfg where "new_engine X p rg cfg (new_http_handlers X rg) (sv_rate_limiter sv) = Inr (sv_engine sv)"
    using new_server_engine [OF assms(2)] by metis
  from engine_routes [OF this] show ?thesis using assms(1,3,4)
    by (auto simp: register_routes_def register_auth_routes_def register_example_routes_def Let_def traced_handlers
        split: option.splits if_splits)
qed

text \<open>
  A request for a route, without a limiter: when the route's middleware and handler return, the
  client sees the context they leave.
\<close>

lemma route_run:
  fixes X :: "('c, 'db, 'sql, 'k, 'q, 'i, 'w, 'l, 'r) libs"
  assumes "gin_ok (lib_gin X)" and "uuid_ok (lib_os X)" and "new_server X p (Some reg) = Inr sv" and "reg_cfg reg = Some cfg"
    and "find_route (sv_engine sv) (gin_method (lib_gin X) (ht_ctx s)) (gin_path (lib_gin X) (ht_ctx s)) = Some r"
    and "gin_method (lib_gin X) (ht_ctx s) \<noteq> ''OPTIONS''"
    and "gin_bodies (lib_gin X) (ht_ctx s) = []" and "ht_limiter s = None"
  obtains tid s1 where
    "traced (lib_gin X) tid None s1" "bodies (lib_gin X) s1 = []"
    "gin_get_header (lib_gin X) (ht_ctx s1) = gin_get_header (lib_gin X) (ht_ctx s)"
    "app_world (ht_app s1) = route_world X cfg s"
    "\<And>B n. binding_stable (lib_gin X) B \<Longrightarrow> bind_string B n (ht_ctx s1) = bind_string B n (ht_ctx s)"
    "trace_id_from (Some (gin_req_ctx (lib_gin X) (ht_ctx s1))) = tid"
    "\<And>s2. run_chain (rt_middleware r) (rt_handler r) s1 = Returned () s2 \<Longrightarrow>
       \<exists>s'. serve (lib_gin X) no_route (sv_engine sv) s = Returned () s' \<and> ht_ctx s' = ht_ctx s2"
    "\<And>B. binding_stable (lib_gin X) B \<Longrightarrow> bind_list B (ht_ctx s1) = bind_list B (ht_ctx s)"
    "tx_from_context (Some (gin_req_ctx (lib_gin X) (ht_ctx s1))) = tx_from_context (Some (gin_req_ctx (lib_gin X) (ht_ctx s)))"
    "\<And>s2 s' rows. run_chain (rt_middleware r) (rt_handler r) s1 = Returned () s2 \<Longrightarrow>
       serve (lib_gin X) no_route (sv_engine sv) s = Returned () s' \<Longrightarrow> os_quiet (lib_os X) rows \<Longrightarrow>
       (rows (app_world (ht_app s')) :: example list) = rows (app_world (ht_app s2))"
proof -
  let ?g = "lib_gin X" and ?os = "lib_os X" and ?e = "sv_engine sv"
  obtain tid start s1 where d:
      "\<And>h. run_chain (en_middleware ?e) h s = respond ?g ?os cfg start (run_chain (limiter_mw X sv) h s1)"
      "traced ?g tid (ht_limiter s) s1" "bodies ?g s1 = []"
      "gin_get_header ?g (ht_ctx s1) = gin_get_header ?g (ht_ctx s)" "app_world (ht_app s1) = route_world X cfg s"
      "\<And>B n. binding_stable ?g B \<Longrightarrow> bind_string B n (ht_ctx s1) = bind_string B n (ht_ctx s)"
      "trace_id_from (Some (gin_req_ctx ?g (ht_ctx s1))) = tid"
      "\<And>B. binding_stable ?g B \<Longrightarrow> bind_list B (ht_ctx s1) = bind_list B (ht_ctx s)"
      "tx_from_context (Some (gin_req_ctx ?g (ht_ctx s1))) = tx_from_context (Some (gin_req_ctx ?g (ht_ctx s)))"
    by (rule down_to_route [OF assms(1-4,6,7)]) (rule that)
  have l: "ht_limiter s1 = None" using d(2) assms(8) by (simp add: traced_def)
  show ?thesis
  proof (rule that [of tid s1])
    show "\<exists>s'. serve ?g no_route ?e s = Returned () s' \<and> ht_ctx s' = ht_ctx s2"
      if "run_chain (rt_middleware r) (rt_handler r) s1 = Returned () s2" for s2
      using respond_Returned [of ?g ?os cfg start s2] that l assms(5) by (auto simp: serve_def d(1) no_limiter)
    show "(rows (app_world (ht_app s')) :: example list) = rows (app_world (ht_app s2))"
      if "run_chain (rt_middleware r) (rt_handler r) s1 = Returned () s2" "serve ?g no_route ?e s = Returned () s'"
        "os_quiet ?os rows" for s2 s' rows
      using respond_quiet [OF that(3), of ?g cfg start s2 s'] that(1,2) l assms(5) by (simp add: serve_def d(1) no_limiter)
  qed (use d assms(8) in simp_all)
qed

text \<open>\<open>GET /api/v1/auth/me\<close> without a limiter, in full: the token decides.\<close>

lemma bearer_me_run:
  fixes s :: "('c, 'w, 'l, 'r) http" and os :: "'w os_lib" and J :: jwt_lib and m :: jwt_manager
    and g :: "('c, 'db) api_gin"
  assumes g: "gin_ok g"
  defines "c \<equiv> ht_ctx s"
  defines "verdict \<equiv> parse_token J m (fst (os_now os (app_world (ht_app s)))) (gin_get_header g c ''Authorization'')"
  obtains s' where "bearer_auth g os J (Some m) (me g) s = Returned () s'"
    "ht_ctx s' = (case verdict of
       Inl err \<Rightarrow> gin_abort_json g 200 (Envelope (error_response g c Unauthorized)) c
     | Inr cl \<Rightarrow> gin_json g 200 (Envelope (success_response (MeRes (cl_subject cl)))) (gin_set g auth_subject_key (cl_subject cl) c))"
proof -
  obtain now s1 where n: "call_os (os_now os) s = (now, s1)" by fastforce
  have v: "verdict = parse_token J m now (gin_get_header g (ht_ctx s1) ''Authorization'')" "ht_ctx s1 = c"
    using call_os_fst [OF n] call_os_ctx [OF n] by (simp_all add: verdict_def c_def)
  show ?thesis
  proof (cases verdict)
    case (Inl err)
    then show ?thesis using that v by (simp add: bearer_auth_def n reject_unauthorized_def on_ctx_def)
  next
    case (Inr cl)
    then show ?thesis using that v g by (simp add: bearer_auth_def n me_def write_success_def auth_subject_def on_ctx_def)
  qed
qed

definition unauthorized_envelope :: "string \<Rightarrow> 'd response" where
  "unauthorized_envelope tid =
     \<lparr>rsp_code = 1002, rsp_message = ''unauthorized'', rsp_reason = ''UNAUTHORIZED'', rsp_data = None,
      rsp_metadata = [(''trace_id'', tid)]\<rparr>"

lemma unauthorized_envelope_eq:
  "build_metadata g c = [(''trace_id'', tid)] \<Longrightarrow> error_response g c Unauthorized = unauthorized_envelope tid"
  by (simp add: error_response_def unauthorized_envelope_def message_for_def Let_def errcode_defs)

lemma me_run:
  fixes X :: "('c, 'db, 'sql, 'k, 'q, 'i, 'w, 'l, 'r) libs"
  assumes "gin_ok (lib_gin X)" and "uuid_ok (lib_os X)" and "new_server X p (Some reg) = Inr sv"
    and "reg_cfg reg = Some cfg" and "reg_auth reg = Some m"
    and "gin_method (lib_gin X) (ht_ctx s) = ''GET''" and "gin_path (lib_gin X) (ht_ctx s) = ''/api/v1/auth/me''"
    and "gin_bodies (lib_gin X) (ht_ctx s) = []" and "ht_limiter s = None"
  shows "\<exists>s' tid. serve (lib_gin X) no_route (sv_engine sv) s = Returned () s' \<and>
     gin_resp_header (lib_gin X) (ht_ctx s') ''X-Request-ID'' = Some tid \<and>
     gin_status (lib_gin X) (ht_ctx s') = 200 \<and>
     gin_bodies (lib_gin X) (ht_ctx s') =
       [Envelope (case parse_token (lib_jwt X) m (fst (os_now (lib_os X) (route_world X cfg s)))
                         (gin_get_header (lib_gin X) (ht_ctx s) ''Authorization'') of
                    Inl err \<Rightarrow> unauthorized_envelope tid
                  | Inr cl \<Rightarrow> success_response (MeRes (cl_subject cl)))]"
proof -
  let ?g = "lib_gin X" and ?os = "lib_os X" and ?e = "sv_engine sv"
  have g: "gin_ok ?g" by fact
  obtain cfg' where ne: "new_engine X p reg cfg' (new_http_handlers X reg) (sv_rate_limiter sv) = Inr ?e"
    using new_server_engine [OF assms(3)] by (metis option.inject)
  have "find_route ?e ''GET'' ''/api/v1/auth/me'' \<noteq> None"
    by (simp add: find_route_def engine_routes [OF ne] register_routes_def register_auth_routes_def
        new_http_handlers_def new_auth_handler_def assms(5) Let_def)
  then obtain r where r: "find_route ?e ''GET'' ''/api/v1/auth/me'' = Some r" by blast
  then have rr: "rt_handler r = me ?g" "rt_middleware r = [bearer_auth ?g ?os (lib_jwt X) (Some m)]"
    using auth_path_route [OF ne r] assms(5) by (metis option.inject)+
  have rf: "find_route ?e (gin_method ?g (ht_ctx s)) (gin_path ?g (ht_ctx s)) = Some r" and
      get: "gin_method ?g (ht_ctx s) \<noteq> ''OPTIONS''" using r assms(6,7) by simp_all
  obtain tid s1 where d: "traced ?g tid None s1" "bodies ?g s1 = []"
      "gin_get_header ?g (ht_ctx s1) = gin_get_header ?g (ht_ctx s)" "app_world (ht_app s1) = route_world X cfg s"
      "\<And>s2. run_chain (rt_middleware r) (rt_handler r) s1 = Returned () s2 \<Longrightarrow>
         \<exists>s'. serve ?g no_route ?e s = Returned () s' \<and> ht_ctx s' = ht_ctx s2"
    by (rule route_run [OF assms(1-4) rf get assms(8,9), of no_route]) (rule that)
  obtain s2 where s2: "bearer_auth ?g ?os (lib_jwt X) (Some m) (me ?g) s1 = Returned () s2"
      "ht_ctx s2 = (case parse_token (lib_jwt X) m (fst (os_now ?os (route_world X cfg s)))
                         (gin_get_header ?g (ht_ctx s) ''Authorization'') of
           Inl err \<Rightarrow> gin_abort_json ?g 200 (Envelope (error_response ?g (ht_ctx s1) Unauthorized)) (ht_ctx s1)
         | Inr cl \<Rightarrow> gin_json ?g 200 (Envelope (success_response (MeRes (cl_subject cl))))
                      (gin_set ?g auth_subject_key (cl_subject cl) (ht_ctx s1)))"
    by (rule bearer_me_run [OF g, where os = ?os and J = "lib_jwt X" and m = m and s = s1, unfolded d(3,4)]) (rule that)
  obtain s' where s': "serve ?g no_route ?e s = Returned () s'" "ht_ctx s' = ht_ctx s2"
    using d(5) [of s2] rr s2(1) by auto
  have t1: "gin_resp_header ?g (ht_ctx s1) ''X-Request-ID'' = Some tid" using d(1) by (simp add: traced_def)
  note env = unauthorized_envelope_eq [OF traced_metadata [OF d(1)]]
  show ?thesis
  proof (intro exI [of _ s'] exI [of _ tid] conjI)
    show "gin_resp_header ?g (ht_ctx s') ''X-Request-ID'' = Some tid"
      unfolding s'(2) s2(2) using t1 g by (simp split: sum.split)
    show "gin_status ?g (ht_ctx s') = 200"
      unfolding s'(2) s2(2) using d(2) g by (simp add: bodies_def split: sum.split)
    show "gin_bodies ?g (ht_ctx s') =
       [Envelope (case parse_token (lib_jwt X) m (fst (os_now ?os (route_world X cfg s)))
                         (gin_get_header ?g (ht_ctx s) ''Authorization'') of
                    Inl err \<Rightarrow> unauthorized_envelope tid
                  | Inr cl \<Rightarrow> success_response (MeRes (cl_subject cl)))]"
      unfolding s'(2) s2(2) using d(2) g by (simp add: bodies_def env split: sum.split)
  qed (rule s'(1))
qed

text \<open>\<open>POST /api/v1/auth/token\<close> without a limiter: what the client gets when it gets a token.\<close>

lemma create_token_run:
  fixes s :: "('c, 'w, 'l, 'r) http" and os :: "'w os_lib" and J :: jwt_lib and m :: jwt_manager
    and g :: "('c, 'db) api_gin"
  obtains s' b where "create_token g os J B (new_auth_handler (Some m)) s = Returned () s'" "ht_ctx s' = gin_json g 200 (Envelope b) (ht_ctx s)"
    "\<And>subject tok. bind_string B ''subject'' (ht_ctx s) = Inr subject \<Longrightarrow>
       generate_token J m (fst (os_now os (app_world (ht_app s)))) subject = Inr tok \<Longrightarrow>
       b = success_response (TokenRes tok ''Bearer'')"
    "\<And>d. rsp_data b = Some d \<Longrightarrow> \<exists>subject tok. bind_string B ''subject'' (ht_ctx s) = Inr subject \<and>
       generate_token J m (fst (os_now os (app_world (ht_app s)))) subject = Inr tok \<and> d = TokenRes tok ''Bearer''"
proof (cases "bind_string B ''subject'' (ht_ctx s)")
  case (Inl err)
  then show ?thesis
    by (intro that [of "on_ctx (\<lambda>c. gin_json g 200 (Envelope (build_validation_error_response g c err)) c) s"
          "build_validation_error_response g (ht_ctx s) err"])
       (simp_all add: create_token_def new_auth_handler_def build_validation_error_response_def Let_def)
next
  case (Inr subject)
  obtain now s1 where n: "call_os (os_now os) s = (now, s1)" by fastforce
  then have 1: "ht_ctx s1 = ht_ctx s" "fst (os_now os (app_world (ht_app s))) = now"
    using call_os_ctx [OF n] call_os_fst [OF n] by simp_all
  show ?thesis
  proof (cases "generate_token J m now subject")
    case (Inl err)
    then show ?thesis using Inr n 1
      by (intro that [of "on_ctx (write_error g (Coded InvalidParams)) s1" "error_response g (ht_ctx s) InvalidParams"])
         (simp_all add: create_token_def new_auth_handler_def write_error_eq)
  next
    case (Inr tok)
    then show ?thesis using \<open>bind_string B ''subject'' (ht_ctx s) = Inr subject\<close> n 1
      by (intro that [of "on_ctx (write_success g (TokenRes tok ''Bearer'')) s1" "success_response (TokenRes tok ''Bearer'')"])
         (simp_all add: create_token_def new_auth_handler_def write_success_def)
  qed
qed

lemma token_run_full:
  fixes X :: "('c, 'db, 'sql, 'k, 'q, 'i, 'w, 'l, 'r) libs"
  assumes "gin_ok (lib_gin X)" and "uuid_ok (lib_os X)" and "binding_stable (lib_gin X) (lib_binding X)"
    and "new_server X p (Some reg) = Inr sv" and "reg_cfg reg = Some cfg" and "reg_auth reg = Some m"
    and "gin_method (lib_gin X) (ht_ctx s) = ''POST''" and "gin_path (lib_gin X) (ht_ctx s) = ''/api/v1/auth/token''"
    and "gin_bodies (lib_gin X) (ht_ctx s) = []" and "ht_limiter s = None"
  obtains s' b where "serve (lib_gin X) no_route (sv_engine sv) s = Returned () s'"
    "gin_bodies (lib_gin X) (ht_ctx s') = [Envelope b]"
    "\<And>subject tok. bind_string (lib_binding X) ''subject'' (ht_ctx s) = Inr subject \<Longrightarrow>
       generate_token (lib_jwt X) m (fst (os_now (lib_os X) (route_world X cfg s))) subject = Inr tok \<Longrightarrow>
       b = success_response (TokenRes tok ''Bearer'')"
    "\<And>d. rsp_data b = Some d \<Longrightarrow> \<exists>subject tok. bind_string (lib_binding X) ''subject'' (ht_ctx s) = Inr subject \<and>
       generate_token (lib_jwt X) m (fst (os_now (lib_os X) (route_world X cfg s))) subject = Inr tok \<and> d = TokenRes tok ''Bearer''"
proof -
  let ?g = "lib_gin X" and ?os = "lib_os X" and ?e = "sv_engine sv"
  obtain cfg' where ne: "new_engine X p reg cfg' (new_http_handlers X reg) (sv_rate_limiter sv) = Inr ?e"
    using new_server_engine [OF assms(4)] by (metis option.inject)
  let ?h = "create_token ?g ?os (lib_jwt X) (lib_binding X) (new_auth_handler (Some m))"
  obtain r where r: "find_route ?e ''POST'' ''/api/v1/auth/token'' = Some r" "rt_handler r = ?h" "rt_middleware r = []"
    by (simp add: find_route_def engine_routes [OF ne] register_routes_def register_auth_routes_def
        new_http_handlers_def new_auth_handler_def assms(6) Let_def)
  have rf: "find_route ?e (gin_method ?g (ht_ctx s)) (gin_path ?g (ht_ctx s)) = Some r" and
      post: "gin_method ?g (ht_ctx s) \<noteq> ''OPTIONS''" using r(1) assms(7,8) by simp_all
  obtain s1 where d: "bodies ?g s1 = []" "\<And>B n. binding_stable ?g B \<Longrightarrow> bind_string B n (ht_ctx s1) = bind_string B n (ht_ctx s)"
      "app_world (ht_app s1) = route_world X cfg s"
      "\<And>s2. run_chain (rt_middleware r) (rt_handler r) s1 = Returned () s2 \<Longrightarrow>
         \<exists>s'. serve ?g no_route ?e s = Returned () s' \<and> ht_ctx s' = ht_ctx s2"
    by (rule route_run [OF assms(1,2,4,5) rf post assms(9,10), of no_route]) (rule that)
  note bind = d(2) [OF assms(3)]
  obtain s2 b where s2: "?h s1 = Returned () s2" "ht_ctx s2 = gin_json ?g 200 (Envelope b) (ht_ctx s1)"
    "\<And>subject tok. bind_string (lib_binding X) ''subject'' (ht_ctx s) = Inr subject \<Longrightarrow>
       generate_token (lib_jwt X) m (fst (os_now ?os (route_world X cfg s))) subject = Inr tok \<Longrightarrow>
       b = success_response (TokenRes tok ''Bearer'')"
    "\<And>d. rsp_data b = Some d \<Longrightarrow> \<exists>subject tok. bind_string (lib_binding X) ''subject'' (ht_ctx s) = Inr subject \<and>
       generate_token (lib_jwt X) m (fst (os_now ?os (route_world X cfg s))) subject = Inr tok \<and> d = TokenRes tok ''Bearer''"
    by (rule create_token_run [where g = ?g and os = ?os and J = "lib_jwt X" and m = m and B = "lib_binding X" and s = s1,
          unfolded d(3) bind]) (rule that)
  obtain s' where "serve ?g no_route ?e s = Returned () s'" "ht_ctx s' = ht_ctx s2"
    using d(4) [of s2] r s2(1) by auto
  then show ?thesis using that s2 assms(1) d(1) by (simp add: bodies_def)
qed

lemma token_run:
  assumes "gin_ok (lib_gin X)" and "uuid_ok (lib_os X)" and "binding_stable (lib_gin X) (lib_binding X)"
    and "new_server X p (Some reg) = Inr sv" and "reg_cfg reg = Some cfg" and "reg_auth reg = Some m"
    and "gin_method (lib_gin X) (ht_ctx s) = ''POST''" and "gin_path (lib_gin X) (ht_ctx s) = ''/api/v1/auth/token''"
    and "gin_bodies (lib_gin X) (ht_ctx s) = []" and "ht_limiter s = None"
    and "serve (lib_gin X) no_route (sv_engine sv) s = Returned () s'"
    and "gin_bodies (lib_gin X) (ht_ctx s') = [Envelope e]" and "rsp_data e = Some d"
  shows "\<exists>subject tok. bind_string (lib_binding X) ''subject'' (ht_ctx s) = Inr subject \<and> d = TokenRes tok ''Bearer'' \<and>
     generate_token (lib_jwt X) m (fst (os_now (lib_os X) (route_world X cfg s))) subject = Inr tok"
  by (rule token_run_full [OF assms(1-10), of no_route]) (use assms(11-13) in auto)

section \<open>A server to try the theorems on\<close>

text \<open>
  The outside is a counter: the clock reads it in seconds, and it advances with every inserted
  row. A request carries what Gin would bind as headers named after the fields.
\<close>

definition still_os :: "nat os_lib" where
  "still_os = \<lparr>os_now = (\<lambda>w. (int w * second, w)), os_uuid = (\<lambda>w. (''uuid'', w)), os_stack = (\<lambda>w. (''stack'', w))\<rparr>"

definition sample_binding :: "(api_data body, nat ctx) sample_ctx binding" where
  "sample_binding =
     \<lparr>bind_string = (\<lambda>n c. case map_of (sc_headers c) n of None \<Rightarrow> Inl (Foreign ''EOF'') | Some v \<Rightarrow> Inr v),
      bind_list = (\<lambda>c. Inr (10, 0))\<rparr>"

definition counting_gorm :: "(nat, nat) gorm" where
  "counting_gorm =
     \<lparr>gorm_with_context = (\<lambda>c db. db), gorm_create = (\<lambda>db ex w. ((None, ex\<lparr>ex_id := w\<rparr>), w + 1)),
      gorm_count = (\<lambda>db w. (Inr (int w), w)), gorm_find = (\<lambda>db ord l k w. (Inr [], w)),
      gorm_transaction = (\<lambda>db f s. f db s)\<rparr>"

type_synonym sample_request_ctx = "(api_data body, nat ctx) sample_ctx"

definition sample_libs ::
    "(sample_request_ctx, nat, nat, nat, nat, unit, nat, token_bucket, int) libs" where
  "sample_libs =
     \<lparr>lib_gin = sample_gin, lib_binding = sample_binding, lib_os = still_os, lib_jwt = sample_jwt,
      lib_rate = sample_rate, lib_db = open_db, lib_gorm = counting_gorm, lib_redis = open_redis,
      lib_asynq = open_asynq\<rparr>"

definition small_config :: config where
  "small_config =
     \<lparr>cfg_server = \<lparr>srv_port = '':8080'', srv_gin_mode = ''release'', srv_trusted_proxies = [], srv_request_timeout = minute\<rparr>,
      cfg_postgres = \<lparr>pg_dsn = ''dsn'', pg_log_level = ''warn'', pg_max_idle_conns = 1, pg_max_open_conns = 2,
                      pg_conn_max_lifetime = 0, pg_conn_max_idle_time = 0\<rparr>,
      cfg_redis = \<lparr>rds_addr = [], rds_password = [], rds_cache_db = 0, rds_queue_db = 1\<rparr>,
      cfg_auth = \<lparr>auth_jwt_secret = ''k1'', auth_jwt_issuer = ''gb'', auth_jwt_ttl = minute\<rparr>,
      cfg_cors = \<lparr>cors_allow_origins = [''http://a'']\<rparr>,
      cfg_log = \<lparr>log_level = ''info'', log_format = ''json'', log_stacktrace_level = ''error'',
                 log_audit_enabled = True, log_audit_excludes = [''/health'']\<rparr>,
      cfg_rate_limit = \<lparr>rl_requests_per_minute = 60\<rparr>\<rparr>"

definition sample_registry :: "(nat, nat, nat) registry" where
  "sample_registry =
     \<lparr>reg_cfg = Some small_config, reg_db = Some \<lparr>dm_primary = Some 0\<rparr>, reg_cache = None,
      reg_auth = Some \<lparr>jm_secret = ''k1'', jm_issuer = ''gb'', jm_ttl = minute\<rparr>,
      reg_queue = None, reg_queue_client = None\<rparr>"

definition sample_server ::
    "(sample_request_ctx, nat, token_bucket, int) server" where
  "sample_server =
     (case new_server sample_libs (\<lambda>_. None) (Some sample_registry) of Inr sv \<Rightarrow> sv)"

lemma sample_server_new: "new_server sample_libs (\<lambda>_. None) (Some sample_registry) = Inr sample_server"
  by (simp add: sample_server_def new_server_def validate_http_registry_def sample_registry_def dm_db_def
      new_engine_def Let_def)

text \<open>A request at the second \<open>t\<close>, by the limiter's state \<open>l\<close>.\<close>

definition sample_state ::
    "nat \<Rightarrow> (token_bucket, int) ip_rate_limiter option \<Rightarrow> string \<Rightarrow> string \<Rightarrow> (string \<times> string) list \<Rightarrow>
     (sample_request_ctx, nat, token_bucket, int) http" where
  "sample_state t l method path headers =
     \<lparr>ht_ctx = sample_request method path headers background, ht_app = \<lparr>app_world = t, app_logs = []\<rparr>, ht_limiter = l\<rparr>"

definition sample_no_route :: "(sample_request_ctx, nat, token_bucket, int) handler" where
  "sample_no_route s = Returned () s"

lemma sample_state_simps:
  "gin_method (lib_gin sample_libs) (ht_ctx (sample_state t l m p h)) = m"
  "gin_path (lib_gin sample_libs) (ht_ctx (sample_state t l m p h)) = p"
  "gin_bodies (lib_gin sample_libs) (ht_ctx (sample_state t l m p h)) = []"
  "gin_client_ip (lib_gin sample_libs) (ht_ctx (sample_state t l m p h)) = ''10.0.0.1''"
  "gin_get_header (lib_gin sample_libs) (ht_ctx (sample_state t l m p h)) k = (case map_of h k of None \<Rightarrow> [] | Some v \<Rightarrow> v)"
  "ht_limiter (sample_state t l m p h) = l"
  by (simp_all add: sample_state_def sample_libs_def sample_request_def sample_gin_def)

lemma sample_clock:
  "fst (os_now (lib_os sample_libs) w) = int w * second" "snd (os_now (lib_os sample_libs) w) = w"
  "route_world sample_libs small_config (sample_state t l m p h) = t"
  by (simp_all add: sample_libs_def still_os_def route_world_def timeout_world_def trace_world_def sample_state_def Let_def)

lemma sample_libs_ok: "gin_ok (lib_gin sample_libs)" "uuid_ok (lib_os sample_libs)"
  by (simp_all add: sample_libs_def sample_gin_ok uuid_ok_def still_os_def)

lemma sample_server_limits: "sv_rate_limiter sample_server \<noteq> None"
  by (simp add: sample_server_def new_server_def validate_http_registry_def sample_registry_def dm_db_def
      new_engine_def small_config_def new_ip_rate_limiter_per_minute_def Let_def)

lemma sample_server_routes:
  "find_route (sv_engine sample_server) ''GET'' ''/api/v1/auth/me'' \<noteq> None"
  "find_route (sv_engine sample_server) ''POST'' ''/api/v1/auth/token'' \<noteq> None"
  by (simp_all add: sample_server_def find_route_def new_server_def validate_http_registry_def sample_registry_def dm_db_def
      new_engine_def register_routes_def register_auth_routes_def new_http_handlers_def new_auth_handler_def Let_def)

text \<open>A preflight goes down to the CORS middleware and no further.\<close>

lemma preflight_run:
  fixes X :: "('c, 'db, 'sql, 'k, 'q, 'i, 'w, 'l, 'r) libs" and s :: "('c, 'w, 'l, 'r) http"
  assumes "gin_ok (lib_gin X)" and "uuid_ok (lib_os X)" and "new_server X p (Some reg) = Inr sv"
    and "reg_cfg reg = Some cfg" and "gin_method (lib_gin X) (ht_ctx s) = ''OPTIONS''"
  obtains s' tid and s2 :: "('c, 'w, 'l, 'r) http"
    where "serve (lib_gin X) no_route (sv_engine sv) s = Returned () s'" "ht_limiter s' = ht_limiter s"
    "ht_ctx s' = gin_abort_status (lib_gin X) 204 (cors_ctx (lib_gin X) (cors_allow_origins (cfg_cors cfg)) (ht_ctx s2))"
    "ht_ctx s2 = trace_prep (lib_gin X) tid (ht_ctx s) \<or>
     (\<exists>x. ht_ctx s2 = gin_with_ctx (lib_gin X) x (trace_prep (lib_gin X) tid (ht_ctx s)))" "tid \<noteq> []"
proof -
  let ?g = "lib_gin X" and ?os = "lib_os X" and ?e = "sv_engine sv"
  have g: "gin_ok ?g" by fact
  obtain cfg' where "reg_cfg reg = Some cfg'"
      "new_engine X p reg cfg' (new_http_handlers X reg) (sv_rate_limiter sv) = Inr ?e"
    using new_server_engine [OF assms(3)] by (metis option.inject)
  then have ne: "new_engine X p reg cfg (new_http_handlers X reg) (sv_rate_limiter sv) = Inr ?e" using assms(4) by simp
  have no: "find_route ?e ''OPTIONS'' path = None" for path
    using new_server_ok [OF g assms(3)] by (auto simp: engine_ok_def find_route_def find_None_iff list_all_iff)
  define audit where "audit = log_audit_enabled (cfg_log cfg)"
  define excl where "excl = log_audit_excludes (cfg_log cfg)"
  define t where "t = srv_request_timeout (cfg_server cfg)"
  define orig where "orig = cors_allow_origins (cfg_cors cfg)"
  define rest where "rest = (if sv_rate_limiter sv \<noteq> None then [rate_limit_middleware ?g ?os (lib_rate X)] else [])"
  have run: "serve ?g no_route ?e s =
      trace_logger ?g ?os audit excl (recovery ?g ?os (timeout_middleware ?g ?os t
        (cors ?g orig (run_chain rest no_route)))) s"
    using assms(5) no by (simp add: serve_def engine_middleware [OF ne] audit_def excl_def t_def orig_def rest_def)
  obtain start tid s1 where
      tl: "\<And>nxt. trace_logger ?g ?os audit excl nxt s = trace_post ?g ?os audit excl start (nxt s1)"
        "ht_ctx s1 = trace_prep ?g tid (ht_ctx s)" "ht_limiter s1 = ht_limiter s"
        "if gin_get_header ?g (ht_ctx s) ''X-Request-ID'' = [] then \<exists>w. tid = fst (os_uuid ?os w)
         else tid = gin_get_header ?g (ht_ctx s) ''X-Request-ID''"
    by (rule trace_logger_steps [where s = s]) blast
  have tid: "tid \<noteq> []" using tl(4) assms(2) by (auto simp: uuid_ok_def split: if_splits)
  obtain s2 where s2: "\<And>nxt. timeout_middleware ?g ?os t nxt s1 = nxt s2" "ht_limiter s2 = ht_limiter s1"
      "ht_ctx s2 = ht_ctx s1 \<or> (\<exists>x. ht_ctx s2 = gin_with_ctx ?g x (ht_ctx s1))"
    by (rule timeout_steps [where s = s1]) (auto split: if_splits)
  define s3 where "s3 = on_ctx (\<lambda>c. gin_abort_status ?g 204 (cors_ctx ?g orig c)) s2"
  have "gin_method ?g (ht_ctx s2) = ''OPTIONS''" using s2(3) tl(2) g assms(5) by (auto simp: trace_prep_facts)
  then have out: "serve ?g no_route ?e s = trace_post ?g ?os audit excl start (Returned () s3)"
    by (simp add: run tl(1) recovery_def s2(1) cors_eq [OF g] s3_def)
  obtain s4 where s4: "serve ?g no_route ?e s = Returned () s4" "ht_ctx s4 = ht_ctx s3" "ht_limiter s4 = ht_limiter s3"
    using trace_post_Returned [of ?g ?os audit excl start s3] unfolding out by blast
  have "ht_ctx s4 = gin_abort_status ?g 204 (cors_ctx ?g (cors_allow_origins (cfg_cors cfg)) (ht_ctx s2))"
    by (simp add: s4(2) s3_def orig_def)
  moreover have "ht_limiter s4 = ht_limiter s" using s2(2) tl(3) by (simp add: s4(3) s3_def)
  ultimately show ?thesis using s4(1) s2(3) tl(2) tid by (intro that [of s4 s2 tid]) auto
qed

section \<open>Properties\<close>

text \<open>
  C2. Every request for a route is answered: on the server \<open>NewServer\<close> assembles, whatever the
  request, the configuration and the state of database, Redis and limiter, handling it never
  panics and leaves exactly one JSON body in a response that had none, although six middlewares
  and the handler may each write one.
\<close>

theorem request_answered_once:
  assumes "gin_ok (lib_gin X)" and "new_server X p reg = Inr sv"
    and "find_route (sv_engine sv) (gin_method (lib_gin X) (ht_ctx s)) (gin_path (lib_gin X) (ht_ctx s)) = Some r"
    and "gin_bodies (lib_gin X) (ht_ctx s) = []"
  shows "\<exists>s' b. serve (lib_gin X) no_route (sv_engine sv) s = Returned () s' \<and> gin_bodies (lib_gin X) (ht_ctx s') = [b]"
proof -
  let ?g = "lib_gin X" and ?e = "sv_engine sv"
  obtain s' where s': "serve ?g no_route ?e s = Returned () s'" using serve_returns [OF assms(2)] by blast
  have ok: "engine_ok ?g ?e" using assms(1,2) by (rule new_server_ok)
  have r: "r \<in> set (en_routes ?e)" "rt_method r = gin_method ?g (ht_ctx s)" using find_route_set [OF assms(3)] by auto
  with ok have r2: "list_all (mw_contract ?g) (rt_middleware r)" "answers_once ?g (rt_handler r)"
      "gin_method ?g (ht_ctx s) \<in> {''GET'', ''POST''}"
    by (auto simp: engine_ok_def list_all_iff)
  have "list_all (mw_contract ?g) (en_middleware ?e @ rt_middleware r)"
    using ok r2(1) by (simp add: engine_ok_def)
  from chain_answered [OF this r2(2), of s] assms(3,4)
  have "answered ?g s (serve ?g no_route ?e s)" by (simp add: serve_def bodies_def)
  with s' r2(3) have "length (bodies ?g s') = 1" by (auto simp: answered_def)
  then show ?thesis using s' by (auto simp: bodies_def length_Suc_conv)
qed

text \<open>
  C3. The protected route is protected by the whole assembly: when \<open>GET /api/v1/auth/me\<close> is
  answered with data, the data is the subject of claims that the configured authenticator
  accepted in the Authorization header of this request, and that were signed with its secret.
\<close>

theorem me_requires_token:
  fixes X :: "('c, 'db, 'sql, 'k, 'q, 'i, 'w, 'l, 'r) libs"
  assumes "gin_ok (lib_gin X)" and "jwt_ok (lib_jwt X)" and "new_server X p (Some reg) = Inr sv"
    and "gin_method (lib_gin X) (ht_ctx s) = ''GET''" and "gin_path (lib_gin X) (ht_ctx s) = ''/api/v1/auth/me''"
    and "find_route (sv_engine sv) ''GET'' ''/api/v1/auth/me'' \<noteq> None"
    and "gin_bodies (lib_gin X) (ht_ctx s) = []"
    and "serve (lib_gin X) no_route (sv_engine sv) s = Returned () s'"
    and "gin_bodies (lib_gin X) (ht_ctx s') = [Envelope e]" and "rsp_data e = Some d"
  shows "\<exists>m now cl. reg_auth reg = Some m \<and> d = MeRes (cl_subject cl) \<and>
     parse_token (lib_jwt X) m now (gin_get_header (lib_gin X) (ht_ctx s) ''Authorization'') = Inr cl \<and>
     jwt_sign (lib_jwt X) (jm_secret m) cl =
       Inr (normalize_bearer_token (gin_get_header (lib_gin X) (ht_ctx s) ''Authorization''))"
proof -
  let ?g = "lib_gin X" and ?e = "sv_engine sv"
  obtain r where r: "find_route ?e ''GET'' ''/api/v1/auth/me'' = Some r" using assms(6) by blast
  obtain cfg where ne: "new_engine X p reg cfg (new_http_handlers X reg) (sv_rate_limiter sv) = Inr ?e"
    using new_server_engine [OF assms(3)] by (metis option.inject)
  obtain m where m: "reg_auth reg = Some m" "rt_handler r = me ?g"
      "rt_middleware r = [bearer_auth ?g (lib_os X) (lib_jwt X) (Some m)]"
    using auth_path_route [OF ne r] by metis
  let ?h = "bearer_auth ?g (lib_os X) (lib_jwt X) (Some m) (me ?g)"
  have mws: "list_all (mw_contract ?g) (en_middleware ?e)"
    using new_server_ok [OF assms(1,3)] by (simp add: engine_ok_def)
  have run: "run_chain (en_middleware ?e) ?h s = Returned () s'"
    using assms(4,5,8) r m by (simp add: serve_def)
  have "data_from ?g ?h s e"
    by (rule chain_data [OF mws answers_bearer_me [OF assms(1)] _ run]) (use assms in \<open>simp_all add: bodies_def\<close>)
  then obtain s1 s2 :: "('c, 'w, 'l, 'r) http" where
      s1: "same_request ?g (ht_ctx s) (ht_ctx s1)" "bodies ?g s1 = []"
      "?h s1 = Returned () s2" "bodies ?g s2 = [Envelope e]"
    unfolding data_from_def by blast
  from bearer_me_data [OF assms(1) s1(2-4) assms(10)] obtain now cl where
      cl: "parse_token (lib_jwt X) m now (gin_get_header ?g (ht_ctx s1) ''Authorization'') = Inr cl" "d = MeRes (cl_subject cl)"
    by blast
  moreover have "gin_get_header ?g (ht_ctx s1) = gin_get_header ?g (ht_ctx s)" using s1(1) by (simp add: same_request_def)
  ultimately show ?thesis
    using m(1) parse_token_sound(1) [OF assms(2) cl(1)] by auto
qed

text \<open>
  C23. A preflight never reaches a handler or the limiter: on the assembled server every OPTIONS
  request, for whatever path, ends in the CORS middleware with status 204 and no body, the same
  whatever Gin's answer to unknown routes; it takes no token from any bucket, and its origin is
  allowed exactly when it is configured.
\<close>

theorem preflight_short_circuit:
  fixes X :: "('c, 'db, 'sql, 'k, 'q, 'i, 'w, 'l, 'r) libs" and s :: "('c, 'w, 'l, 'r) http"
  assumes "gin_ok (lib_gin X)" and "uuid_ok (lib_os X)" and "new_server X p (Some reg) = Inr sv"
    and "reg_cfg reg = Some cfg" and "gin_method (lib_gin X) (ht_ctx s) = ''OPTIONS''"
    and "gin_bodies (lib_gin X) (ht_ctx s) = []"
  shows "\<exists>s'. serve (lib_gin X) no_route (sv_engine sv) s = Returned () s' \<and>
     gin_status (lib_gin X) (ht_ctx s') = 204 \<and> gin_bodies (lib_gin X) (ht_ctx s') = [] \<and>
     gin_aborted (lib_gin X) (ht_ctx s') \<and> ht_limiter s' = ht_limiter s \<and>
     gin_resp_header (lib_gin X) (ht_ctx s') ''Access-Control-Allow-Origin'' =
       (let origin = trim_space (gin_get_header (lib_gin X) (ht_ctx s) ''Origin'') in
        if origin \<in> set (map trim_space (cors_allow_origins (cfg_cors cfg))) - {[]} then Some origin
        else gin_resp_header (lib_gin X) (ht_ctx s) ''Access-Control-Allow-Origin'')"
proof -
  let ?g = "lib_gin X" and ?orig = "cors_allow_origins (cfg_cors cfg)"
  have g: "gin_ok ?g" by fact
  obtain s4 tid and s2 :: "('c, 'w, 'l, 'r) http" where s4: "serve ?g no_route (sv_engine sv) s = Returned () s4" "ht_limiter s4 = ht_limiter s"
      "ht_ctx s4 = gin_abort_status ?g 204 (cors_ctx ?g ?orig (ht_ctx s2))"
    and s2: "ht_ctx s2 = trace_prep ?g tid (ht_ctx s) \<or> (\<exists>x. ht_ctx s2 = gin_with_ctx ?g x (trace_prep ?g tid (ht_ctx s)))"
      "tid \<noteq> []"
    by (rule preflight_run [OF assms(1-5)]) (rule that)
  have c2: "gin_bodies ?g (ht_ctx s2) = []" "gin_get_header ?g (ht_ctx s2) = gin_get_header ?g (ht_ctx s)"
      "gin_resp_header ?g (ht_ctx s2) ''Access-Control-Allow-Origin'' =
        gin_resp_header ?g (ht_ctx s) ''Access-Control-Allow-Origin''"
    using s2 g assms(6) by (auto simp: trace_prep_facts)
  have c3: "gin_bodies ?g (cors_ctx ?g ?orig (ht_ctx s2)) = []" using g c2(1) by (simp add: cors_ctx_def Let_def)
  have "gin_resp_header ?g (ht_ctx s4) ''Access-Control-Allow-Origin'' =
       (let origin = trim_space (gin_get_header ?g (ht_ctx s) ''Origin'') in
        if origin \<in> set (map trim_space ?orig) - {[]} then Some origin
        else gin_resp_header ?g (ht_ctx s) ''Access-Control-Allow-Origin'')"
    unfolding s4(3) using g c2 by (simp add: cors_ctx_def cors_headers_origin Let_def)
  moreover have "gin_status ?g (ht_ctx s4) = 204" "gin_bodies ?g (ht_ctx s4) = []" "gin_aborted ?g (ht_ctx s4)"
    using g c3 by (simp_all add: s4(3))
  ultimately show ?thesis using s4(1,2) by blast
qed

text \<open>
  The limiter decides before the route: a request for a route spends a token of its client's
  bucket at the time it arrives, and the bucket it leaves is what the limiter then holds, also
  when the route is an error or panics. When the bucket refuses, the route does not run: the
  answer is TOO_MANY_REQUESTS with the trace id of the request.
\<close>

theorem rate_limit_decides:
  fixes X :: "('c, 'db, 'sql, 'k, 'q, 'i, 'w, 'l, 'r) libs"
  assumes "gin_ok (lib_gin X)" and "uuid_ok (lib_os X)" and "new_server X p (Some reg) = Inr sv"
    and "reg_cfg reg = Some cfg"
    and "find_route (sv_engine sv) (gin_method (lib_gin X) (ht_ctx s)) (gin_path (lib_gin X) (ht_ctx s)) = Some r"
    and "gin_bodies (lib_gin X) (ht_ctx s) = []" and "sv_rate_limiter sv \<noteq> None" and "ht_limiter s = Some l"
    and "(now, w) = os_now (lib_os X) (route_world X cfg s)" and "now' = fst (os_now (lib_os X) w)"
    and "allow (lib_rate X) (gin_client_ip (lib_gin X) (ht_ctx s)) now now' l = (ok, l')"
  shows "\<exists>s' tid. serve (lib_gin X) no_route (sv_engine sv) s = Returned () s' \<and> ht_limiter s' = Some l' \<and>
     gin_resp_header (lib_gin X) (ht_ctx s') ''X-Request-ID'' = Some tid \<and>
     (\<not> ok \<longrightarrow> gin_bodies (lib_gin X) (ht_ctx s') =
        [Envelope \<lparr>rsp_code = 1004, rsp_message = ''too many requests'', rsp_reason = ''TOO_MANY_REQUESTS'',
                   rsp_data = None, rsp_metadata = [(''trace_id'', tid)]\<rparr>])"
proof -
  let ?g = "lib_gin X" and ?e = "sv_engine sv"
  obtain s' where s': "serve ?g no_route ?e s = Returned () s'" using serve_returns [OF assms(3)] by blast
  have r: "r \<in> set (en_routes ?e)" "rt_method r = gin_method ?g (ht_ctx s)" using find_route_set [OF assms(5)] by auto
  have m: "gin_method ?g (ht_ctx s) \<noteq> ''OPTIONS''"
    using new_server_ok [OF assms(1,3)] r by (auto simp: engine_ok_def list_all_iff)
  let ?route = "run_chain (rt_middleware r) (rt_handler r)"
  obtain tid start s1 where d:
      "\<And>h. run_chain (en_middleware ?e) h s = respond ?g (lib_os X) cfg start (run_chain (limiter_mw X sv) h s1)"
      "traced ?g tid (ht_limiter s) s1" "bodies ?g s1 = []"
      "gin_client_ip ?g (ht_ctx s1) = gin_client_ip ?g (ht_ctx s)" "app_world (ht_app s1) = route_world X cfg s"
    by (rule down_to_route [OF assms(1-4) m assms(6)]) (rule that)
  have l: "ht_limiter s1 = Some l" using d(2) assms(8) by (simp add: traced_def)
  have w: "fst (os_now (lib_os X) (route_world X cfg s)) = now" "snd (os_now (lib_os X) (route_world X cfg s)) = w"
    using assms(9) by (metis fst_conv) (metis assms(9) snd_conv)
  have "allow (lib_rate X) (gin_client_ip ?g (ht_ctx s1)) (fst (os_now (lib_os X) (app_world (ht_app s1))))
      (fst (os_now (lib_os X) (snd (os_now (lib_os X) (app_world (ht_app s1)))))) l = (ok, l')"
    using assms(10,11) by (simp add: d(4,5) w)
  from rate_limit_eq [OF l this] obtain s2 :: "('c, 'w, 'l, 'r) http" where
    s2: "ht_ctx s2 = ht_ctx s1" "ht_limiter s2 = Some l'"
      "\<And>nxt. rate_limit_middleware ?g (lib_os X) (lib_rate X) nxt s1 = (if ok then nxt s2
        else Returned () (on_ctx (\<lambda>c. gin_abort_json ?g 200 (Envelope (error_response ?g c TooManyRequests)) c) s2))"
    by blast
  define out where "out = (if ok then ?route s2
        else Returned () (on_ctx (\<lambda>c. gin_abort_json ?g 200 (Envelope (error_response ?g c TooManyRequests)) c) s2))"
  have run: "serve ?g no_route ?e s = respond ?g (lib_os X) cfg start out"
    using assms(5,7) by (simp add: serve_def d(1) limiter_mw_def s2(3) out_def)
  have t2: "traced ?g tid (Some l') s2" using traced_limiter [OF d(2) s2(1,2)] .
  have "traced ?g tid (Some l') (outcome_state out)"
    using route_keeps [OF assms(1,3) r(1) t2] traced_writes(5) [OF assms(1) t2] by (simp add: out_def)
  then have t': "traced ?g tid (Some l') s'" using respond_traced [OF assms(1)] s' run by metis
  have "gin_bodies ?g (ht_ctx s') =
        [Envelope \<lparr>rsp_code = 1004, rsp_message = ''too many requests'', rsp_reason = ''TOO_MANY_REQUESTS'',
                   rsp_data = None, rsp_metadata = [(''trace_id'', tid)]\<rparr>]" if "\<not> ok"
  proof -
    define s3 where "s3 = on_ctx (\<lambda>c. gin_abort_json ?g 200 (Envelope (error_response ?g c TooManyRequests)) c) s2"
    have "ht_ctx s' = ht_ctx s3"
      using respond_Returned [of ?g "lib_os X" cfg start s3] s' run that by (auto simp: out_def s3_def)
    then have "ht_ctx s' = gin_abort_json ?g 200 (Envelope (error_response ?g (ht_ctx s1) TooManyRequests)) (ht_ctx s1)"
      by (simp add: s3_def s2(1))
    then show ?thesis
      using assms(1) d(3) traced_metadata [OF d(2)]
      by (simp add: bodies_def error_response_def message_for_def errcode_defs Let_def)
  qed
  then show ?thesis using s' t' by (auto simp: traced_def)
qed

text \<open>
  C9. Support can find every failure of a route: the response to a request for one of the routes has a
  trace id in its X-Request-ID header, the one the client sent or else a new UUID, and an error envelope
  names the same id in its metadata, whichever middleware, handler or recovered panic wrote it.
  (Requests that match no route are not meant: preflights, Gin's own 404 and its redirects.)
\<close>

theorem errors_name_the_trace:
  fixes X :: "('c, 'db, 'sql, 'k, 'q, 'i, 'w, 'l, 'r) libs"
  assumes "gin_ok (lib_gin X)" and "uuid_ok (lib_os X)" and "new_server X p (Some reg) = Inr sv"
    and "find_route (sv_engine sv) (gin_method (lib_gin X) (ht_ctx s)) (gin_path (lib_gin X) (ht_ctx s)) = Some r"
    and "gin_bodies (lib_gin X) (ht_ctx s) = []"
    and "serve (lib_gin X) no_route (sv_engine sv) s = Returned () s'"
  shows "\<exists>tid. tid \<noteq> [] \<and> gin_resp_header (lib_gin X) (ht_ctx s') ''X-Request-ID'' = Some tid \<and>
     tid \<in> (if gin_get_header (lib_gin X) (ht_ctx s) ''X-Request-ID'' = [] then range (\<lambda>w. fst (os_uuid (lib_os X) w))
            else {gin_get_header (lib_gin X) (ht_ctx s) ''X-Request-ID''}) \<and>
     (\<forall>e. gin_bodies (lib_gin X) (ht_ctx s') = [Envelope e] \<and> rsp_data e = None \<longrightarrow> rsp_metadata e = [(''trace_id'', tid)])"
proof -
  let ?g = "lib_gin X" and ?e = "sv_engine sv"
  obtain cfg where cfg: "reg_cfg reg = Some cfg" using new_server_engine [OF assms(3)] by (metis option.inject)
  have r: "r \<in> set (en_routes ?e)" "rt_method r = gin_method ?g (ht_ctx s)" using find_route_set [OF assms(4)] by auto
  have m: "gin_method ?g (ht_ctx s) \<noteq> ''OPTIONS''"
    using new_server_ok [OF assms(1,3)] r by (auto simp: engine_ok_def list_all_iff)
  let ?route = "run_chain (rt_middleware r) (rt_handler r)"
  obtain tid start s1 where d:
      "\<And>h. run_chain (en_middleware ?e) h s = respond ?g (lib_os X) cfg start (run_chain (limiter_mw X sv) h s1)"
      "traced ?g tid (ht_limiter s) s1"
      "if gin_get_header ?g (ht_ctx s) ''X-Request-ID'' = [] then \<exists>w. tid = fst (os_uuid (lib_os X) w)
       else tid = gin_get_header ?g (ht_ctx s) ''X-Request-ID''"
    by (rule down_to_route [OF assms(1-3) cfg m assms(5)]) (rule that)
  obtain l' where "traced ?g tid l' (outcome_state (run_chain (limiter_mw X sv) ?route s1))"
    using limiter_keeps [OF assms(1) d(2), where h = ?route and sv = sv] route_keeps [OF assms(1,3) r(1)] by blast
  moreover have "serve ?g no_route ?e s = respond ?g (lib_os X) cfg start (run_chain (limiter_mw X sv) ?route s1)"
    using assms(4) by (simp add: serve_def d(1))
  ultimately have "traced ?g tid l' s'" using respond_traced [OF assms(1)] assms(6) by metis
  then show ?thesis using d(3) by (intro exI [of _ tid]) (auto simp: traced_def bodies_def)
qed

text \<open>
  The protected route in full: without a limiter \<open>GET /api/v1/auth/me\<close> answers 200 with the
  subject of the token when the configured authenticator accepts the Authorization header at the
  time the route is reached, and with UNAUTHORIZED and the trace id when it does not.
\<close>

theorem me_decides:
  fixes X :: "('c, 'db, 'sql, 'k, 'q, 'i, 'w, 'l, 'r) libs"
  assumes "gin_ok (lib_gin X)" and "uuid_ok (lib_os X)" and "new_server X p (Some reg) = Inr sv"
    and "reg_cfg reg = Some cfg" and "reg_auth reg = Some m"
    and "gin_method (lib_gin X) (ht_ctx s) = ''GET''" and "gin_path (lib_gin X) (ht_ctx s) = ''/api/v1/auth/me''"
    and "gin_bodies (lib_gin X) (ht_ctx s) = []" and "ht_limiter s = None"
  shows "\<exists>s' tid. serve (lib_gin X) no_route (sv_engine sv) s = Returned () s' \<and>
     gin_resp_header (lib_gin X) (ht_ctx s') ''X-Request-ID'' = Some tid \<and>
     gin_status (lib_gin X) (ht_ctx s') = 200 \<and>
     gin_bodies (lib_gin X) (ht_ctx s') =
       [Envelope (case parse_token (lib_jwt X) m (fst (os_now (lib_os X) (route_world X cfg s)))
                         (gin_get_header (lib_gin X) (ht_ctx s) ''Authorization'') of
                    Inl err \<Rightarrow> unauthorized_envelope tid
                  | Inr cl \<Rightarrow> success_response (MeRes (cl_subject cl)))]"
  by (rule me_run [OF assms])

section \<open>The properties at work\<close>

abbreviation sample_login where
  "sample_login \<equiv> sample_state 1 None ''POST'' ''/api/v1/auth/token'' [(''subject'', ''ann''), (''X-Request-ID'', ''r-1'')]"

abbreviation sample_me where
  "sample_me tok \<equiv> sample_state 30 None ''GET'' ''/api/v1/auth/me'' [(''Authorization'', tok)]"

lemma sample_cfg: "reg_cfg sample_registry = Some small_config"
    "reg_auth sample_registry = Some \<lparr>jm_secret = ''k1'', jm_issuer = ''gb'', jm_ttl = minute\<rparr>"
  by (simp_all add: sample_registry_def)

text \<open>Twenty-nine seconds after it was issued, a token for ann with a minute to live.\<close>

lemma sample_parse:
  "parse_token sample_jwt \<lparr>jm_secret = ''k1'', jm_issuer = ''gb'', jm_ttl = minute\<rparr> (30 * second) ''Bearer tok1'' =
   Inr \<lparr>cl_subject = ''ann'', cl_issuer = ''gb'', cl_issued_at = Some second,
        cl_not_before = Some second, cl_expires_at = Some (61 * second)\<rparr>"
  by code_simp

lemma sample_lib_jwt: "lib_jwt sample_libs = sample_jwt"
  by (simp add: sample_libs_def)

lemma sample_binding_stable: "binding_stable (lib_gin sample_libs) (lib_binding sample_libs)"
  by (simp add: binding_stable_def sample_libs_def sample_binding_def sample_gin_def)

lemma sample_login_run:
  "\<exists>s'. serve (lib_gin sample_libs) sample_no_route (sv_engine sample_server) sample_login = Returned () s' \<and>
     gin_bodies (lib_gin sample_libs) (ht_ctx s') = [Envelope (success_response (TokenRes ''tok1'' ''Bearer''))]"
proof -
  have b: "bind_string (lib_binding sample_libs) ''subject'' (ht_ctx sample_login) = Inr ''ann''"
    by (simp add: sample_libs_def sample_binding_def sample_state_def sample_request_def)
  have t: "generate_token sample_jwt \<lparr>jm_secret = ''k1'', jm_issuer = ''gb'', jm_ttl = minute\<rparr> second ''ann'' = Inr ''tok1''"
    by code_simp
  show ?thesis
    by (rule token_run_full [OF sample_libs_ok sample_binding_stable sample_server_new sample_cfg,
          of sample_login sample_no_route])
       (use b t in \<open>simp_all add: sample_state_simps sample_clock sample_lib_jwt\<close>)
qed

theorem me_decides_witness:
  "\<exists>s'. serve (lib_gin sample_libs) sample_no_route (sv_engine sample_server) (sample_me ''Bearer tok1'') = Returned () s' \<and>
     gin_bodies (lib_gin sample_libs) (ht_ctx s') = [Envelope (success_response (MeRes ''ann''))]"
  using me_decides [OF sample_libs_ok sample_server_new sample_cfg, of "sample_me ''Bearer tok1''" sample_no_route]
  by (auto simp: sample_state_simps sample_clock sample_lib_jwt sample_parse)

theorem request_answered_once_witness:
  "\<exists>s' b. serve (lib_gin sample_libs) sample_no_route (sv_engine sample_server) (sample_me ''nonsense'') = Returned () s' \<and>
     gin_bodies (lib_gin sample_libs) (ht_ctx s') = [b]"
proof -
  obtain r where "find_route (sv_engine sample_server) ''GET'' ''/api/v1/auth/me'' = Some r"
    using sample_server_routes by blast
  then show ?thesis
    using request_answered_once [OF sample_libs_ok(1) sample_server_new, of "sample_me ''nonsense''" r sample_no_route]
    by (simp add: sample_state_simps)
qed

theorem errors_name_the_trace_witness:
  "\<exists>s'. serve (lib_gin sample_libs) sample_no_route (sv_engine sample_server) (sample_me ''nonsense'') = Returned () s' \<and>
     gin_resp_header (lib_gin sample_libs) (ht_ctx s') ''X-Request-ID'' = Some ''uuid''"
proof -
  obtain r where r: "find_route (sv_engine sample_server) ''GET'' ''/api/v1/auth/me'' = Some r"
    using sample_server_routes by blast
  obtain s' where s': "serve (lib_gin sample_libs) sample_no_route (sv_engine sample_server) (sample_me ''nonsense'') = Returned () s'"
    using serve_returns [OF sample_server_new] by blast
  have u: "fst (os_uuid (lib_os sample_libs) w) = ''uuid''" for w by (simp add: sample_libs_def still_os_def)
  show ?thesis
    using errors_name_the_trace [OF sample_libs_ok sample_server_new, of "sample_me ''nonsense''" r sample_no_route s'] r s'
    by (auto simp: sample_state_simps u)
qed

theorem me_requires_token_witness:
  "\<exists>m now cl. reg_auth sample_registry = Some m \<and> MeRes ''ann'' = MeRes (cl_subject cl) \<and>
     jwt_sign sample_jwt (jm_secret m) cl = Inr (normalize_bearer_token ''Bearer tok1'')"
proof -
  obtain s' where s': "serve (lib_gin sample_libs) sample_no_route (sv_engine sample_server) (sample_me ''Bearer tok1'') = Returned () s'"
     "gin_bodies (lib_gin sample_libs) (ht_ctx s') = [Envelope (success_response (MeRes ''ann''))]"
    using me_run [OF sample_libs_ok sample_server_new sample_cfg, of "sample_me ''Bearer tok1''" sample_no_route]
    by (auto simp: sample_state_simps sample_clock sample_lib_jwt sample_parse)
  have j: "jwt_ok (lib_jwt sample_libs)" by (simp add: sample_lib_jwt sample_jwt_ok)
  show ?thesis
    using me_requires_token [OF sample_libs_ok(1) j sample_server_new, of "sample_me ''Bearer tok1''" sample_no_route s'
        "success_response (MeRes ''ann'')" "MeRes ''ann''"] s' sample_server_routes
    by (auto simp: sample_state_simps sample_lib_jwt)
qed

theorem preflight_short_circuit_witness:
  "\<exists>s'. serve (lib_gin sample_libs) sample_no_route (sv_engine sample_server)
       (sample_state 1 None ''OPTIONS'' ''/api/v1/examples'' [(''Origin'', ''http://a'')]) = Returned () s' \<and>
     gin_status (lib_gin sample_libs) (ht_ctx s') = 204 \<and>
     gin_resp_header (lib_gin sample_libs) (ht_ctx s') ''Access-Control-Allow-Origin'' = Some ''http://a''"
proof -
  have t: "trim_space ''http://a'' = ''http://a''" by code_simp
  show ?thesis
    using preflight_short_circuit [OF sample_libs_ok sample_server_new sample_cfg(1),
        of "sample_state 1 None ''OPTIONS'' ''/api/v1/examples'' [(''Origin'', ''http://a'')]" sample_no_route]
    by (auto simp: sample_state_simps small_config_def t)
qed

text \<open>A bucket of one token, which is full again in nine seconds.\<close>

definition empty_limiter :: "(token_bucket, int) ip_rate_limiter" where
  "empty_limiter =
     \<lparr>rl_visitors = [''10.0.0.1'' \<mapsto> \<lparr>v_limiter = \<lparr>tb_interval = second, tb_burst = 1, tb_last = second, tb_credit = 0\<rparr>, v_last_seen = 0\<rparr>],
      rl_rate = second, rl_burst = 1, rl_stopped = False\<rparr>"

theorem rate_limit_decides_witness:
  "\<exists>s' e. serve (lib_gin sample_libs) sample_no_route (sv_engine sample_server)
       (sample_state 1 (Some empty_limiter) ''GET'' ''/api/v1/auth/me'' []) = Returned () s' \<and>
     gin_bodies (lib_gin sample_libs) (ht_ctx s') = [Envelope e] \<and> rsp_reason e = ''TOO_MANY_REQUESTS''"
proof -
  let ?s = "sample_state 1 (Some empty_limiter) ''GET'' ''/api/v1/auth/me'' []"
  obtain r where r: "find_route (sv_engine sample_server) ''GET'' ''/api/v1/auth/me'' = Some r"
    using sample_server_routes by blast
  obtain l' where a: "allow sample_rate ''10.0.0.1'' second second empty_limiter = (False, l')"
    by (simp add: allow_def empty_limiter_def sample_rate_simps second_def Let_def)
  have c: "(second, 1) = os_now (lib_os sample_libs) (route_world sample_libs small_config ?s)"
      "second = fst (os_now (lib_os sample_libs) 1)"
    by (simp_all add: sample_clock) (simp add: sample_libs_def still_os_def)
  have a': "allow (lib_rate sample_libs) (gin_client_ip (lib_gin sample_libs) (ht_ctx ?s)) second second empty_limiter = (False, l')"
    using a by (simp add: sample_state_simps) (simp add: sample_libs_def)
  obtain s' tid where "serve (lib_gin sample_libs) sample_no_route (sv_engine sample_server) ?s = Returned () s'"
      "gin_bodies (lib_gin sample_libs) (ht_ctx s') =
        [Envelope \<lparr>rsp_code = 1004, rsp_message = ''too many requests'', rsp_reason = ''TOO_MANY_REQUESTS'',
                   rsp_data = None, rsp_metadata = [(''trace_id'', tid)]\<rparr>]"
    using rate_limit_decides [OF sample_libs_ok sample_server_new sample_cfg(1) _ _ sample_server_limits _ c a', of r sample_no_route] r
    by (auto simp: sample_state_simps)
  then show ?thesis by auto
qed

end
