(* ===== verification/TaskFlow.thy ===== *)
theory TaskFlow
  imports Pipeline
begin

text \<open>
  From the request that queues a task to the worker that runs it: the routes of the examples on the
  assembled server of \<open>internal/server.go\<close>, and the assembled worker of \<open>internal/worker.go\<close>.
\<close>

section \<open>The routes\<close>

text \<open>The envelope of an error of the API under a trace id.\<close>

definition error_envelope :: "errcode \<Rightarrow> string \<Rightarrow> 'd response" where
  "error_envelope e tid =
     \<lparr>rsp_code = code_of e, rsp_message = message_for (reason_of e), rsp_reason = reason_of e, rsp_data = None,
      rsp_metadata = [(''trace_id'', tid)]\<rparr>"

lemma traced_error_response: "traced g tid l s \<Longrightarrow> error_response g (ht_ctx s) e = error_envelope e tid"
  by (simp add: error_response_def error_envelope_def traced_metadata Let_def)

lemma example_route:
  assumes "new_server X p (Some reg) = Inr sv"
  obtains r where "find_route (sv_engine sv) ''POST'' ''/api/v1/examples/tasks'' = Some r" "rt_middleware r = []"
    "rt_handler r = example_enqueue_task (lib_gin X) (lib_binding X) (hs_example (new_http_handlers X reg))"
proof -
  obtain cfg where "new_engine X p reg cfg (new_http_handlers X reg) (sv_rate_limiter sv) = Inr (sv_engine sv)"
    using new_server_engine [OF assms] by (metis option.inject)
  from engine_routes [OF this] show ?thesis
    by (intro that) (auto simp: find_route_def register_routes_def register_auth_routes_def register_example_routes_def
        Let_def split: option.split)
qed

text \<open>\<open>EnqueueTask\<close> of the service the server was made with, over a queue that has a client.\<close>

lemma enqueue_over_client:
  assumes "q_client q = Some client" and "new_example_task name [trace_id_from c] = Inr t"
  shows "svc_enqueue_task (new_example_service repo [Some (queue_value aq (Some q))]) c name s =
     (case aq client (normalize_context c) t [] (app_world s) of
        (Inr i, w) \<Rightarrow> (Inr True, s\<lparr>app_world := w\<rparr>)
      | (Inl err, w) \<Rightarrow>
          (Inl (Coded QueueError),
           add_log (ctx_log c ''error'' ''failed to enqueue example task'' [(''error'', FErr err)]) (s\<lparr>app_world := w\<rparr>)))"
proof -
  have v: "svc_queue (new_example_service repo [Some (queue_value aq (Some q))]) = Some (tq.value_of aq (Some q))"
    by (simp add: new_example_service_def queue_value_def tq.value_of_def)
  have "enqueue aq (Some q) c (Some t) [] w = aq client (normalize_context c) t [] w" for w
    by (simp add: enqueue_def normalize_context_def assms(1))
  then show ?thesis
    by (simp add: tq.enqueue_task_calls [OF v] available_def assms split: prod.split sum.split)
qed

lemma enqueue_request_run:
  fixes X :: "('c, 'db, 'sql, 'k, 'q, 'i, 'w, 'l, 'r) libs"
  assumes "gin_ok (lib_gin X)" and "uuid_ok (lib_os X)" and "binding_stable (lib_gin X) (lib_binding X)"
    and "new_server X p (Some reg) = Inr sv" and "reg_cfg reg = Some cfg"
    and "reg_queue reg = Some q" and "q_client q = Some client"
    and "gin_method (lib_gin X) (ht_ctx s) = ''POST''" and "gin_path (lib_gin X) (ht_ctx s) = ''/api/v1/examples/tasks''"
    and "gin_bodies (lib_gin X) (ht_ctx s) = []" and "ht_limiter s = None"
    and "bind_string (lib_binding X) ''name'' (ht_ctx s) = Inr name"
  obtains s' tid c t where "serve (lib_gin X) no_route (sv_engine sv) s = Returned () s'"
    "gin_resp_header (lib_gin X) (ht_ctx s') ''X-Request-ID'' = Some tid" "trace_id_from (Some c) = tid"
    "new_example_task name [tid] = Inr t"
    "gin_bodies (lib_gin X) (ht_ctx s') =
       [Envelope (case fst (aq_enqueue (lib_asynq X) client c t [] (route_world X cfg s)) of
                    Inr i \<Rightarrow> success_response (QueuedRes True) | Inl err \<Rightarrow> error_envelope QueueError tid)]"
proof -
  let ?g = "lib_gin X" and ?e = "sv_engine sv"
  let ?h = "hs_example (new_http_handlers X reg)"
  have g: "gin_ok ?g" by fact
  obtain r where r: "find_route ?e ''POST'' ''/api/v1/examples/tasks'' = Some r" "rt_middleware r = []"
      "rt_handler r = example_enqueue_task ?g (lib_binding X) ?h"
    by (rule example_route [OF assms(4)]) (rule that)
  have rf: "find_route ?e (gin_method ?g (ht_ctx s)) (gin_path ?g (ht_ctx s)) = Some r" and
      post: "gin_method ?g (ht_ctx s) \<noteq> ''OPTIONS''" using r(1) assms(8,9) by simp_all
  obtain tid s1 where d: "traced ?g tid None s1" "bodies ?g s1 = []" "app_world (ht_app s1) = route_world X cfg s"
      "\<And>B n. binding_stable ?g B \<Longrightarrow> bind_string B n (ht_ctx s1) = bind_string B n (ht_ctx s)"
      "trace_id_from (Some (gin_req_ctx ?g (ht_ctx s1))) = tid"
      "\<And>s2. run_chain (rt_middleware r) (rt_handler r) s1 = Returned () s2 \<Longrightarrow>
         \<exists>s'. serve ?g no_route ?e s = Returned () s' \<and> ht_ctx s' = ht_ctx s2"
    by (rule route_run [OF assms(1,2,4,5) rf post assms(10,11), of no_route]) (rule that)
  define c where "c = gin_req_ctx ?g (ht_ctx s1)"
  obtain t where t: "new_example_task name [tid] = Inr t" by (simp add: new_example_task_eq)
  then have tc: "new_example_task name [trace_id_from (Some c)] = Inr t" using d(5) by (simp add: c_def)
  have svc: "eh_svc ?h = new_example_service (Some (repository_value (lib_gorm X) (new_example_repository (dm_db (reg_db reg)))))
      [Some (queue_value (aq_enqueue (lib_asynq X)) (Some q))]"
    by (simp add: new_http_handlers_def new_example_handler_def assms(6) Let_def)
  obtain res w where e: "aq_enqueue (lib_asynq X) client c t [] (route_world X cfg s) = (res, w)" by fastforce
  define b where "b = (case res of Inr i \<Rightarrow> success_response (QueuedRes True) | Inl err \<Rightarrow> error_envelope QueueError tid)"
  have "\<exists>s2. run_chain (rt_middleware r) (rt_handler r) s1 = Returned () s2 \<and> ht_ctx s2 = gin_json ?g 200 (Envelope b) (ht_ctx s1)"
    using enqueue_over_client [OF assms(7) tc, of "Some (repository_value (lib_gorm X) (new_example_repository (dm_db (reg_db reg))))"
        "aq_enqueue (lib_asynq X)" "ht_app s1"] e
    by (cases res)
       (simp_all add: r(2,3) example_enqueue_task_def d(4) [OF assms(3)] assms(12) svc c_def [symmetric] d(3) b_def
         normalize_context_def write_error_eq write_success_def traced_error_response [OF d(1)] on_ctx_def Let_def)
  then obtain s2 where s2: "run_chain (rt_middleware r) (rt_handler r) s1 = Returned () s2"
      "ht_ctx s2 = gin_json ?g 200 (Envelope b) (ht_ctx s1)" by blast
  obtain s' where s': "serve ?g no_route ?e s = Returned () s'" "ht_ctx s' = ht_ctx s2" using d(6) [OF s2(1)] by blast
  show ?thesis
    by (rule that [OF s'(1) _ _ t, of c])
       (use d(1,2,5) g in \<open>simp_all add: s'(2) s2(2) traced_def bodies_def c_def [symmetric] e b_def\<close>)
qed

section \<open>The assembled worker\<close>

lemma new_worker_mux:
  "new_worker M A fresh reg = Inr wk \<Longrightarrow> \<exists>d mux. wk_mux wk = Some mux \<and>
     register_handlers M A (Some (d :: ('db, 'k cache_client, unit, 'q) deps)) (Some fresh) = Some mux"
  for reg :: "('db, 'k, 'q) registry option"
  by (auto simp: new_worker_def register_handlers_def register_trace_middleware_def Let_def split: option.splits)

section \<open>Properties\<close>

text \<open>
  C4. A request can be followed to the worker: a task queued by \<open>POST /api/v1/examples/tasks\<close> is handed
  to the queue's client once the route is reached, and the answer is that it is queued exactly when
  the client accepts it, else QUEUE_ERROR. When the assembled worker is given this task, it runs it
  to success and logs its start, the name of the request and its end under the trace id the client
  got in the X-Request-ID header of the answer, trimmed and valid UTF-8; only when that is blank,
  under one made of the id asynq gave the task.
\<close>

theorem queued_task_keeps_trace:
  fixes X :: "('c, 'db, 'sql, 'k, 'q, 'i, 'w, 'l, 'r) libs"
    and wreg :: "('db2, 'k2, 'q2) registry" and wk :: "('m, 'db2, 'w2) worker"
  assumes laws: "gin_ok (lib_gin X)" "uuid_ok (lib_os X)" "binding_stable (lib_gin X) (lib_binding X)"
    and server: "new_server X p (Some reg) = Inr sv" "reg_cfg reg = Some cfg" "reg_queue reg = Some q" "q_client q = Some client"
    and request: "gin_method (lib_gin X) (ht_ctx s) = ''POST''" "gin_path (lib_gin X) (ht_ctx s) = ''/api/v1/examples/tasks''"
      "gin_bodies (lib_gin X) (ht_ctx s) = []" "ht_limiter s = None"
      "bind_string (lib_binding X) ''name'' (ht_ctx s) = Inr name"
    and worker: "mux_ok M fresh" "new_worker M A fresh (Some wreg) = Inr wk" "trace_id_from wc = []"
  shows "\<exists>s' tid c t mux. serve (lib_gin X) no_route (sv_engine sv) s = Returned () s' \<and>
     gin_resp_header (lib_gin X) (ht_ctx s') ''X-Request-ID'' = Some tid \<and>
     gin_bodies (lib_gin X) (ht_ctx s') =
       [Envelope (case fst (aq_enqueue (lib_asynq X) client c t [] (route_world X cfg s)) of
                    Inr i \<Rightarrow> success_response (QueuedRes True) | Inl err \<Rightarrow> error_envelope QueueError tid)] \<and>
     wk_mux wk = Some mux \<and>
     (\<forall>v. \<exists>v' l1 l2 l3. mux_process M mux wc t v = Returned None v' \<and>
        app_world v' = app_world v \<and> app_logs v' = app_logs v @ [l1, l2, l3] \<and>
        map le_msg [l1, l2, l3] = [''asynq task started'', ''example task executed'', ''asynq task finished''] \<and>
        map_of (le_fields l2) ''name'' = Some (FStr (to_valid_utf8 name)) \<and>
        map le_trace [l1, l2, l3] = replicate 3
          (if trim_space tid = [] then new_trace_id [''asynq'', tm_task_id (task_meta_from_context A wc)]
           else trim_space (to_valid_utf8 (trim_space tid))))"
proof -
  obtain s' tid c t where s': "serve (lib_gin X) no_route (sv_engine sv) s = Returned () s'"
      "gin_resp_header (lib_gin X) (ht_ctx s') ''X-Request-ID'' = Some tid" "new_example_task name [tid] = Inr t"
      "gin_bodies (lib_gin X) (ht_ctx s') =
         [Envelope (case fst (aq_enqueue (lib_asynq X) client c t [] (route_world X cfg s)) of
                      Inr i \<Rightarrow> success_response (QueuedRes True) | Inl err \<Rightarrow> error_envelope QueueError tid)]"
    by (rule enqueue_request_run [OF laws server request, of no_route]) (rule that)
  obtain mux and d :: "('db2, 'k2 cache_client, unit, 'q2) deps" where
      mux: "wk_mux wk = Some mux" "register_handlers M A (Some d) (Some fresh) = Some mux"
    using new_worker_mux [OF worker(2)] by blast
  note run = example_task_run [OF worker(1) mux(2) s'(3) worker(3)]
  show ?thesis
    by (intro exI [of _ s'] exI [of _ tid] exI [of _ c] exI [of _ t] exI [of _ mux] conjI allI)
       (rule s' mux(1) run)+
qed

section \<open>The properties at work\<close>

definition queue_registry :: "(nat, nat, nat) registry" where
  "queue_registry = sample_registry\<lparr>reg_queue := new_queue (Some 1)\<rparr>"

definition queue_server :: "(sample_request_ctx, nat, token_bucket, int) server" where
  "queue_server = (case new_server sample_libs (\<lambda>_. None) (Some queue_registry) of Inr sv \<Rightarrow> sv)"

lemma queue_server_new: "new_server sample_libs (\<lambda>_. None) (Some queue_registry) = Inr queue_server"
  by (simp add: queue_server_def new_server_def validate_http_registry_def queue_registry_def sample_registry_def
      dm_db_def new_engine_def Let_def)

definition worker_registry :: "(unit, unit, unit) registry" where
  "worker_registry =
     \<lparr>reg_cfg = Some (small_config\<lparr>cfg_redis := \<lparr>rds_addr = ''redis:6379'', rds_password = [], rds_cache_db = 0, rds_queue_db = 1\<rparr>\<rparr>),
      reg_db = None, reg_cache = None, reg_auth = None, reg_queue = None, reg_queue_client = None\<rparr>"

theorem queued_task_keeps_trace_witness:
  "\<exists>s' t wk mux v'.
     serve (lib_gin sample_libs) sample_no_route (sv_engine queue_server)
       (sample_state 1 None ''POST'' ''/api/v1/examples/tasks'' [(''name'', ''demo''), (''X-Request-ID'', ''r-1'')]) = Returned () s' \<and>
     gin_bodies (lib_gin sample_libs) (ht_ctx s') = [Envelope (success_response (QueuedRes True))] \<and>
     new_worker sample_mux_ops sample_getters ([], []) (Some worker_registry) = Inr wk \<and> wk_mux wk = Some mux \<and>
     mux_process sample_mux_ops mux (Some background) t \<lparr>app_world = (), app_logs = []\<rparr> = Returned None v'"
proof -
  let ?s = "sample_state 1 None ''POST'' ''/api/v1/examples/tasks'' [(''name'', ''demo''), (''X-Request-ID'', ''r-1'')]"
  have q: "reg_cfg queue_registry = Some small_config" "reg_queue queue_registry = Some \<lparr>q_client = Some 1\<rparr>"
      "q_client \<lparr>q_client = Some (1 :: nat)\<rparr> = Some 1"
    by (simp_all add: queue_registry_def sample_registry_def new_queue_def)
  have b: "bind_string (lib_binding sample_libs) ''name'' (ht_ctx ?s) = Inr ''demo''"
    by (simp add: sample_libs_def sample_binding_def sample_state_def sample_request_def)
  have ok: "mux_ok sample_mux_ops ([], [])" by (simp add: mux_ok_def sample_mux_ops_def)
  obtain wk where wk: "new_worker sample_mux_ops sample_getters ([], []) (Some worker_registry) = Inr wk"
    by (simp add: new_worker_def validate_worker_registry_def worker_registry_def Let_def)
  have a: "fst (aq_enqueue (lib_asynq sample_libs) client c t opts w) = Inr ()" for client c t opts w
    by (simp add: sample_libs_def open_asynq_def)
  obtain s' t mux where s': "serve (lib_gin sample_libs) sample_no_route (sv_engine queue_server) ?s = Returned () s'"
      "gin_bodies (lib_gin sample_libs) (ht_ctx s') = [Envelope (success_response (QueuedRes True))]" "wk_mux wk = Some mux"
      "\<exists>v'. mux_process sample_mux_ops mux (Some background) t \<lparr>app_world = (), app_logs = []\<rparr> = Returned None v'"
    using queued_task_keeps_trace [OF sample_libs_ok sample_binding_stable queue_server_new q _ _ _ _ b ok wk,
        of "Some background" sample_no_route]
    by (simp add: sample_state_simps a) blast
  then show ?thesis using wk by blast
qed

end
