(* ===== verification/ExampleFlow.thy ===== *)
theory ExampleFlow
  imports TaskFlow
begin

text \<open>
  The two requests on examples over the assembled server of \<open>internal/server.go\<close>, from the route
  through \<open>internal/handler/example.go\<close>, \<open>internal/service/example.go\<close> and
  \<open>internal/repository/example.go\<close> to the rows of the database and back to the client.
\<close>

section \<open>The routes\<close>

definition server_service ::
    "('c, 'db, 'sql, 'k, 'q, 'i, 'w, 'l, 'r) libs \<Rightarrow> ('db, 'k, 'q) registry \<Rightarrow> ('db, 'i, 'w) example_service" where
  "server_service X reg =
     new_example_service (Some (repository_value (lib_gorm X) (new_example_repository (dm_db (reg_db reg)))))
       [Some (queue_value (aq_enqueue (lib_asynq X)) (reg_queue reg))]"

lemma server_handler: "eh_svc (hs_example (new_http_handlers X reg)) = server_service X reg"
  by (simp add: new_http_handlers_def new_example_handler_def server_service_def Let_def)

lemma example_routes:
  assumes "new_server X p (Some reg) = Inr sv"
  obtains r r' where
    "find_route (sv_engine sv) ''POST'' ''/api/v1/examples'' = Some r" "rt_middleware r = []"
    "rt_handler r = example_create (lib_gin X) (lib_binding X) (hs_example (new_http_handlers X reg))"
    "find_route (sv_engine sv) ''GET'' ''/api/v1/examples'' = Some r'" "rt_middleware r' = []"
    "rt_handler r' = example_list (lib_gin X) (lib_binding X) (hs_example (new_http_handlers X reg))"
proof -
  obtain cfg where "new_engine X p reg cfg (new_http_handlers X reg) (sv_rate_limiter sv) = Inr (sv_engine sv)"
    using new_server_engine [OF assms] by (metis option.inject)
  from engine_routes [OF this] show ?thesis
    by (intro that) (auto simp: find_route_def register_routes_def register_auth_routes_def register_example_routes_def
        Let_def split: option.split)
qed

section \<open>The service behind the handlers\<close>

text \<open>With a database, what the service does is an answer, never a panic.\<close>

lemma create_answers:
  assumes "dm_db (reg_db reg) = Some db" and "tx_from_context (Some c) = None"
  shows "\<exists>res s'. svc_create (server_service X reg) (Some c) name s = Returned res s' \<and>
     (res = Inl (Coded DatabaseError) \<or> (\<exists>ex. res = Inr ex))"
  by (auto simp: svc_create_def server_service_def new_example_service_def repository_value_def repo_create_def
      new_example_repository_def db_from_context_def call_world_def assms split: prod.split option.split)

lemma list_answers:
  assumes "dm_db (reg_db reg) = Some db" and "tx_from_context (Some c) = None"
  shows "\<exists>res s'. svc_list (server_service X reg) (Some c) limit offset s = Returned res s' \<and>
     (res = Inl (Coded DatabaseError) \<or> (\<exists>r. res = Inr r))"
  by (auto simp: svc_list_def server_service_def new_example_service_def repository_value_def repo_list_def
      new_example_repository_def db_from_context_def call_world_def assms Let_def split: prod.split sum.split)

lemma database_error_envelope:
  "traced g tid l s \<Longrightarrow> write_error g (Coded DatabaseError) (ht_ctx s) = gin_json g 200 (Envelope (error_envelope DatabaseError tid)) (ht_ctx s)"
  by (simp add: write_error_eq traced_error_response)

text \<open>
  A request to create, down to the rows: the answer carries what the service returned in a context of
  this request, and the rows the client leaves behind are those the service left.
\<close>

lemma create_request_run:
  fixes X :: "('c, 'db, 'sql, 'k, 'q, 'i, 'w, 'l, 'r) libs" and s :: "('c, 'w, 'l, 'r) http"
    and rows :: "'w \<Rightarrow> example list"
  assumes "gin_ok (lib_gin X)" and "uuid_ok (lib_os X)" and "binding_stable (lib_gin X) (lib_binding X)"
    and "new_server X p (Some reg) = Inr sv" and "reg_cfg reg = Some cfg" and "dm_db (reg_db reg) = Some db"
    and "gin_method (lib_gin X) (ht_ctx s) = ''POST''" and "gin_path (lib_gin X) (ht_ctx s) = ''/api/v1/examples''"
    and "gin_bodies (lib_gin X) (ht_ctx s) = []" and "ht_limiter s = None"
    and "tx_from_context (Some (gin_req_ctx (lib_gin X) (ht_ctx s))) = None"
    and "bind_string (lib_binding X) ''name'' (ht_ctx s) = Inr name" and "os_quiet (lib_os X) rows"
  obtains s' tid c p res p' where "serve (lib_gin X) no_route (sv_engine sv) s = Returned () s'"
    "gin_resp_header (lib_gin X) (ht_ctx s') ''X-Request-ID'' = Some tid" "tx_from_context (Some c) = None"
    "svc_create (server_service X reg) (Some c) name p = Returned res p'"
    "rows (app_world p) = rows (app_world (ht_app s))" "rows (app_world (ht_app s')) = rows (app_world p')"
    "gin_bodies (lib_gin X) (ht_ctx s') =
       [Envelope (case res of Inr ex \<Rightarrow> success_response (ExampleRes ex) | Inl err \<Rightarrow> error_envelope DatabaseError tid)]"
proof -
  let ?g = "lib_gin X" and ?e = "sv_engine sv" and ?h = "hs_example (new_http_handlers X reg)"
  have g: "gin_ok ?g" by fact
  obtain r where r: "find_route ?e ''POST'' ''/api/v1/examples'' = Some r" "rt_middleware r = []"
      "rt_handler r = example_create ?g (lib_binding X) ?h"
    by (rule example_routes [OF assms(4)]) (rule that)
  have rf: "find_route ?e (gin_method ?g (ht_ctx s)) (gin_path ?g (ht_ctx s)) = Some r" and
      post: "gin_method ?g (ht_ctx s) \<noteq> ''OPTIONS''" using r(1) assms(7,8) by simp_all
  obtain tid s1 where d: "traced ?g tid None s1" "bodies ?g s1 = []" "app_world (ht_app s1) = route_world X cfg s"
      "\<And>B n. binding_stable ?g B \<Longrightarrow> bind_string B n (ht_ctx s1) = bind_string B n (ht_ctx s)"
      "tx_from_context (Some (gin_req_ctx ?g (ht_ctx s1))) = tx_from_context (Some (gin_req_ctx ?g (ht_ctx s)))"
      "\<And>s2. run_chain (rt_middleware r) (rt_handler r) s1 = Returned () s2 \<Longrightarrow>
         \<exists>s'. serve ?g no_route ?e s = Returned () s' \<and> ht_ctx s' = ht_ctx s2"
      "\<And>s2 s' rows. run_chain (rt_middleware r) (rt_handler r) s1 = Returned () s2 \<Longrightarrow>
         serve ?g no_route ?e s = Returned () s' \<Longrightarrow> os_quiet (lib_os X) rows \<Longrightarrow>
         (rows (app_world (ht_app s')) :: example list) = rows (app_world (ht_app s2))"
    by (rule route_run [OF assms(1,2,4,5) rf post assms(9,10), of no_route]) (rule that)
  define c where "c = gin_req_ctx ?g (ht_ctx s1)"
  have c: "tx_from_context (Some c) = None" using d(5) assms(11) by (simp add: c_def)
  obtain res p' where svc: "svc_create (server_service X reg) (Some c) name (ht_app s1) = Returned res p'"
      "res = Inl (Coded DatabaseError) \<or> (\<exists>ex. res = Inr ex)"
    using create_answers [OF assms(6) c, of X name "ht_app s1"] by blast
  define b where "b = (case res of Inr ex \<Rightarrow> success_response (ExampleRes ex) | Inl err \<Rightarrow> error_envelope DatabaseError tid)"
  define s2 where "s2 = on_ctx (gin_json ?g 200 (Envelope b)) (s1\<lparr>ht_app := p'\<rparr>)"
  have s2: "run_chain (rt_middleware r) (rt_handler r) s1 = Returned () s2"
    using svc(2) database_error_envelope [OF d(1)]
    by (auto simp: r(2,3) example_create_def d(4) [OF assms(3)] assms(12) server_handler c_def [symmetric] call_app_def svc(1)
        write_success_def s2_def b_def on_ctx_def)
  obtain s' where s': "serve ?g no_route ?e s = Returned () s'" "ht_ctx s' = ht_ctx s2" using d(6) [OF s2] by blast
  show ?thesis
  proof (rule that [OF s'(1) _ c svc(1)])
    show "rows (app_world (ht_app s1)) = rows (app_world (ht_app s))"
      by (simp add: d(3) route_world_quiet assms(13))
    show "rows (app_world (ht_app s')) = rows (app_world p')"
      using d(7) [OF s2 s'(1) assms(13)] by (simp add: s2_def)
  qed (use d(1,2) g in \<open>simp_all add: s'(2) s2_def traced_def bodies_def b_def\<close>)
qed

lemma list_request_run:
  fixes X :: "('c, 'db, 'sql, 'k, 'q, 'i, 'w, 'l, 'r) libs" and s :: "('c, 'w, 'l, 'r) http"
    and rows :: "'w \<Rightarrow> example list"
  assumes "gin_ok (lib_gin X)" and "uuid_ok (lib_os X)" and "binding_stable (lib_gin X) (lib_binding X)"
    and "new_server X p (Some reg) = Inr sv" and "reg_cfg reg = Some cfg" and "dm_db (reg_db reg) = Some db"
    and "gin_method (lib_gin X) (ht_ctx s) = ''GET''" and "gin_path (lib_gin X) (ht_ctx s) = ''/api/v1/examples''"
    and "gin_bodies (lib_gin X) (ht_ctx s) = []" and "ht_limiter s = None"
    and "tx_from_context (Some (gin_req_ctx (lib_gin X) (ht_ctx s))) = None"
    and "bind_list (lib_binding X) (ht_ctx s) = Inr (limit, offset)" and "os_quiet (lib_os X) rows"
  obtains s' tid c p res p' where "serve (lib_gin X) no_route (sv_engine sv) s = Returned () s'"
    "gin_resp_header (lib_gin X) (ht_ctx s') ''X-Request-ID'' = Some tid" "tx_from_context (Some c) = None"
    "svc_list (server_service X reg) (Some c) limit offset p = Returned res p'"
    "rows (app_world p) = rows (app_world (ht_app s))" "rows (app_world (ht_app s')) = rows (app_world p')"
    "gin_bodies (lib_gin X) (ht_ctx s') =
       [Envelope (case res of Inr r \<Rightarrow> success_response (ListRes r) | Inl err \<Rightarrow> error_envelope DatabaseError tid)]"
proof -
  let ?g = "lib_gin X" and ?e = "sv_engine sv" and ?h = "hs_example (new_http_handlers X reg)"
  have g: "gin_ok ?g" by fact
  obtain r where r: "find_route ?e ''GET'' ''/api/v1/examples'' = Some r" "rt_middleware r = []"
      "rt_handler r = example_list ?g (lib_binding X) ?h"
    by (rule example_routes [OF assms(4)]) (rule that)
  have rf: "find_route ?e (gin_method ?g (ht_ctx s)) (gin_path ?g (ht_ctx s)) = Some r" and
      get: "gin_method ?g (ht_ctx s) \<noteq> ''OPTIONS''" using r(1) assms(7,8) by simp_all
  obtain tid s1 where d: "traced ?g tid None s1" "bodies ?g s1 = []" "app_world (ht_app s1) = route_world X cfg s"
      "\<And>B. binding_stable ?g B \<Longrightarrow> bind_list B (ht_ctx s1) = bind_list B (ht_ctx s)"
      "tx_from_context (Some (gin_req_ctx ?g (ht_ctx s1))) = tx_from_context (Some (gin_req_ctx ?g (ht_ctx s)))"
      "\<And>s2. run_chain (rt_middleware r) (rt_handler r) s1 = Returned () s2 \<Longrightarrow>
         \<exists>s'. serve ?g no_route ?e s = Returned () s' \<and> ht_ctx s' = ht_ctx s2"
      "\<And>s2 s' rows. run_chain (rt_middleware r) (rt_handler r) s1 = Returned () s2 \<Longrightarrow>
         serve ?g no_route ?e s = Returned () s' \<Longrightarrow> os_quiet (lib_os X) rows \<Longrightarrow>
         (rows (app_world (ht_app s')) :: example list) = rows (app_world (ht_app s2))"
    by (rule route_run [OF assms(1,2,4,5) rf get assms(9,10), of no_route]) (rule that)
  define c where "c = gin_req_ctx ?g (ht_ctx s1)"
  have c: "tx_from_context (Some c) = None" using d(5) assms(11) by (simp add: c_def)
  obtain res p' where svc: "svc_list (server_service X reg) (Some c) limit offset (ht_app s1) = Returned res p'"
      "res = Inl (Coded DatabaseError) \<or> (\<exists>r. res = Inr r)"
    using list_answers [OF assms(6) c, of X limit offset "ht_app s1"] by blast
  define b where "b = (case res of Inr r \<Rightarrow> success_response (ListRes r) | Inl err \<Rightarrow> error_envelope DatabaseError tid)"
  define s2 where "s2 = on_ctx (gin_json ?g 200 (Envelope b)) (s1\<lparr>ht_app := p'\<rparr>)"
  have s2: "run_chain (rt_middleware r) (rt_handler r) s1 = Returned () s2"
    using svc(2) database_error_envelope [OF d(1)]
    by (auto simp: r(2,3) example_list_def d(4) [OF assms(3)] assms(12) server_handler c_def [symmetric] call_app_def svc(1)
        write_success_def s2_def b_def on_ctx_def)
  obtain s' where s': "serve ?g no_route ?e s = Returned () s'" "ht_ctx s' = ht_ctx s2" using d(6) [OF s2] by blast
  show ?thesis
  proof (rule that [OF s'(1) _ c svc(1)])
    show "rows (app_world (ht_app s1)) = rows (app_world (ht_app s))"
      by (simp add: d(3) route_world_quiet assms(13))
    show "rows (app_world (ht_app s')) = rows (app_world p')"
      using d(7) [OF s2 s'(1) assms(13)] by (simp add: s2_def)
  qed (use d(1,2) g in \<open>simp_all add: s'(2) s2_def traced_def bodies_def b_def\<close>)
qed

section \<open>Properties\<close>

text \<open>
  C5. What a client creates, the next client sees first: when \<open>POST /api/v1/examples\<close> is answered with an
  example and \<open>GET /api/v1/examples\<close> from the start, with any limit, comes next and is answered with a
  page, the page shows that example first, under the name that was posted, which is not empty,
  followed by the rows that were the newest before, in at most a hundred, and its total is one more. Whatever each request is answered, the answer is
  one envelope, with the database error code when the database failed, and a request that only
  lists leaves the rows alone.
\<close>

theorem created_then_listed:
  fixes X :: "('c, 'db, 'sql, 'k, 'q, 'i, 'w, 'l, 'r) libs" and s t :: "('c, 'w, 'l, 'r) http"
  assumes laws: "gin_ok (lib_gin X)" "uuid_ok (lib_os X)" "binding_stable (lib_gin X) (lib_binding X)" "binding_ok (lib_binding X)"
      "gorm_reads_ok (lib_gorm X) rows" "gorm_create_ok (lib_gorm X) rows" "os_quiet (lib_os X) (rows db)"
    and server: "new_server X p (Some reg) = Inr sv" "reg_cfg reg = Some cfg" "dm_db (reg_db reg) = Some db"
    and create: "gin_method (lib_gin X) (ht_ctx s) = ''POST''" "gin_path (lib_gin X) (ht_ctx s) = ''/api/v1/examples''"
      "gin_bodies (lib_gin X) (ht_ctx s) = []" "ht_limiter s = None"
      "tx_from_context (Some (gin_req_ctx (lib_gin X) (ht_ctx s))) = None"
      "bind_string (lib_binding X) ''name'' (ht_ctx s) = Inr name"
    and created: "serve (lib_gin X) no_route (sv_engine sv) s = Returned () s'"
    and list: "gin_method (lib_gin X) (ht_ctx t) = ''GET''" "gin_path (lib_gin X) (ht_ctx t) = ''/api/v1/examples''"
      "gin_bodies (lib_gin X) (ht_ctx t) = []" "ht_limiter t = None"
      "tx_from_context (Some (gin_req_ctx (lib_gin X) (ht_ctx t))) = None"
      "bind_list (lib_binding X) (ht_ctx t) = Inr (limit, 0)"
    and after: "app_world (ht_app t) = app_world (ht_app s')"
    and listed: "serve (lib_gin X) no_route (sv_engine sv) t = Returned () t'"
  shows "gin_bodies (lib_gin X) (ht_ctx s') =
       [Envelope (error_envelope DatabaseError (the (gin_resp_header (lib_gin X) (ht_ctx s') ''X-Request-ID'')))] \<or>
     gin_bodies (lib_gin X) (ht_ctx t') =
       [Envelope (error_envelope DatabaseError (the (gin_resp_header (lib_gin X) (ht_ctx t') ''X-Request-ID'')))] \<or>
     (\<exists>ex res. gin_bodies (lib_gin X) (ht_ctx s') = [Envelope (success_response (ExampleRes ex))] \<and>
        gin_bodies (lib_gin X) (ht_ctx t') = [Envelope (success_response (ListRes res))] \<and>
        ex_name ex = name \<and> ex_name ex \<noteq> [] \<and> length (lr_examples res) \<le> 100 \<and>
        lr_total res = int (length (rows db (app_world (ht_app s)))) + 1 \<and>
        lr_examples res =
          ex # take ((if limit = 0 then 20 else nat limit) - 1) (newest_first (rows db (app_world (ht_app s)))) \<and>
        rows db (app_world (ht_app t')) = rows db (app_world (ht_app s)) @ [ex])"
proof -
  let ?R = "new_example_repository (dm_db (reg_db reg))"
  note at = laws(1-3) server
  have "create_example_req_tags name" "list_examples_req_tags limit 0"
    using laws(4) create(6) list(6) unfolding binding_ok_def by metis+
  then have tags: "name \<noteq> []" "0 \<le> limit" "(if limit = 0 then 20 else nat limit) \<le> 100"
    by (auto simp: create_example_req_tags_def list_examples_req_tags_def)
  obtain tid c1 p1 res1 p1' where h1: "gin_resp_header (lib_gin X) (ht_ctx s') ''X-Request-ID'' = Some tid" and 1: "tx_from_context (Some c1) = None"
      "svc_create (server_service X reg) (Some c1) name p1 = Returned res1 p1'"
      "rows db (app_world p1) = rows db (app_world (ht_app s))" "rows db (app_world (ht_app s')) = rows db (app_world p1')"
      "gin_bodies (lib_gin X) (ht_ctx s') =
         [Envelope (case res1 of Inr ex \<Rightarrow> success_response (ExampleRes ex) | Inl err \<Rightarrow> error_envelope DatabaseError tid)]"
    by (rule create_request_run [OF at create laws(7), of no_route]) (use created in auto)
  obtain tid' c2 p2 res2 p2' where h2: "gin_resp_header (lib_gin X) (ht_ctx t') ''X-Request-ID'' = Some tid'" and 2: "tx_from_context (Some c2) = None"
      "svc_list (server_service X reg) (Some c2) limit 0 p2 = Returned res2 p2'"
      "rows db (app_world p2) = rows db (app_world (ht_app t))" "rows db (app_world (ht_app t')) = rows db (app_world p2')"
      "gin_bodies (lib_gin X) (ht_ctx t') =
         [Envelope (case res2 of Inr r \<Rightarrow> success_response (ListRes r) | Inl err \<Rightarrow> error_envelope DatabaseError tid')]"
    by (rule list_request_run [OF at list(1-6) laws(7), of no_route]) (use listed in auto)
  have db: "db_from_context (Some c) (repo_db ?R) = Some db" if "tx_from_context (Some c) = None" for c
    using that server(3) by (simp add: db_from_context_def new_example_repository_def)
  have last: ?thesis if ex: "res1 = Inr ex" and r: "res2 = Inr r" for ex r
  proof -
    note made = create_row [OF laws(5,6) db [OF 1(1)] 1(2) [unfolded server_service_def ex]]
    note page = list_page [OF laws(5) db [OF 2(1)] tags(2) order_refl 2(2) [unfolded server_service_def r]]
    have "rows db (app_world p2) = rows db (app_world (ht_app s)) @ [ex]"
      using 1(3,4) 2(3) made(1) after by simp
    moreover have "newest_first (rows db (app_world (ht_app s)) @ [ex]) = ex # newest_first (rows db (app_world (ht_app s)))"
      by (rule newest_first_snoc) (use made(3) 1(3) in simp)
    moreover have "0 < (if limit = 0 then 20 else nat limit)" using tags(2) by simp
    ultimately have "ex_name ex = name \<and> ex_name ex \<noteq> [] \<and> length (lr_examples r) \<le> 100 \<and> lr_total r = int (length (rows db (app_world (ht_app s)))) + 1 \<and>
        lr_examples r =
          ex # take ((if limit = 0 then 20 else nat limit) - 1) (newest_first (rows db (app_world (ht_app s)))) \<and>
        rows db (app_world (ht_app t')) = rows db (app_world (ht_app s)) @ [ex]"
      using 2(4) made(2) page tags(1,3) by (auto simp: take_Cons')
    moreover have "gin_bodies (lib_gin X) (ht_ctx s') = [Envelope (success_response (ExampleRes ex))]"
        "gin_bodies (lib_gin X) (ht_ctx t') = [Envelope (success_response (ListRes r))]"
      using 1(5) 2(5) ex r by simp_all
    ultimately show ?thesis by blast
  qed
  show ?thesis using 1(5) 2(5) h1 h2 last by (cases res1; cases res2) auto
qed

section \<open>The properties at work\<close>

text \<open>A database of rows that are all named demo, and refuses others; its world counts them.\<close>

definition demo_rows :: "nat \<Rightarrow> example list" where
  "demo_rows w = map (\<lambda>i. (new_example ''demo'')\<lparr>ex_id := i\<rparr>) [0..<w]"

definition demo_gorm :: "(nat, nat) gorm" where
  "demo_gorm =
     \<lparr>gorm_with_context = (\<lambda>c db. db),
      gorm_create = (\<lambda>db ex w. if ex = new_example ''demo'' then ((None, ex\<lparr>ex_id := w\<rparr>), w + 1)
                               else ((Some (Foreign ''refused''), ex), w)),
      gorm_count = (\<lambda>db w. (Inr (int w), w)),
      gorm_find = (\<lambda>db ord l k w. (Inr (take (nat l) (drop (nat k) (newest_first (demo_rows w)))), w)),
      gorm_transaction = (\<lambda>db f s. f db s)\<rparr>"

definition demo_binding :: "sample_request_ctx binding" where
  "demo_binding =
     \<lparr>bind_string = (\<lambda>n c. case map_of (sc_headers c) n of
                            None \<Rightarrow> Inl (Foreign ''EOF'')
                          | Some v \<Rightarrow> if v = [] \<or> \<not> valid_utf8 v then Inl (Foreign ''required'') else Inr v),
      bind_list = (\<lambda>c. Inr (10, 0))\<rparr>"

lemma demo_gorm_ok: "gorm_reads_ok demo_gorm (\<lambda>db. demo_rows)" "gorm_create_ok demo_gorm (\<lambda>db. demo_rows)"
  by (auto simp: gorm_reads_ok_def gorm_create_ok_def demo_gorm_def demo_rows_def)

abbreviation demo_libs :: "(sample_request_ctx, nat, nat, nat, nat, unit, nat, token_bucket, int) libs" where
  "demo_libs \<equiv> sample_libs\<lparr>lib_binding := demo_binding, lib_gorm := demo_gorm\<rparr>"

definition demo_server :: "(sample_request_ctx, nat, token_bucket, int) server" where
  "demo_server = (case new_server demo_libs (\<lambda>_. None) (Some sample_registry) of Inr sv \<Rightarrow> sv)"

lemma demo_server_new: "new_server demo_libs (\<lambda>_. None) (Some sample_registry) = Inr demo_server"
  by (simp add: demo_server_def new_server_def validate_http_registry_def sample_registry_def dm_db_def new_engine_def Let_def)

lemma demo_facts:
  "gin_ok (lib_gin demo_libs)" "uuid_ok (lib_os demo_libs)" "binding_stable (lib_gin demo_libs) (lib_binding demo_libs)" "binding_ok (lib_binding demo_libs)"
  "gorm_reads_ok (lib_gorm demo_libs) (\<lambda>db. demo_rows)" "gorm_create_ok (lib_gorm demo_libs) (\<lambda>db. demo_rows)"
  "os_quiet (lib_os demo_libs) demo_rows" "reg_cfg sample_registry = Some small_config" "dm_db (reg_db sample_registry) = Some 0"
  using sample_libs_ok demo_gorm_ok
  by (simp_all add: os_quiet_def sample_libs_def still_os_def sample_registry_def dm_db_def binding_stable_def binding_ok_def
      demo_binding_def sample_gin_def create_token_req_tags_def create_example_req_tags_def enqueue_example_task_req_tags_def
      list_examples_req_tags_def split: option.split)

lemma demo_service:
  "svc_create (server_service demo_libs sample_registry) (Some c) ''demo'' p = Returned res p' \<Longrightarrow> tx_from_context (Some c) = None \<Longrightarrow> \<exists>ex. res = Inr ex"
  "svc_list (server_service demo_libs sample_registry) (Some c) 10 0 p = Returned lres p' \<Longrightarrow> tx_from_context (Some c) = None \<Longrightarrow> \<exists>r. lres = Inr r"
  by (auto simp: svc_create_def svc_list_def server_service_def new_example_service_def repository_value_def repo_create_def
      repo_list_def new_example_repository_def db_from_context_def call_world_def sample_registry_def dm_db_def demo_gorm_def Let_def)

lemma demo_request:
  "tx_from_context (Some (gin_req_ctx (lib_gin demo_libs) (ht_ctx (sample_state n None m q h)))) = None"
  "bind_list (lib_binding demo_libs) (ht_ctx (sample_state n None m q h)) = Inr (10, 0)"
  "bind_string (lib_binding demo_libs) ''name'' (ht_ctx (sample_state n None m q [(''name'', ''demo'')])) = Inr ''demo''"
  "app_world (ht_app (sample_state n None m q h)) = n"
  by (simp_all add: sample_libs_def sample_gin_def demo_binding_def sample_state_def sample_request_def, code_simp)

lemma success_no_error: "success_response d \<noteq> error_envelope e tid"
  by (simp add: success_response_def error_envelope_def)

theorem created_then_listed_witness:
  "\<exists>s' t' res. serve (lib_gin demo_libs) sample_no_route (sv_engine demo_server)
       (sample_state 2 None ''POST'' ''/api/v1/examples'' [(''name'', ''demo'')]) = Returned () s' \<and>
     serve (lib_gin demo_libs) sample_no_route (sv_engine demo_server)
       (sample_state (app_world (ht_app s')) None ''GET'' ''/api/v1/examples'' []) = Returned () t' \<and>
     gin_bodies (lib_gin demo_libs) (ht_ctx t') = [Envelope (success_response (ListRes res))] \<and> lr_total res = 3"
proof -
  let ?s = "sample_state 2 None ''POST'' ''/api/v1/examples'' [(''name'', ''demo'')]"
  obtain s' d where s': "serve (lib_gin demo_libs) sample_no_route (sv_engine demo_server) ?s = Returned () s'"
      "gin_bodies (lib_gin demo_libs) (ht_ctx s') = [Envelope (success_response d)]"
    by (rule create_request_run [OF demo_facts(1-3) demo_server_new demo_facts(8,9) _ _ _ _ demo_request(1,3) demo_facts(7), where no_route = sample_no_route])
       (auto simp: sample_state_simps dest!: demo_service(1))
  let ?t = "sample_state (app_world (ht_app s')) None ''GET'' ''/api/v1/examples'' []"
  obtain t' d' where t': "serve (lib_gin demo_libs) sample_no_route (sv_engine demo_server) ?t = Returned () t'"
      "gin_bodies (lib_gin demo_libs) (ht_ctx t') = [Envelope (success_response d')]"
    by (rule list_request_run [OF demo_facts(1-3) demo_server_new demo_facts(8,9) _ _ _ _ demo_request(1,2) demo_facts(7), where no_route = sample_no_route])
       (auto simp: sample_state_simps dest!: demo_service(2))
  from created_then_listed [OF demo_facts(1-7) demo_server_new demo_facts(8,9) _ _ _ _ demo_request(1,3) s'(1)
      _ _ _ _ demo_request(1,2) demo_request(4) t'(1)]
  show ?thesis using s' t' by (auto simp: sample_state_simps demo_request(4) success_no_error demo_rows_def)
qed

end
