(* ===== verification/Resources.thy ===== *)
theory Resources
  imports Bootstrap
begin

text \<open>
  Who owns a connection: what the initialisation of a process opens and what \<open>Registry.Close\<close>
  releases, counted by a view \<open>opened\<close> of the outside. The connection that asynq's server makes for
  itself in the worker, and closes itself, is not among them.
\<close>

text \<open>
  The promises of the client libraries: a constructor that succeeds opens one resource, a failed
  one none; closing releases it, with or without an error; nothing else changes the count.
\<close>

definition counts :: "('w \<Rightarrow> int) \<Rightarrow> int \<Rightarrow> ('w \<Rightarrow> 'a \<times> 'w) \<Rightarrow> bool" where
  "counts opened n f \<longleftrightarrow> (\<forall>w. opened (snd (f w)) = opened w + n)"

definition db_counts :: "('w \<Rightarrow> int) \<Rightarrow> ('db, 'sql, 'w) db_lib \<Rightarrow> bool" where
  "db_counts opened D \<longleftrightarrow>
     (\<forall>dsn level w. case db_open D dsn level w of
        (Inl err, w') \<Rightarrow> opened w' = opened w
      | (Inr db, w') \<Rightarrow> opened w' = opened w + 1) \<and>
     (\<forall>sql f w. opened (sql_update D sql f w) = opened w) \<and>
     (\<forall>sql ctx. counts opened 0 (sql_ping D sql ctx)) \<and>
     (\<forall>sql. counts opened (- 1) (sql_close D sql))"

definition redis_counts :: "('w \<Rightarrow> int) \<Rightarrow> ('k, 'db, 'w) redis_lib \<Rightarrow> bool" where
  "redis_counts opened L \<longleftrightarrow>
     (\<forall>cfg. counts opened 1 (redis_new L cfg)) \<and>
     (\<forall>r ctx. counts opened 0 (redis_ping L r ctx)) \<and>
     (\<forall>r. counts opened (- 1) (redis_close L r))"

definition asynq_counts :: "('w \<Rightarrow> int) \<Rightarrow> ('q, 'db, 'i, 'w) asynq_lib \<Rightarrow> bool" where
  "asynq_counts opened Q \<longleftrightarrow>
     (\<forall>opt. counts opened 1 (aq_new Q opt)) \<and> (\<forall>q. counts opened (- 1) (aq_close Q q))"

text \<open>What a registry owns; a database manager without a connection owns nothing.\<close>

definition owned :: "('db, 'k, 'q) registry \<Rightarrow> int" where
  "owned reg =
     (if reg_queue_client reg = None then 0 else 1) + (if underlying (reg_cache reg) = None then 0 else 1) +
     (if dm_db (reg_db reg) = None then 0 else 1)"

text \<open>Closing a database needs the \<open>sql.DB\<close> that tuning its pool has already got.\<close>

definition closable :: "('db, 'sql, 'w) db_lib \<Rightarrow> ('db, 'k, 'q) registry \<Rightarrow> bool" where
  "closable D reg \<longleftrightarrow> (case dm_db (reg_db reg) of None \<Rightarrow> True | Some db \<Rightarrow> \<exists>sql. db_sql D db = Inr sql)"

section \<open>Lemmas\<close>

lemma countsD: "counts opened n f \<Longrightarrow> f w = (a, w') \<Longrightarrow> opened w' = opened w + n"
  unfolding counts_def by (metis snd_conv)

lemma counts_call_world:
  "counts opened n f \<Longrightarrow> call_world f s = (a, s') \<Longrightarrow> opened (app_world s') = opened (app_world s) + n"
  by (auto simp: call_world_def split: prod.splits dest: countsD)

lemma opened_fold:
  "db_counts opened D \<Longrightarrow> opened (fold (sql_update D sql) fs w) = opened w"
  by (induction fs arbitrary: w) (simp_all add: db_counts_def)

lemma tune_pool_counts:
  "db_counts opened D \<Longrightarrow> counts opened 0 (tune_pool D db pool)"
  by (simp add: counts_def tune_pool_def opened_fold split: sum.split)

lemma parse_log_level_world: "new_gorm_logger level s = (l, s') \<Longrightarrow> app_world s' = app_world s"
  by (auto simp: new_gorm_logger_def parse_log_level_def Let_def split: if_splits)

text \<open>Opening the database, the cache and the queue client.\<close>

lemma database_init_counts:
  assumes "db_counts opened D" and "database_init D cfg s = (Inr m, s')"
  shows "opened (app_world s') = opened (app_world s) + (if dm_primary m = None then 0 else 1)"
    "\<And>db. dm_primary m = Some db \<Longrightarrow> \<exists>sql. db_sql D db = Inr sql"
proof -
  have "opened (app_world s') = opened (app_world s) + (if dm_primary m = None then 0 else 1) \<and>
    (\<forall>db. dm_primary m = Some db \<longrightarrow> (\<exists>sql. db_sql D db = Inr sql))"
  proof (cases "trim_space (dc_dsn cfg) = []")
    case True
    then show ?thesis using assms(2) by (auto simp: database_init_def)
  next
    case False
    obtain level s1 db s2 where o: "new_gorm_logger (dc_log_level cfg) s = (level, s1)"
        "call_world (db_open D (dc_dsn cfg) level) s1 = (Inr db, s2)"
      using assms(2) False by (auto simp: database_init_def split: prod.splits sum.splits)
    obtain s3 where t: "call_world (tune_pool D db (normalize_pool_settings cfg)) s2 = (None, s3)"
        "m = \<lparr>dm_primary = Some db\<rparr>" "app_world s' = app_world s3"
      using assms(2) False o by (auto simp: database_init_def split: prod.splits option.splits)
    obtain w2 where "db_open D (dc_dsn cfg) level (app_world s1) = (Inr db, w2)" "app_world s2 = w2"
      using o(2) by (auto simp: call_world_def split: prod.splits)
    moreover have "case db_open D (dc_dsn cfg) level (app_world s1) of
        (Inl err, w') \<Rightarrow> opened w' = opened (app_world s1) | (Inr db, w') \<Rightarrow> opened w' = opened (app_world s1) + 1"
      using assms(1) unfolding db_counts_def by (elim conjE) (elim allE)
    ultimately have "opened (app_world s2) = opened (app_world s1) + 1" by simp
    moreover have "opened (app_world s3) = opened (app_world s2)"
      using counts_call_world [OF tune_pool_counts [OF assms(1)] t(1)] by simp
    moreover have "\<exists>sql. db_sql D db = Inr sql"
      using t(1) by (auto simp: call_world_def tune_pool_def split: sum.splits prod.splits)
    ultimately show ?thesis using t(2,3) parse_log_level_world [OF o(1)] by simp
  qed
  then show "opened (app_world s') = opened (app_world s) + (if dm_primary m = None then 0 else 1)"
    "\<And>db. dm_primary m = Some db \<Longrightarrow> \<exists>sql. db_sql D db = Inr sql" by blast+
qed

lemma database_init_opens:
  assumes "db_counts opened D" and "database_init D cfg s = (res, s')"
  shows "opened (app_world s) \<le> opened (app_world s')"
proof (cases "trim_space (dc_dsn cfg) = []")
  case True
  then show ?thesis using assms(2) by (auto simp: database_init_def)
next
  case False
  obtain level s1 r s2 where o: "new_gorm_logger (dc_log_level cfg) s = (level, s1)"
      "call_world (db_open D (dc_dsn cfg) level) s1 = (r, s2)" by fastforce
  have "case db_open D (dc_dsn cfg) level (app_world s1) of
      (Inl err, w') \<Rightarrow> opened w' = opened (app_world s1) | (Inr db, w') \<Rightarrow> opened w' = opened (app_world s1) + 1"
    using assms(1) unfolding db_counts_def by (elim conjE) (elim allE)
  then have 1: "opened (app_world s) \<le> opened (app_world s2)"
    using o(2) parse_log_level_world [OF o(1)] by (auto simp: call_world_def split: prod.splits sum.splits)
  show ?thesis
  proof (cases r)
    case (Inl err)
    then show ?thesis using 1 assms(2) False o by (simp add: database_init_def)
  next
    case (Inr db)
    obtain e s3 where t: "call_world (tune_pool D db (normalize_pool_settings cfg)) s2 = (e, s3)" by fastforce
    have "app_world s' = app_world s3"
      using assms(2) False o t Inr by (auto simp: database_init_def split: option.splits)
    then show ?thesis using 1 counts_call_world [OF tune_pool_counts [OF assms(1)] t] by simp
  qed
qed

text \<open>A cache client is made before it is known whether Redis answers.\<close>

lemma new_cache_client_counts:
  assumes "redis_counts opened L" and "trim_space (kc_addr cfg) \<noteq> []" and "new_cache_client L cfg s = (res, s')"
  shows "opened (app_world s') = opened (app_world s) + 1"
proof -
  obtain rdb s1 e s2 where c: "call_world (redis_new L cfg) s = (rdb, s1)" "call_world (redis_ping L rdb background) s1 = (e, s2)"
    by fastforce
  then have "app_world s' = app_world s2"
    using assms(2,3) by (auto simp: new_cache_client_def split: option.splits)
  then show ?thesis
    using assms(1) c counts_call_world [of opened 1 "redis_new L cfg" s rdb s1]
      counts_call_world [of opened 0 "redis_ping L rdb background" s1 e s2]
    by (simp add: redis_counts_def)
qed

lemma init_cache_counts:
  "redis_counts opened L \<Longrightarrow> init_cache L cfg s = (Inr c, s') \<Longrightarrow>
   opened (app_world s') = opened (app_world s) + (if underlying c = None then 0 else 1)"
  using new_cache_client_counts [of opened L "redis_cache_config cfg" s] new_cache_client_Inr [of L "redis_cache_config cfg" s]
  by (auto simp: init_cache_def underlying_def redis_cache_config_def split: if_splits prod.splits sum.splits)

lemma new_asynq_client_counts:
  "asynq_counts opened Q \<Longrightarrow> new_asynq_client Q (Some cfg) s = (q, s') \<Longrightarrow>
   opened (app_world s') = opened (app_world s) + (if q = None then 0 else 1)"
  by (auto simp: new_asynq_client_def asynq_counts_def Let_def split: if_splits prod.splits dest!: counts_call_world [rotated])

text \<open>A registry owns what its initialisation opened.\<close>

lemma init_api_counts:
  assumes "db_counts opened D" "redis_counts opened L" "asynq_counts opened Q"
    and "init_api D L Q (Some cfg) s = (Inr reg, s')"
  shows "opened (app_world s') = opened (app_world s) + owned reg" "closable D reg"
proof -
  from assms(4) obtain db s1 cache s2 auth client where r:
      "init_database D cfg s = (Inr db, s1)" "dm_db (Some db) \<noteq> None" "init_cache L cfg s1 = (Inr cache, s2)"
      "new_asynq_client Q (Some cfg) s2 = (client, s')"
      "reg = \<lparr>reg_cfg = Some cfg, reg_db = Some db, reg_cache = cache, reg_auth = auth,
              reg_queue = new_queue client, reg_queue_client = client\<rparr>"
    by (auto simp: init_api_def split: prod.splits sum.splits if_splits)
  note d = database_init_counts [OF assms(1) r(1) [unfolded init_database_def]]
  show "opened (app_world s') = opened (app_world s) + owned reg"
    using d(1) r(2) init_cache_counts [OF assms(2) r(3)] new_asynq_client_counts [OF assms(3) r(4)]
    by (simp add: r(5) owned_def dm_db_def)
  show "closable D reg" using d(2) by (auto simp: closable_def r(5) dm_db_def split: option.split)
qed

lemma init_worker_counts:
  assumes "db_counts opened D" "redis_counts opened L" "asynq_counts opened Q"
    and "init_worker D L Q (Some cfg) s = (Inr reg, s')"
  shows "opened (app_world s') = opened (app_world s) + owned reg" "closable D reg"
proof -
  from assms(4) obtain cache s1 m s2 client where r:
      "new_cache_client L (redis_cache_config cfg) s = (Inr cache, s1)"
      "(if trim_space (pg_dsn (cfg_postgres cfg)) \<noteq> []
        then (case init_database D cfg s1 of
                (Inl err, s) \<Rightarrow> (Inl (wrap ''init worker database'' err), s)
              | (Inr m, s) \<Rightarrow> (Inr (Some m), s))
        else (Inr None, s1)) = (Inr m, s2)"
      "new_asynq_client Q (Some cfg) s2 = (client, s')"
      "reg = \<lparr>reg_cfg = Some cfg, reg_db = m, reg_cache = Some cache, reg_auth = None,
              reg_queue = new_queue client, reg_queue_client = client\<rparr>"
    by (auto simp: init_worker_def split: prod.splits sum.splits if_split_asm)
  have db: "opened (app_world s2) = opened (app_world s1) + (if dm_db m = None then 0 else 1) \<and>
      (case dm_db m of None \<Rightarrow> True | Some db \<Rightarrow> \<exists>sql. db_sql D db = Inr sql)"
  proof (cases "trim_space (pg_dsn (cfg_postgres cfg)) = []")
    case True
    then show ?thesis using r(2) by (auto simp: dm_db_def)
  next
    case False
    then obtain d where d: "database_init D (postgres_database_config cfg) s1 = (Inr d, s2)" "m = Some d"
      using r(2) by (auto simp: init_database_def split: prod.splits sum.splits)
    show ?thesis using database_init_counts [OF assms(1) d(1)] by (auto simp: d(2) dm_db_def split: option.split)
  qed
  show "opened (app_world s') = opened (app_world s) + owned reg"
    using db new_cache_client_counts [OF assms(2) _ r(1)] new_cache_client_Inr [OF r(1)] new_asynq_client_counts [OF assms(3) r(3)]
    by (simp add: r(4) owned_def)
  show "closable D reg" using db by (simp add: closable_def r(4))
qed

lemma close_step_counts:
  "(case closer of None \<Rightarrow> n = 0 | Some f \<Rightarrow> counts opened n f) \<Longrightarrow>
   opened (snd (close_step what closer st)) = opened (snd st) + n"
  by (auto simp: close_step_def split: option.splits prod.split dest: countsD)

text \<open>Closing releases it, whatever fails.\<close>

lemma registry_close_counts:
  assumes "db_counts opened D" "redis_counts opened L" "asynq_counts opened Q" and "closable D reg"
    and "registry_close D L Q (Some reg) w = (err, w')"
  shows "opened w' = opened w - owned reg"
proof -
  let ?c = "\<lambda>x. if x = None then (0::int) else - 1"
  have 1: "case map_option (aq_close Q) (reg_queue_client reg) of None \<Rightarrow> ?c (reg_queue_client reg) = 0
      | Some f \<Rightarrow> counts opened (?c (reg_queue_client reg)) f"
    using assms(3) by (cases "reg_queue_client reg") (simp_all add: asynq_counts_def)
  have 2: "case map_option (\<lambda>c. cache_close L (Some c)) (reg_cache reg) of None \<Rightarrow> ?c (underlying (reg_cache reg)) = 0
      | Some f \<Rightarrow> counts opened (?c (underlying (reg_cache reg))) f"
    using assms(2)
    by (cases "reg_cache reg"; cases "underlying (reg_cache reg)")
       (simp_all add: redis_counts_def counts_def cache_close_def underlying_def)
  have 3: "case map_option (\<lambda>m. dm_close D (Some m)) (reg_db reg) of None \<Rightarrow> ?c (dm_db (reg_db reg)) = 0
      | Some f \<Rightarrow> counts opened (?c (dm_db (reg_db reg))) f"
    using assms(1,4)
    by (cases "reg_db reg"; cases "dm_db (reg_db reg)")
       (auto simp: db_counts_def counts_def dm_close_def closable_def dm_db_def)
  have w': "w' = snd (close_step ''close database'' (map_option (\<lambda>m. dm_close D (Some m)) (reg_db reg))
      (close_step ''close cache'' (map_option (\<lambda>c. cache_close L (Some c)) (reg_cache reg))
        (close_step ''close queue client'' (map_option (aq_close Q) (reg_queue_client reg)) ([], w))))"
    using assms(5) by (simp add: registry_close_def Let_def)
  have "opened w' = opened w + ?c (reg_queue_client reg) + ?c (underlying (reg_cache reg)) + ?c (dm_db (reg_db reg))"
    unfolding w' close_step_counts [OF 1] close_step_counts [OF 2] close_step_counts [OF 3] by simp
  then show ?thesis by (simp add: owned_def)
qed

section \<open>Properties\<close>

text \<open>
  C24. Initialising and closing balance: after \<open>InitAPI\<close> or \<open>InitWorker\<close> has succeeded, closing the
  registry, whenever and with whatever errors, releases exactly as many connections as it opened.
\<close>

theorem init_close_balanced:
  assumes "db_counts opened D" and "redis_counts opened L" and "asynq_counts opened Q"
    and "init_api D L Q (Some cfg) s = (Inr reg, s') \<or> init_worker D L Q (Some cfg) s = (Inr reg, s')"
    and "registry_close D L Q (Some reg) w = (err, w')"
  shows "opened w - opened w' = opened (app_world s') - opened (app_world s)"
proof -
  have "opened (app_world s') = opened (app_world s) + owned reg" "closable D reg"
    using assms(4) init_api_counts [OF assms(1-3)] init_worker_counts [OF assms(1-3)] by blast+
  then show ?thesis using registry_close_counts [OF assms(1-3) _ assms(5)] by simp
qed

definition counted_db :: "bool \<Rightarrow> (unit, unit, int) db_lib" where
  "counted_db up =
     \<lparr>db_open = (\<lambda>dsn level w. if up then (Inr (), w + 1) else (Inl (Foreign ''refused''), w)), db_sql = (\<lambda>db. Inr db),
      sql_ping = (\<lambda>sql ctx w. (None, w)), sql_close = (\<lambda>sql w. (None, w - 1)), sql_update = (\<lambda>sql f w. w)\<rparr>"

definition counted_redis :: "bool \<Rightarrow> (unit, unit, int) redis_lib" where
  "counted_redis up =
     \<lparr>redis_new = (\<lambda>cfg w. ((), w + 1)), redis_ping = (\<lambda>r ctx w. (if up then None else Some (Foreign ''refused''), w)),
      redis_close = (\<lambda>r w. (None, w - 1)), redis_get = (\<lambda>r ctx k w. (Inl redis_Nil, w)),
      redis_set = (\<lambda>r ctx k v ttl w. (None, w)), redis_quote = (\<lambda>k. k)\<rparr>"

definition counted_asynq :: "(unit, unit, unit, int) asynq_lib" where
  "counted_asynq =
     \<lparr>aq_new = (\<lambda>opt w. ((), w + 1)), aq_close = (\<lambda>q w. (None, w - 1)), aq_enqueue = (\<lambda>q ctx t opts w. (Inr (), w))\<rparr>"

lemma counted_ok: "db_counts (\<lambda>w. w) (counted_db up)" "redis_counts (\<lambda>w. w) (counted_redis up)" "asynq_counts (\<lambda>w. w) counted_asynq"
  by (simp_all add: db_counts_def redis_counts_def asynq_counts_def counts_def counted_db_def counted_redis_def counted_asynq_def)

text \<open>
  C40. A failed initialisation leaves open what it had opened, and returns no registry to close it by:
  whenever \<open>InitAPI\<close> fails after it has opened the database, the connection and the Redis client it was
  stopped by stay open, and whenever \<open>InitWorker\<close> fails after it has opened the cache, its client does.
\<close>

theorem failed_init_leaks:
  assumes "db_counts opened D" and "redis_counts opened L"
  shows "(init_api D L Q (Some cfg) s = (Inl err, s') \<and> init_database D cfg s = (Inr db, s1) \<and> dm_primary db \<noteq> None \<longrightarrow>
       opened (app_world s') = opened (app_world s) + 2) \<and>
     (init_worker D L Q (Some cfg) s = (Inl err, s') \<and> new_cache_client L (redis_cache_config cfg) s = (Inr c, s1) \<longrightarrow>
       opened (app_world s) + 1 \<le> opened (app_world s'))"
proof (intro conjI impI; elim conjE)
  assume a: "init_api D L Q (Some cfg) s = (Inl err, s')" and d: "init_database D cfg s = (Inr db, s1)" "dm_primary db \<noteq> None"
  obtain m where m: "init_auth cfg = Inr m" using init_auth_total by blast
  obtain e where "init_cache L cfg s1 = (Inl e, s')"
    using a d m by (auto simp: init_api_def dm_db_def split: prod.splits sum.splits)
  then have "new_cache_client L (redis_cache_config cfg) s1 = (Inl e, s')" "trim_space (kc_addr (redis_cache_config cfg)) \<noteq> []"
    by (auto simp: init_cache_def redis_cache_config_def split: if_splits prod.splits sum.splits)
  from new_cache_client_counts [OF assms(2) this(2,1)] database_init_counts(1) [OF assms(1) d(1) [unfolded init_database_def]] d(2)
  show "opened (app_world s') = opened (app_world s) + 2" by simp
next
  assume a: "init_worker D L Q (Some cfg) s = (Inl err, s')" and c: "new_cache_client L (redis_cache_config cfg) s = (Inr c, s1)"
  have "trim_space (rds_addr (cfg_redis cfg)) \<noteq> []" using new_cache_client_Inr [OF c] by (simp add: redis_cache_config_def)
  then obtain e where "init_database D cfg s1 = (Inl e, s')"
    using a c by (auto simp: init_worker_def split: prod.splits sum.splits if_splits)
  then show "opened (app_world s) + 1 \<le> opened (app_world s')"
    using database_init_opens [OF assms(1), of _ s1] new_cache_client_counts [OF assms(2) _ c] new_cache_client_Inr [OF c]
    by (fastforce simp: init_database_def)
qed

theorem failed_init_leaks_witness:
  "(\<exists>err s'. init_api (counted_db True) (counted_redis False) counted_asynq (Some sample_config) \<lparr>app_world = 0, app_logs = []\<rparr> = (Inl err, s') \<and>
     app_world s' = 2) \<and>
   (\<exists>err s'. init_worker (counted_db False) (counted_redis True) counted_asynq (Some sample_config) \<lparr>app_world = 0, app_logs = []\<rparr> = (Inl err, s') \<and>
     1 \<le> app_world s')"
proof -
  let ?s = "\<lparr>app_world = 0, app_logs = []\<rparr> :: int app"
  let ?a = "init_api (counted_db True) (counted_redis False) counted_asynq (Some sample_config) ?s"
  let ?w = "init_worker (counted_db False) (counted_redis True) counted_asynq (Some sample_config) ?s"
  let ?d = "init_database (counted_db True) sample_config ?s"
  let ?c = "new_cache_client (counted_redis True) (redis_cache_config sample_config) ?s"
  have "case fst ?a of Inl e \<Rightarrow> True | Inr reg \<Rightarrow> False" by code_simp
  then obtain e1 s1 where a: "?a = (Inl e1, s1)" by (cases ?a) (auto split: sum.splits)
  have "case fst ?d of Inl e \<Rightarrow> False | Inr m \<Rightarrow> dm_primary m \<noteq> None" by code_simp
  then obtain m s2 where d: "?d = (Inr m, s2)" "dm_primary m \<noteq> None" by (cases ?d) (auto split: sum.splits)
  have "case fst ?w of Inl e \<Rightarrow> True | Inr reg \<Rightarrow> False" by code_simp
  then obtain e3 s3 where w: "?w = (Inl e3, s3)" by (cases ?w) (auto split: sum.splits)
  have "case fst ?c of Inl e \<Rightarrow> False | Inr m \<Rightarrow> True" by code_simp
  then obtain c s4 where c: "?c = (Inr c, s4)" by (cases ?c) (auto split: sum.splits)
  show ?thesis
    using failed_init_leaks [OF counted_ok(1,2), of True False counted_asynq sample_config ?s e1 s1 m s2]
      failed_init_leaks [OF counted_ok(1,2), of False True counted_asynq sample_config ?s e3 s3 _ s4 c] a d w c by simp
qed

theorem init_close_balanced_witness:
  "\<exists>reg s' err w'. init_api (counted_db True) (counted_redis True) counted_asynq (Some sample_config) \<lparr>app_world = 0, app_logs = []\<rparr> = (Inr reg, s') \<and>
     app_world s' = 3 \<and> registry_close (counted_db True) (counted_redis True) counted_asynq (Some reg) 3 = (err, w') \<and> w' = 0"
proof -
  let ?a = "init_api (counted_db True) (counted_redis True) counted_asynq (Some sample_config) \<lparr>app_world = 0, app_logs = []\<rparr>"
  have "(case fst ?a of Inl e \<Rightarrow> False | Inr reg \<Rightarrow> True) \<and> app_world (snd ?a) = 3" by code_simp
  then obtain reg s' where r: "?a = (Inr reg, s')" "app_world s' = 3" by (cases ?a) (auto split: sum.splits)
  obtain err w' where c: "registry_close (counted_db True) (counted_redis True) counted_asynq (Some reg) 3 = (err, w')" by fastforce
  from init_close_balanced [OF counted_ok _ c] r c show ?thesis by fastforce
qed

end
