(* ===== verification/Lifecycle.thy ===== *)
theory Lifecycle
  imports Server Resources
begin

text \<open>
  The life of the processes: how \<open>internal/server.go\<close> runs and stops the HTTP server it assembled,
  how \<open>cmd/api/main.go\<close> shuts it down, and the three programs under \<open>cmd\<close> from start to exit.
\<close>

section \<open>Running and stopping the server (server.go)\<close>

text \<open>
  The calls of \<open>*http.Server\<close> block on the network; they are functions on the outside. The rate
  limiter is the part of a running server that changes.
\<close>

record 'w http_lib =
  hl_listen_and_serve :: "http_server \<Rightarrow> 'w \<Rightarrow> go_error option \<times> 'w"
  hl_shutdown :: "http_server \<Rightarrow> int \<Rightarrow> 'w \<Rightarrow> go_error option \<times> 'w"
  hl_close :: "http_server \<Rightarrow> 'w \<Rightarrow> go_error option \<times> 'w"

record ('w, 'l, 'r) live =
  lv_app :: "'w app"
  lv_limiter :: "('l, 'r) ip_rate_limiter option"

definition ErrServerClosed :: go_error where
  "ErrServerClosed = Plain ''http: Server closed''"

definition http_of :: "('c, 'w, 'l, 'r) server option \<Rightarrow> http_server option" where
  "http_of s = (case s of None \<Rightarrow> None | Some s \<Rightarrow> sv_http s)"

definition call_live :: "('w \<Rightarrow> 'a \<times> 'w) \<Rightarrow> ('w, 'l, 'r) live \<Rightarrow> 'a \<times> ('w, 'l, 'r) live" where
  "call_live f v = (case call_world f (lv_app v) of (a, p) \<Rightarrow> (a, v\<lparr>lv_app := p\<rparr>))"

definition server_run ::
    "'w http_lib \<Rightarrow> ('c, 'w, 'l, 'r) server option \<Rightarrow> ('w, 'l, 'r) live \<Rightarrow> go_error option \<times> ('w, 'l, 'r) live" where
  "server_run H s v =
     (case http_of s of
        None \<Rightarrow> (Some errNilHTTPServer, v)
      | Some h \<Rightarrow>
          (case call_live (hl_listen_and_serve H h) v of
             (Some err, v) \<Rightarrow>
               if \<not> error_is err ErrServerClosed then (Some (wrap ''listen and serve http server'' err), v)
               else (None, v)
           | (None, v) \<Rightarrow> (None, v)))"

definition stop_limiter :: "('w, 'l, 'r) live \<Rightarrow> ('w, 'l, 'r) live" where
  "stop_limiter v = (if lv_limiter v \<noteq> None then v\<lparr>lv_limiter := stop (lv_limiter v)\<rparr> else v)"

definition server_shutdown ::
    "'w http_lib \<Rightarrow> ('c, 'w, 'l, 'r) server option \<Rightarrow> int \<Rightarrow> ('w, 'l, 'r) live \<Rightarrow>
     go_error option \<times> ('w, 'l, 'r) live" where
  "server_shutdown H s timeout v =
     (case http_of s of
        None \<Rightarrow> (Some errNilHTTPServer, v)
      | Some h \<Rightarrow> call_live (hl_shutdown H h timeout) (stop_limiter v))"

definition server_close ::
    "'w http_lib \<Rightarrow> ('c, 'w, 'l, 'r) server option \<Rightarrow> ('w, 'l, 'r) live \<Rightarrow> go_error option \<times> ('w, 'l, 'r) live" where
  "server_close H s v =
     (case http_of s of
        None \<Rightarrow> (Some errNilHTTPServer, v)
      | Some h \<Rightarrow>
          (case call_live (hl_close H h) (stop_limiter v) of
             (Some err, v) \<Rightarrow> if \<not> error_is err ErrServerClosed then (Some err, v) else (None, v)
           | (None, v) \<Rightarrow> (None, v)))"

section \<open>Shutting down (cmd/api/main.go)\<close>

definition gracefulShutdownTimeout :: int where
  "gracefulShutdownTimeout = 10 * second"
definition serverExitWaitTimeout :: int where
  "serverExitWaitTimeout = 2 * second"
definition errServerExitTimeout :: go_error where
  "errServerExitTimeout = Plain ''web server exit wait timeout''"

text \<open>The interface \<open>httpServerLifecycle\<close>; the context of \<open>Shutdown\<close> is its timeout.\<close>

record 's lifecycle_iface =
  lc_shutdown :: "int \<Rightarrow> 's \<Rightarrow> go_error option \<times> 's"
  lc_close :: "'s \<Rightarrow> go_error option \<times> 's"

definition server_lifecycle ::
    "'w http_lib \<Rightarrow> ('c, 'w, 'l, 'r) server option \<Rightarrow> ('w, 'l, 'r) live lifecycle_iface" where
  "server_lifecycle H s = \<lparr>lc_shutdown = server_shutdown H s, lc_close = server_close H s\<rparr>"

text \<open>
  \<open>recv timeout\<close> waits on the channel of the server's exit and on the timer: it is \<open>Some r\<close> when \<open>r\<close>
  is received, \<open>None\<close> when the timer fires first.
\<close>

definition wait_for_server_exit ::
    "(int \<Rightarrow> 's \<Rightarrow> go_error option option \<times> 's) \<Rightarrow> int \<Rightarrow> 's \<Rightarrow> go_error option \<times> 's" where
  "wait_for_server_exit recv timeout s =
     (case recv timeout s of
        (Some err, s) \<Rightarrow> (err, s)
      | (None, s) \<Rightarrow> (Some (Wrapped [] errServerExitTimeout ('' after '' @ show_duration timeout)), s))"

text \<open>An entry of the global logger with an error field.\<close>

definition log_err :: "string \<Rightarrow> string \<Rightarrow> go_error \<Rightarrow> log_entry" where
  "log_err severity msg err = global_log severity msg (log_error (Some err))"

text \<open>Shutting the server down, by force when it does not stop by itself.\<close>

definition stop_web_server ::
    "(log_entry \<Rightarrow> 's \<Rightarrow> 's) \<Rightarrow> 's lifecycle_iface \<Rightarrow> int \<Rightarrow> 's \<Rightarrow> bool \<times> 's" where
  "stop_web_server log server shutdown_timeout s =
     (case lc_shutdown server shutdown_timeout s of
        (None, s) \<Rightarrow> (False, s)
      | (Some err, s) \<Rightarrow>
          let s = log (log_err ''error'' ''web server shutdown error'' err) s in
          (case lc_close server s of
             (Some close_err, s) \<Rightarrow> (True, log (log_err ''error'' ''web server force close error'' close_err) s)
           | (None, s) \<Rightarrow> (True, s)))"

definition exit_entry :: "bool \<Rightarrow> go_error option \<Rightarrow> log_entry" where
  "exit_entry forced exit_err =
     (case exit_err of
        Some err \<Rightarrow>
          if error_is err errServerExitTimeout
          then log_err ''warn'' ''web server exit wait timed out'' err
          else log_err ''error'' ''web server exited with error'' err
      | None \<Rightarrow> global_log ''info'' (if forced then ''forced shutdown completed'' else ''graceful shutdown completed'') [])"

definition shutdown_web_server ::
    "(log_entry \<Rightarrow> 's \<Rightarrow> 's) \<Rightarrow> 's lifecycle_iface \<Rightarrow>
     (int \<Rightarrow> 's \<Rightarrow> go_error option option \<times> 's) \<Rightarrow> int \<Rightarrow> int \<Rightarrow> 's \<Rightarrow> (bool \<times> go_error option) \<times> 's" where
  "shutdown_web_server log server recv shutdown_timeout wait_timeout s =
     (let (forced, s) = stop_web_server log server shutdown_timeout s;
          (exit_err, s) = wait_for_server_exit recv wait_timeout s
      in ((forced, exit_err), log (exit_entry forced exit_err) s))"

section \<open>The contract of the interface\<close>

text \<open>
  What a shutdown relies on: both calls release what the server owns, and nothing takes it back:
  logging and waiting keep it released.
\<close>

locale http_lifecycle =
  fixes server :: "'s lifecycle_iface" and released :: "'s \<Rightarrow> bool"
    and log :: "log_entry \<Rightarrow> 's \<Rightarrow> 's" and recv :: "int \<Rightarrow> 's \<Rightarrow> go_error option option \<times> 's"
  assumes shutdown_releases: "lc_shutdown server t s = (r, s') \<Longrightarrow> released s'"
    and close_releases: "lc_close server s = (r, s') \<Longrightarrow> released s'"
    and log_keeps: "released s \<Longrightarrow> released (log e s)"
    and recv_keeps: "released s \<Longrightarrow> recv t s = (r', s') \<Longrightarrow> released s'"
begin

lemma wait_keeps:
  "released s \<Longrightarrow> wait_for_server_exit recv t s = (r, s') \<Longrightarrow> released s'"
  by (auto simp: wait_for_server_exit_def split: prod.splits option.splits dest: recv_keeps)

lemma stop_keeps: "stop_web_server log server t s = (forced, s') \<Longrightarrow> released s'"
  using shutdown_releases close_releases log_keeps
  by (fastforce simp: stop_web_server_def Let_def split: prod.splits option.splits)

text \<open>However it goes, a shutdown ends with the server released.\<close>

lemma shutdown_web_server_releases:
  "shutdown_web_server log server recv st wt s = (res, s') \<Longrightarrow> released s'"
  by (auto simp: shutdown_web_server_def split: prod.splits dest!: stop_keeps dest: wait_keeps intro: log_keeps)

end

text \<open>The server keeps the contract: what it owns is the goroutine of its rate limiter.\<close>

definition limiter_released :: "('w, 'l, 'r) live \<Rightarrow> bool" where
  "limiter_released v \<longleftrightarrow> (case lv_limiter v of None \<Rightarrow> True | Some l \<Rightarrow> rl_stopped l)"

definition live_log :: "log_entry \<Rightarrow> ('w, 'l, 'r) live \<Rightarrow> ('w, 'l, 'r) live" where
  "live_log e v = v\<lparr>lv_app := add_log e (lv_app v)\<rparr>"

lemma call_live_limiter: "call_live f v = (a, v') \<Longrightarrow> lv_limiter v' = lv_limiter v"
  by (auto simp: call_live_def split: prod.splits)

lemma stop_limiter_released: "limiter_released (stop_limiter v)"
  by (auto simp: limiter_released_def stop_limiter_def stop_def split: option.splits)

lemma limiter_released_cong: "lv_limiter v' = lv_limiter v \<Longrightarrow> limiter_released v \<Longrightarrow> limiter_released v'"
  by (simp add: limiter_released_def)

lemma server_shutdown_releases:
  "http_of s \<noteq> None \<Longrightarrow> server_shutdown H s t v = (r, v') \<Longrightarrow> limiter_released v'"
  using stop_limiter_released [of v]
  by (auto simp: server_shutdown_def split: option.splits dest!: call_live_limiter intro: limiter_released_cong)

lemma server_close_releases:
  "http_of s \<noteq> None \<Longrightarrow> server_close H s v = (r, v') \<Longrightarrow> limiter_released v'"
  using stop_limiter_released [of v]
  by (auto simp: server_close_def split: option.splits prod.splits if_splits dest!: call_live_limiter
      intro: limiter_released_cong)

text \<open>A server \<open>NewServer\<close> made, and a channel that leaves the limiter alone.\<close>

lemma server_is_lifecycle:
  assumes "http_of s \<noteq> None"
  shows "http_lifecycle (server_lifecycle H s) limiter_released live_log (\<lambda>t. call_live (recv t))"
proof
  fix t r r' e and v v' :: "('b, 'c, 'd) live"
  show "lc_shutdown (server_lifecycle H s) t v = (r, v') \<Longrightarrow> limiter_released v'"
    using server_shutdown_releases [OF assms] by (simp add: server_lifecycle_def)
  show "lc_close (server_lifecycle H s) v = (r, v') \<Longrightarrow> limiter_released v'"
    using server_close_releases [OF assms] by (simp add: server_lifecycle_def)
  show "limiter_released v \<Longrightarrow> limiter_released (live_log e v)"
    by (simp add: limiter_released_def live_log_def)
  show "limiter_released v \<Longrightarrow> call_live (recv t) v = (r', v') \<Longrightarrow> limiter_released v'"
    by (auto dest!: call_live_limiter intro: limiter_released_cong)
qed

interpretation lc: http_lifecycle "server_lifecycle H (Some (sv\<lparr>sv_http := Some h\<rparr>))" limiter_released live_log
    "\<lambda>t. call_live (recv t)" for H sv h recv
  by (rule server_is_lifecycle) (simp add: http_of_def)

section \<open>The programs (cmd)\<close>

text \<open>
  What the programs get from the outside: the environment files, Gin's mode, zap, the proxies Gin
  accepts, the network, the signals. \<open>pe_select\<close> waits for the exit of the server (\<open>Some\<close> what
  \<open>server_run\<close> returned in its goroutine) or a signal (\<open>None\<close>); \<open>pe_recv\<close> waits on the same
  channel after a signal; \<open>pe_run\<close> is the error group of \<open>Worker.Run\<close>, \<open>pe_migrate\<close> GORM's
  \<open>AutoMigrate\<close>. The goroutines behind \<open>pe_select\<close>, \<open>pe_recv\<close> and \<open>pe_run\<close> are the step relations
  of \<open>Processes\<close>.
\<close>

record ('db, 'w, 'z, 'v) proc_env =
  pe_load_file :: "string \<Rightarrow> env \<Rightarrow> env"
  pe_set_mode :: "string \<Rightarrow> 'w \<Rightarrow> string + 'w"
  pe_zap :: "('z, 'v) zap"
  pe_trusted :: "string list \<Rightarrow> go_error option"
  pe_http :: "'w http_lib"
  pe_select :: "'w \<Rightarrow> go_error option option \<times> 'w"
  pe_recv :: "int \<Rightarrow> 'w \<Rightarrow> go_error option option \<times> 'w"
  pe_run :: "'w \<Rightarrow> go_error option \<times> 'w"
  pe_migrate :: "'db \<Rightarrow> int \<Rightarrow> 'w \<Rightarrow> go_error option \<times> 'w"
  pe_sync :: "'w \<Rightarrow> 'w"

text \<open>
  How a program ends: \<open>main\<close> returns and its deferred calls run, \<open>Fatal\<close> logs and calls
  \<open>os.Exit(1)\<close>, which skips them, or it panics.
\<close>

datatype exit = Exited | FatalExit | Crashed string

text \<open>The common start: the environment, the configuration, Gin's mode and the logger.\<close>

definition start_process ::
    "('db, 'w, 'z, 'v) proc_env \<Rightarrow> string \<Rightarrow> string \<Rightarrow> env \<Rightarrow> 'w app \<Rightarrow> (exit + config) \<times> 'w app" where
  "start_process E env_file service env p =
     (let cfg = load (load_env (pe_load_file E) [env_file] env) in
      case init_runtime (pe_set_mode E) (pe_zap E) (Some cfg) [service] \<lparr>rt_world = app_world p, rt_log = log_start (pe_zap E)\<rparr> of
        Panicked msg rt \<Rightarrow> (Inl (Crashed msg), p\<lparr>app_world := rt_world rt\<rparr>)
      | Returned (Some err) rt \<Rightarrow> (Inl (Crashed (''init runtime: '' @ error_text err)), p\<lparr>app_world := rt_world rt\<rparr>)
      | Returned None rt \<Rightarrow> (Inr cfg, p\<lparr>app_world := rt_world rt\<rparr>))"

definition fatal :: "string \<Rightarrow> (string \<times> field_val) list \<Rightarrow> 'w app \<Rightarrow> exit \<times> 'w app" where
  "fatal msg flds p = (FatalExit, add_log (global_log ''fatal'' msg flds) p)"

definition deferred_close :: "string \<Rightarrow> ('w \<Rightarrow> go_error option \<times> 'w) \<Rightarrow> 'w app \<Rightarrow> 'w app" where
  "deferred_close msg closer p =
     (case call_world closer p of
        (Some err, p) \<Rightarrow> add_log (log_err ''warn'' msg err) p
      | (None, p) \<Rightarrow> p)"

definition deferred_sync :: "('db, 'w, 'z, 'v) proc_env \<Rightarrow> 'w app \<Rightarrow> 'w app" where
  "deferred_sync E p = p\<lparr>app_world := pe_sync E (app_world p)\<rparr>"

definition close_registry ::
    "('c, 'db, 'sql, 'k, 'q, 'i, 'w, 'l, 'r) libs \<Rightarrow> ('db, 'w, 'z, 'v) proc_env \<Rightarrow> ('db, 'k, 'q) registry \<Rightarrow> 'w app \<Rightarrow> exit \<times> 'w app" where
  "close_registry X E reg p =
     (Exited, deferred_sync E (deferred_close ''close registry'' (registry_close (lib_db X) (lib_redis X) (lib_asynq X) (Some reg)) p))"

definition api_main ::
    "('c, 'db, 'sql, 'k, 'q, 'i, 'w, 'l, 'r) libs \<Rightarrow> ('db, 'w, 'z, 'v) proc_env \<Rightarrow> env \<Rightarrow> 'w app \<Rightarrow> exit \<times> 'w app" where
  "api_main X E env p =
     (case start_process E ''cmd/api/.env'' ''api'' env p of
        (Inl e, p) \<Rightarrow> (e, p)
      | (Inr cfg, p) \<Rightarrow>
          (case init_api (lib_db X) (lib_redis X) (lib_asynq X) (Some cfg) p of
             (Inl err, p) \<Rightarrow> fatal ''initialize application'' [(''error'', FErr err)] p
           | (Inr reg, p) \<Rightarrow>
               (case new_server X (pe_trusted E) (Some reg) of
                  Inl err \<Rightarrow> fatal ''assemble http server'' [(''error'', FErr err)] p
                | Inr sv \<Rightarrow>
                    let p = add_log (global_log ''info'' ''starting web server'' [(''addr'', FStr (srv_port (cfg_server cfg)))]) p in
                    (case call_world (pe_select E) p of
                       (Some (Some err), p) \<Rightarrow> fatal ''web server error'' [(''error'', FErr err)] p
                     | (Some None, p) \<Rightarrow> close_registry X E reg p
                     | (None, p) \<Rightarrow>
                         (case shutdown_web_server live_log (server_lifecycle (pe_http E) (Some sv))
                                 (\<lambda>t. call_live (pe_recv E t)) gracefulShutdownTimeout serverExitWaitTimeout
                                 \<lparr>lv_app = p, lv_limiter = sv_rate_limiter sv\<rparr> of
                            ((forced, Some err), v) \<Rightarrow>
                              close_registry X E reg (add_log (log_err ''error'' ''web server shutdown failed'' err) (lv_app v))
                          | ((forced, None), v) \<Rightarrow> close_registry X E reg (lv_app v))))))"

text \<open>
  \<open>Worker.Run\<close> around its error group (\<open>internal/worker.go\<close>): its guards, and then \<open>run\<close>, the group's
  \<open>Wait\<close>. The goroutines of the group are the step relation \<open>run_step\<close> of \<open>Processes\<close>.
\<close>

definition worker_run ::
    "('m, 'db, 'v) worker option \<Rightarrow> ('w \<Rightarrow> go_error option \<times> 'w) \<Rightarrow> 'w \<Rightarrow> go_error option \<times> 'w" where
  "worker_run wk run w =
     (case wk of
        None \<Rightarrow> (Some errNilWorker, w)
      | Some k \<Rightarrow> if wk_server k = None \<or> wk_mux k = None then (Some errNilWorker, w) else run w)"

definition worker_main ::
    "('c, 'db, 'sql, 'k, 'q, 'i, 'w, 'l, 'r) libs \<Rightarrow> ('m, 'db, 'w) mux_ops \<Rightarrow> 'db asynq_getters \<Rightarrow> 'm \<Rightarrow>
     ('db, 'w, 'z, 'v) proc_env \<Rightarrow> env \<Rightarrow> 'w app \<Rightarrow> exit \<times> 'w app" where
  "worker_main X M A mux E env p =
     (case start_process E ''cmd/worker/.env'' ''worker'' env p of
        (Inl e, p) \<Rightarrow> (e, p)
      | (Inr cfg, p) \<Rightarrow>
          (case init_worker (lib_db X) (lib_redis X) (lib_asynq X) (Some cfg) p of
             (Inl err, p) \<Rightarrow> fatal ''initialize worker'' [(''error'', FErr err)] p
           | (Inr reg, p) \<Rightarrow>
               (case new_worker M A mux (Some reg) of
                  Inl err \<Rightarrow> fatal ''assemble worker'' [(''error'', FErr err)] p
                | Inr wk \<Rightarrow>
                    let p = add_log (global_log ''info'' ''worker started'' [(''component'', FStr ''asynq'')]) p in
                    (case call_world (worker_run (Some wk) (pe_run E)) p of
                       (Some err, p) \<Rightarrow> fatal ''worker runtime error'' [(''error'', FErr err)] p
                     | (None, p) \<Rightarrow>
                         close_registry X E reg (add_log (global_log ''info'' ''worker shutdown completed'' []) p)))))"

definition migrate_main ::
    "('db, 'sql, 'w) db_lib \<Rightarrow> ('db, 'w, 'z, 'v) proc_env \<Rightarrow> env \<Rightarrow> 'w app \<Rightarrow> exit \<times> 'w app" where
  "migrate_main D E env p =
     (case start_process E ''cmd/migrate/.env'' ''migrate'' env p of
        (Inl e, p) \<Rightarrow> (e, p)
      | (Inr cfg, p) \<Rightarrow>
          (case database_init D (postgres_database_config cfg) p of
             (Inl err, p) \<Rightarrow> fatal ''initialize database'' [(''error'', FErr err)] p
           | (Inr m, p) \<Rightarrow>
               (case dm_db (Some m) of
                  None \<Rightarrow> fatal ''database is not configured'' [] p
                | Some db \<Rightarrow>
                    (case call_world (pe_migrate E db (30 * second)) p of
                       (Some err, p) \<Rightarrow> fatal ''run migrations'' [(''error'', FErr err)] p
                     | (None, p) \<Rightarrow>
                         (Exited, deferred_sync E (deferred_close ''close database'' (dm_close D (Some m))
                            (add_log (global_log ''info'' ''migrations completed'' []) p)))))))"

section \<open>Lemmas\<close>

text \<open>Nothing of the outside but the client libraries opens or closes a connection.\<close>

definition env_counts :: "('w \<Rightarrow> int) \<Rightarrow> ('db, 'w, 'z, 'v) proc_env \<Rightarrow> bool" where
  "env_counts opened E \<longleftrightarrow>
     (\<forall>m w w'. pe_set_mode E m w = Inr w' \<longrightarrow> opened w' = opened w) \<and>
     (\<forall>h t. counts opened 0 (hl_shutdown (pe_http E) h t)) \<and> (\<forall>h. counts opened 0 (hl_close (pe_http E) h)) \<and>
     counts opened 0 (pe_select E) \<and> (\<forall>t. counts opened 0 (pe_recv E t)) \<and> counts opened 0 (pe_run E) \<and>
     (\<forall>db t. counts opened 0 (pe_migrate E db t)) \<and> (\<forall>w. opened (pe_sync E w) = opened w)"

lemma start_process_counts:
  "env_counts opened E \<Longrightarrow> start_process E f service env p = (Inr cfg, p') \<Longrightarrow> opened (app_world p') = opened (app_world p)"
  by (auto simp: start_process_def init_runtime_def env_counts_def Let_def split: sum.splits option.splits outcome.splits prod.splits)

lemma deferred_close_counts:
  "counts opened n closer \<Longrightarrow> opened (app_world (deferred_close msg closer p)) = opened (app_world p) + n"
  by (auto simp: deferred_close_def split: prod.split option.split dest: counts_call_world)

lemma close_registry_counts:
  assumes "db_counts opened (lib_db X)" "redis_counts opened (lib_redis X)" "asynq_counts opened (lib_asynq X)"
    and "env_counts opened E" and "closable (lib_db X) reg" and "close_registry X E reg p = (e, p')"
  shows "opened (app_world p') = opened (app_world p) - owned reg"
proof -
  have "counts opened (- owned reg) (registry_close (lib_db X) (lib_redis X) (lib_asynq X) (Some reg))"
    unfolding counts_def using registry_close_counts [OF assms(1-3,5)] by (metis diff_conv_add_uminus prod.collapse)
  then show ?thesis
    using assms(4,6) by (auto simp: close_registry_def deferred_sync_def env_counts_def deferred_close_counts)
qed

lemma worker_run_counts: "counts opened 0 run \<Longrightarrow> counts opened 0 (worker_run wk run)"
  by (simp add: counts_def worker_run_def split: option.split)

lemma call_live_counts:
  "counts opened n f \<Longrightarrow> call_live f v = (a, v') \<Longrightarrow> opened (app_world (lv_app v')) = opened (app_world (lv_app v)) + n"
  by (auto simp: call_live_def split: prod.splits dest: counts_call_world)

lemma stop_limiter_app [simp]: "lv_app (stop_limiter v) = lv_app v"
  by (simp add: stop_limiter_def)

lemma live_log_app [simp]: "lv_app (live_log e v) = add_log e (lv_app v)"
  by (simp add: live_log_def)

lemma shutdown_counts:
  fixes E :: "('db, 'w, 'z, 'v) proc_env"
  assumes E: "env_counts opened E"
    and r: "shutdown_web_server live_log (server_lifecycle (pe_http E) s) (\<lambda>t. call_live (pe_recv E t)) st wt v = (res, v')"
  shows "opened (app_world (lv_app v')) = opened (app_world (lv_app v))"
proof -
  have step: "opened (app_world (lv_app v2)) = opened (app_world (lv_app v1))"
    if "call_live f (stop_limiter v1) = (x, v2)" "counts opened 0 f" for f :: "'w \<Rightarrow> go_error option \<times> 'w" and v1 x v2
    using call_live_counts [OF that(2,1)] by simp
  have E': "counts opened 0 (hl_shutdown (pe_http E) h t)" "counts opened 0 (hl_close (pe_http E) h)" for h t
    using E by (simp_all add: env_counts_def)
  have sh: "opened (app_world (lv_app v2)) = opened (app_world (lv_app v1))" if "server_shutdown (pe_http E) s t v1 = (x, v2)" for t v1 x v2
    using that by (cases "http_of s") (auto simp: server_shutdown_def dest: step [OF _ E'(1)])
  have cl: "opened (app_world (lv_app v2)) = opened (app_world (lv_app v1))" if "server_close (pe_http E) s v1 = (x, v2)" for v1 x v2
    using that by (cases "http_of s") (auto simp: server_close_def split: prod.splits option.splits if_splits dest: step [OF _ E'(2)])
  have rc: "opened (app_world (lv_app v2)) = opened (app_world (lv_app v1))" if "call_live (pe_recv E t) v1 = (x, v2)" for t v1 x v2
    using that E call_live_counts [of opened 0 "pe_recv E t" v1] by (simp add: env_counts_def)
  obtain forced v1 where 1: "stop_web_server live_log (server_lifecycle (pe_http E) s) st v = (forced, v1)" by fastforce
  obtain x v2 where 2: "wait_for_server_exit (\<lambda>t. call_live (pe_recv E t)) wt v1 = (x, v2)" by fastforce
  have "opened (app_world (lv_app v1)) = opened (app_world (lv_app v))"
    using 1 by (fastforce simp: stop_web_server_def server_lifecycle_def Let_def split: prod.splits option.splits dest: sh cl)
  moreover have "opened (app_world (lv_app v2)) = opened (app_world (lv_app v1))"
    using 2 by (auto simp: wait_for_server_exit_def split: prod.splits option.splits dest: rc)
  ultimately show ?thesis using r by (auto simp: shutdown_web_server_def 1 2)
qed

text \<open>The three \<open>main\<close> functions, one by one.\<close>

lemma fatal_exit: "fatal m f q = (e, q') \<Longrightarrow> e = FatalExit"
  by (simp add: fatal_def)

lemma start_process_stops: "start_process E f service env p \<noteq> (Inl Exited, q)"
  by (auto simp: start_process_def Let_def split: outcome.splits option.splits)

lemma api_main_releases:
  assumes "db_counts opened (lib_db X)" and "redis_counts opened (lib_redis X)" and "asynq_counts opened (lib_asynq X)"
    and "env_counts opened E" and main: "api_main X E env p = (Exited, p')"
  shows "opened (app_world p') = opened (app_world p)"
proof -
  from main obtain cfg p1 reg p2 sv where
      s: "start_process E ''cmd/api/.env'' ''api'' env p = (Inr cfg, p1)"
      "init_api (lib_db X) (lib_redis X) (lib_asynq X) (Some cfg) p1 = (Inr reg, p2)"
      "new_server X (pe_trusted E) (Some reg) = Inr sv"
    by (auto simp: api_main_def split: prod.splits sum.splits simp: start_process_stops dest: fatal_exit)
  define p3 where "p3 = add_log (global_log ''info'' ''starting web server'' [(''addr'', FStr (srv_port (cfg_server cfg)))]) p2"
  obtain r p4 where sel: "call_world (pe_select E) p3 = (r, p4)" by fastforce
  have 4: "opened (app_world p4) = opened (app_world p2)"
    using counts_call_world [OF _ sel, of opened 0] assms(4) by (simp add: env_counts_def p3_def)
  obtain p5 where 5: "close_registry X E reg p5 = (Exited, p')" "opened (app_world p5) = opened (app_world p4)"
  proof (cases r)
    case None
    obtain forced err v where sd: "shutdown_web_server live_log (server_lifecycle (pe_http E) (Some sv))
        (\<lambda>t. call_live (pe_recv E t)) gracefulShutdownTimeout serverExitWaitTimeout
        \<lparr>lv_app = p4, lv_limiter = sv_rate_limiter sv\<rparr> = ((forced, err), v)" by (metis surj_pair)
    have "opened (app_world (lv_app v)) = opened (app_world p4)" using shutdown_counts [OF assms(4) sd] by simp
    moreover have "close_registry X E reg (case err of None \<Rightarrow> lv_app v
        | Some e \<Rightarrow> add_log (log_err ''error'' ''web server shutdown failed'' e) (lv_app v)) = (Exited, p')"
      using main s sel [unfolded p3_def] None sd by (cases err) (simp_all add: api_main_def)
    ultimately show ?thesis by (cases err) (auto intro: that)
  next
    case (Some e)
    then show ?thesis using main s sel [unfolded p3_def] that by (cases e) (auto simp: api_main_def fatal_def)
  qed
  show ?thesis
    using start_process_counts [OF assms(4) s(1)] init_api_counts [OF assms(1-3) s(2)] 4 5(2)
      close_registry_counts [OF assms(1-3) assms(4) _ 5(1)] by simp
qed

lemma worker_main_releases:
  assumes "db_counts opened (lib_db X)" and "redis_counts opened (lib_redis X)" and "asynq_counts opened (lib_asynq X)"
    and "env_counts opened E" and main: "worker_main X M A mux E env p = (Exited, p')"
  shows "opened (app_world p') = opened (app_world p)"
proof -
  from main obtain cfg p1 reg p2 wk where
      s: "start_process E ''cmd/worker/.env'' ''worker'' env p = (Inr cfg, p1)"
      "init_worker (lib_db X) (lib_redis X) (lib_asynq X) (Some cfg) p1 = (Inr reg, p2)"
      "new_worker M A mux (Some reg) = Inr wk"
    by (auto simp: worker_main_def split: prod.splits sum.splits simp: start_process_stops dest: fatal_exit)
  define p3 where "p3 = add_log (global_log ''info'' ''worker started'' [(''component'', FStr ''asynq'')]) p2"
  obtain r p4 where sel: "call_world (worker_run (Some wk) (pe_run E)) p3 = (r, p4)" by fastforce
  have 4: "opened (app_world p4) = opened (app_world p2)"
    using counts_call_world [OF worker_run_counts sel, of opened] assms(4) by (simp add: env_counts_def p3_def)
  have 5: "close_registry X E reg (add_log (global_log ''info'' ''worker shutdown completed'' []) p4) = (Exited, p')"
    using main s sel [unfolded p3_def] by (cases r) (auto simp: worker_main_def fatal_def)
  show ?thesis
    using start_process_counts [OF assms(4) s(1)] init_worker_counts [OF assms(1-3) s(2)] 4
      close_registry_counts [OF assms(1-3) assms(4) _ 5] by simp
qed

lemma migrate_main_releases:
  assumes "db_counts opened D" and "env_counts opened E" and main: "migrate_main D E env p = (Exited, p')"
  shows "opened (app_world p') = opened (app_world p)"
proof -
  from main obtain cfg p1 m p2 db where
      s: "start_process E ''cmd/migrate/.env'' ''migrate'' env p = (Inr cfg, p1)"
      "database_init D (postgres_database_config cfg) p1 = (Inr m, p2)" "dm_primary m = Some db"
    by (auto simp: migrate_main_def dm_db_def split: prod.splits sum.splits option.splits simp: start_process_stops dest: fatal_exit)
  obtain r p4 where sel: "call_world (pe_migrate E db (30 * second)) p2 = (r, p4)" by fastforce
  have 4: "opened (app_world p4) = opened (app_world p2)"
    using counts_call_world [OF _ sel, of opened 0] assms(2) by (simp add: env_counts_def)
  have 5: "p' = deferred_sync E (deferred_close ''close database'' (dm_close D (Some m))
      (add_log (global_log ''info'' ''migrations completed'' []) p4))"
    using main s sel by (cases r) (auto simp: migrate_main_def fatal_def dm_db_def)
  note d = database_init_counts [OF assms(1) s(2)]
  have "counts opened (- 1) (dm_close D (Some m))"
    using d(2) [OF s(3)] assms(1) s(3) by (auto simp: counts_def dm_close_def dm_db_def db_counts_def)
  from deferred_close_counts [OF this] show ?thesis
    using start_process_counts [OF assms(2) s(1)] d(1) s(3) 4 assms(2) by (simp add: 5 deferred_sync_def env_counts_def)
qed

section \<open>Properties\<close>

text \<open>
  C26. Shutting the API server down: whatever the network does, the call ends with the limiter's
  goroutine stopped; it is forced exactly when the graceful shutdown failed; its error is what the
  server exited with, or the timeout error when the exit was not seen in time; and the last thing
  logged says which of the four endings it was.
\<close>

theorem shutdown_outcome:
  assumes "sv_http sv = Some h"
    and "shutdown_web_server live_log (server_lifecycle H (Some sv)) (\<lambda>t. call_live (recv t)) st wt v = ((forced, err), v')"
  shows "limiter_released v' \<and>
     forced = (fst (hl_shutdown H h st (app_world (lv_app v))) \<noteq> None) \<and>
     (\<exists>w. err = (case fst (recv wt w) of Some r \<Rightarrow> r
                 | None \<Rightarrow> Some (Wrapped [] errServerExitTimeout ('' after '' @ show_duration wt)))) \<and>
     le_msg (last (app_logs (lv_app v'))) =
       (case err of
          None \<Rightarrow> if forced then ''forced shutdown completed'' else ''graceful shutdown completed''
        | Some e \<Rightarrow> if error_is e errServerExitTimeout then ''web server exit wait timed out''
                    else ''web server exited with error'')"
proof -
  obtain v1 where 1: "stop_web_server live_log (server_lifecycle H (Some sv)) st v = (forced, v1)"
    and 2: "\<exists>v2. wait_for_server_exit (\<lambda>t. call_live (recv t)) wt v1 = (err, v2) \<and>
      v' = live_log (exit_entry forced err) v2"
    using assms(2) by (auto simp: shutdown_web_server_def split: prod.splits)
  obtain v2 where v2: "wait_for_server_exit (\<lambda>t. call_live (recv t)) wt v1 = (err, v2)"
      "v' = live_log (exit_entry forced err) v2" using 2 by blast
  have sv: "http_lifecycle (server_lifecycle H (Some sv)) limiter_released live_log (\<lambda>t. call_live (recv t))"
    by (rule server_is_lifecycle) (simp add: http_of_def assms(1))
  have rel: "limiter_released v'" by (rule http_lifecycle.shutdown_web_server_releases [OF sv assms(2)])
  have "forced = (fst (lc_shutdown (server_lifecycle H (Some sv)) st v) \<noteq> None)"
    using 1 by (auto simp: stop_web_server_def Let_def split: prod.splits option.splits)
  moreover have "fst (lc_shutdown (server_lifecycle H (Some sv)) st v) = fst (hl_shutdown H h st (app_world (lv_app v)))"
    by (simp add: server_lifecycle_def server_shutdown_def http_of_def assms(1) call_live_def call_world_def split: prod.split)
  moreover have "err = (case fst (recv wt (app_world (lv_app v1))) of Some r \<Rightarrow> r
                 | None \<Rightarrow> Some (Wrapped [] errServerExitTimeout ('' after '' @ show_duration wt)))"
    using v2(1) by (auto simp: wait_for_server_exit_def call_live_def call_world_def split: prod.splits option.splits)
  moreover have "app_logs (lv_app v') = app_logs (lv_app v2) @ [exit_entry forced err]" by (simp add: v2(2))
  then have "le_msg (last (app_logs (lv_app v'))) =
       (case err of
          None \<Rightarrow> if forced then ''forced shutdown completed'' else ''graceful shutdown completed''
        | Some e \<Rightarrow> if error_is e errServerExitTimeout then ''web server exit wait timed out''
                    else ''web server exited with error'')"
    by (simp add: exit_entry_def log_err_def global_log_def ctx_log_def split: option.split)
  ultimately show ?thesis using rel
    by (intro conjI exI [of _ "app_world (lv_app v1)"]) (assumption | simp only:)+
qed

text \<open>
  C11. A program that returns leaves nothing open: when \<open>main\<close> of the API, the worker or the
  migration returns, by a signal or because the server stopped, every connection it opened has been
  closed, whatever errors closing reports and however the shutdown went.
\<close>

theorem returning_releases:
  assumes "db_counts opened (lib_db X)" and "redis_counts opened (lib_redis X)" and "asynq_counts opened (lib_asynq X)"
    and "env_counts opened E"
    and "api_main X E env p = (Exited, p') \<or> worker_main X M A mux E env p = (Exited, p') \<or>
         migrate_main (lib_db X) E env p = (Exited, p')"
  shows "opened (app_world p') = opened (app_world p)"
  using assms(5)
  by (elim disjE api_main_releases [OF assms(1-4)] worker_main_releases [OF assms(1-4)] migrate_main_releases [OF assms(1,4)])

section \<open>The properties at work\<close>

definition bare_server :: "(unit, int, unit, unit) server" where
  "bare_server =
     \<lparr>sv_engine = \<lparr>en_middleware = [], en_routes = []\<rparr>,
      sv_http = Some \<lparr>hv_addr = '':8080'', hv_read_header_timeout = 0\<rparr>, sv_rate_limiter = None\<rparr>"

text \<open>A network on which a graceful shutdown takes too long.\<close>

definition slow_http :: "int http_lib" where
  "slow_http =
     \<lparr>hl_listen_and_serve = (\<lambda>h w. (Some ErrServerClosed, w)),
      hl_shutdown = (\<lambda>h t w. (Some (Foreign ''context deadline exceeded''), w)), hl_close = (\<lambda>h w. (None, w))\<rparr>"

theorem shutdown_outcome_witness:
  "\<exists>err v'. shutdown_web_server live_log (server_lifecycle slow_http (Some bare_server)) (\<lambda>t. call_live (Pair (Some None)))
       (10 * second) (2 * second) \<lparr>lv_app = \<lparr>app_world = 0, app_logs = []\<rparr>, lv_limiter = None\<rparr> = ((True, err), v') \<and>
     le_msg (last (app_logs (lv_app v'))) = ''forced shutdown completed''"
proof -
  let ?v = "\<lparr>lv_app = \<lparr>app_world = 0, app_logs = []\<rparr>, lv_limiter = None\<rparr> :: (int, unit, unit) live"
  obtain forced err v' where r: "shutdown_web_server live_log (server_lifecycle slow_http (Some bare_server))
      (\<lambda>t. call_live (Pair (Some None))) (10 * second) (2 * second) ?v = ((forced, err), v')" by (metis surj_pair)
  have "sv_http bare_server = Some \<lparr>hv_addr = '':8080'', hv_read_header_timeout = 0\<rparr>" by (simp add: bare_server_def)
  from shutdown_outcome [OF this r] r show ?thesis by (auto simp: slow_http_def)
qed

definition sample_env :: "bool \<Rightarrow> (unit, int, string, nat) proc_env" where
  "sample_env proxies_ok =
     \<lparr>pe_load_file = (\<lambda>f e. e), pe_set_mode = (\<lambda>m w. Inr w), pe_zap = sample_zap,
      pe_trusted = (\<lambda>ps. if proxies_ok then None else Some (Foreign ''invalid CIDR'')), pe_http = slow_http,
      pe_select = (\<lambda>w. (None, w)), pe_recv = (\<lambda>t w. (Some None, w)), pe_run = (\<lambda>w. (None, w)),
      pe_migrate = (\<lambda>db t w. (None, w)), pe_sync = (\<lambda>w. w)\<rparr>"

lemma sample_env_counts: "env_counts (\<lambda>w. w) (sample_env b)"
  by (simp add: env_counts_def sample_env_def slow_http_def counts_def)

definition counted_libs ::
    "((api_data body, unit ctx) sample_ctx, unit, unit, unit, unit, unit, int, token_bucket, int) libs" where
  "counted_libs =
     \<lparr>lib_gin = sample_gin,
      lib_binding = \<lparr>bind_string = (\<lambda>n c. Inl (Foreign ''EOF'')), bind_list = (\<lambda>c. Inr (10, 0))\<rparr>,
      lib_os = \<lparr>os_now = Pair 0, os_uuid = Pair ''uuid'', os_stack = Pair ''stack''\<rparr>, lib_jwt = sample_jwt, lib_rate = sample_rate,
      lib_db = counted_db True,
      lib_gorm = \<lparr>gorm_with_context = (\<lambda>c db. db), gorm_create = (\<lambda>db ex w. ((None, ex), w)),
        gorm_count = (\<lambda>db w. (Inr 0, w)), gorm_find = (\<lambda>db ord l k w. (Inr [], w)), gorm_transaction = (\<lambda>db f s. f db s)\<rparr>,
      lib_redis = counted_redis True, lib_asynq = counted_asynq\<rparr>"

lemma counted_libs_ok:
  "db_counts (\<lambda>w. w) (lib_db counted_libs)" "redis_counts (\<lambda>w. w) (lib_redis counted_libs)"
  "asynq_counts (\<lambda>w. w) (lib_asynq counted_libs)"
  by (simp_all add: counted_libs_def counted_ok)

abbreviation sample_vars :: env where
  "sample_vars \<equiv> [''POSTGRES'' \<mapsto> ''dsn'', ''REDIS_ADDR'' \<mapsto> ''redis:6379'']"

abbreviation start_app :: "int app" where
  "start_app \<equiv> \<lparr>app_world = 0, app_logs = []\<rparr>"

theorem returning_releases_witness:
  "\<exists>p'. migrate_main (lib_db counted_libs) (sample_env True) sample_vars start_app = (Exited, p') \<and> app_world p' = 0"
proof -
  have "fst (migrate_main (lib_db counted_libs) (sample_env True) sample_vars start_app) = Exited" by code_simp
  then obtain p' where r: "migrate_main (lib_db counted_libs) (sample_env True) sample_vars start_app = (Exited, p')"
    by (metis prod.collapse)
  from returning_releases [OF counted_libs_ok sample_env_counts, of True sample_vars start_app p'] r
  show ?thesis by auto
qed

text \<open>
  A fatal error skips the deferred calls: when the API has opened its connections but cannot
  assemble its server, for instance because a trusted proxy is not an address, it exits with the
  database, the cache and the queue client still open.
\<close>

theorem fatal_skips_close:
  "\<exists>p'. api_main counted_libs (sample_env False) sample_vars start_app = (FatalExit, p') \<and> app_world p' = 3"
proof -
  let ?r = "api_main counted_libs (sample_env False) sample_vars start_app"
  have "fst ?r = FatalExit \<and> app_world (snd ?r) = 3" by code_simp
  then show ?thesis by (cases ?r) simp
qed

end
