(* ===== verification/Processes.thy ===== *)
theory Processes
  imports Lifecycle
begin

text \<open>
  The goroutines of the two processes as step relations: \<open>main\<close> of the API with the goroutine that
  runs the server, and \<open>Worker.Run\<close> with its two. Every interleaving is a run of the relation.
\<close>

section \<open>Runs that end\<close>

text \<open>\<open>inevitable step P s\<close>: every run from \<open>s\<close>, taken as far as it goes, ends in a state with \<open>P\<close>.\<close>

inductive inevitable :: "('s \<Rightarrow> 's \<Rightarrow> bool) \<Rightarrow> ('s \<Rightarrow> bool) \<Rightarrow> 's \<Rightarrow> bool" for step P where
  ended: "\<nexists>s'. step s s' \<Longrightarrow> P s \<Longrightarrow> inevitable step P s"
| going: "\<exists>s'. step s s' \<Longrightarrow> (\<And>s'. step s s' \<Longrightarrow> inevitable step P s') \<Longrightarrow> inevitable step P s"

locale ending_steps =
  fixes step :: "'s \<Rightarrow> 's \<Rightarrow> bool" and rank :: "'s \<Rightarrow> nat"
  assumes decreases: "step s s' \<Longrightarrow> rank s' < rank s"
begin

lemma no_infinite_run: "\<not> (\<forall>i. step (f i) (f (Suc i)))"
proof
  assume run: "\<forall>i. step (f i) (f (Suc i))"
  have "rank (f i) + i \<le> rank (f 0)" for i
  proof (induction i)
    case (Suc i)
    have "rank (f (Suc i)) < rank (f i)" using run by (intro decreases) blast
    with Suc show ?case by simp
  qed simp
  from this [of "Suc (rank (f 0))"] show False by simp
qed

text \<open>An invariant holds where the runs end.\<close>

lemma inevitableI:
  assumes "\<And>s s'. I s \<Longrightarrow> step s s' \<Longrightarrow> I s'" and "\<And>s. I s \<Longrightarrow> \<nexists>s'. step s s' \<Longrightarrow> P s"
  shows "I s \<Longrightarrow> inevitable step P s"
proof (induction "rank s" arbitrary: s rule: less_induct)
  case less
  show ?case
  proof (cases "\<exists>s'. step s s'")
    case True
    have "inevitable step P s'" if "step s s'" for s'
      using that assms(1) [OF less.prems that] decreases [OF that] by (intro less.hyps)
    with True show ?thesis by (rule inevitable.going)
  next
    case False
    then show ?thesis using less.prems assms(2) by (intro inevitable.ended) blast+
  qed
qed

end

section \<open>The API process (cmd/api/main.go, server.go)\<close>

text \<open>
  \<open>ap_chan\<close> is \<open>errCh\<close>, of capacity one. \<open>Draining\<close> and \<open>Torn\<close> are what \<open>Shutdown\<close> and \<open>Close\<close> make of
  an \<open>http.Server\<close>: \<open>ListenAndServe\<close> returns \<open>ErrServerClosed\<close> then, and only then. Any other error of
  the network it may return at any time: a listen that began before a shutdown can still fail after it.
\<close>

datatype runner = Serving | Sent
datatype http_state = Open | Draining | Torn
datatype main_pc =
    Selecting
  | Shutting
  | Waiting bool
  | Finished bool "go_error option"
  | Stopped
  | Failed go_error

record api_proc =
  ap_runner :: runner
  ap_chan :: "go_error option option"
  ap_signal :: bool
  ap_http :: http_state
  ap_main :: main_pc

definition api_start :: api_proc where
  "api_start = \<lparr>ap_runner = Serving, ap_chan = None, ap_signal = False, ap_http = Open, ap_main = Selecting\<rparr>"

definition exit_timeout :: go_error where
  "exit_timeout = Wrapped [] errServerExitTimeout ('' after '' @ show_duration serverExitWaitTimeout)"

text \<open>What \<open>Server.Run\<close> returns for what \<open>ListenAndServe\<close> returned.\<close>

definition run_result :: "go_error \<Rightarrow> go_error option" where
  "run_result err =
     (if \<not> error_is err ErrServerClosed then Some (wrap ''listen and serve http server'' err) else None)"

lemma server_run_result:
  "http_of s = Some h \<Longrightarrow>
   fst (server_run H s v) = (case fst (hl_listen_and_serve H h (app_world (lv_app v))) of None \<Rightarrow> None | Some err \<Rightarrow> run_result err)"
  by (simp add: server_run_def run_result_def call_live_def call_world_def split: prod.split option.split)

inductive api_step :: "api_proc \<Rightarrow> api_proc \<Rightarrow> bool" where
  listen_fails: "ap_runner s = Serving \<Longrightarrow> ap_chan s = None \<Longrightarrow> \<not> error_is err ErrServerClosed \<Longrightarrow>
     api_step s (s\<lparr>ap_runner := Sent, ap_chan := Some (run_result err)\<rparr>)"
| serve_closed: "ap_runner s = Serving \<Longrightarrow> ap_chan s = None \<Longrightarrow> ap_http s \<noteq> Open \<Longrightarrow>
     api_step s (s\<lparr>ap_runner := Sent, ap_chan := Some (run_result ErrServerClosed)\<rparr>)"
| signal: "\<not> ap_signal s \<Longrightarrow> api_step s (s\<lparr>ap_signal := True\<rparr>)"
| select_exit: "ap_main s = Selecting \<Longrightarrow> ap_chan s = Some r \<Longrightarrow>
     api_step s (s\<lparr>ap_chan := None, ap_main := (case r of Some err \<Rightarrow> Failed err | None \<Rightarrow> Stopped)\<rparr>)"
| select_signal: "ap_main s = Selecting \<Longrightarrow> ap_signal s \<Longrightarrow>
     api_step s (s\<lparr>ap_http := Draining, ap_main := Shutting\<rparr>)"
| shutdown_done: "ap_main s = Shutting \<Longrightarrow> api_step s (s\<lparr>ap_main := Waiting False\<rparr>)"
| shutdown_fails: "ap_main s = Shutting \<Longrightarrow> api_step s (s\<lparr>ap_http := Torn, ap_main := Waiting True\<rparr>)"
| wait_exit: "ap_main s = Waiting forced \<Longrightarrow> ap_chan s = Some r \<Longrightarrow>
     api_step s (s\<lparr>ap_chan := None, ap_main := Finished forced r\<rparr>)"
| wait_timeout: "ap_main s = Waiting forced \<Longrightarrow> api_step s (s\<lparr>ap_main := Finished forced (Some exit_timeout)\<rparr>)"

inductive_cases api_stepE: "api_step s s'"

abbreviation api_reach :: "api_proc \<Rightarrow> bool" where
  "api_reach \<equiv> api_step\<^sup>*\<^sup>* api_start"

fun main_rank :: "main_pc \<Rightarrow> nat" where
  "main_rank Selecting = 3"
| "main_rank Shutting = 2"
| "main_rank (Waiting f) = 1"
| "main_rank _ = 0"

definition api_rank :: "api_proc \<Rightarrow> nat" where
  "api_rank s = main_rank (ap_main s) + (if ap_runner s = Serving then 1 else 0) + (if ap_signal s then 0 else 1)"

lemma api_step_rank: "api_step s s' \<Longrightarrow> api_rank s' < api_rank s"
  by (erule api_stepE) (auto simp: api_rank_def split: option.split)

interpretation api: ending_steps api_step api_rank
  by unfold_locales (rule api_step_rank)

text \<open>
  The invariant: the goroutine that has not sent finds the channel empty; the server is open as long
  as \<open>main\<close> has not taken a signal; a clean exit is only sent by a server that was shut down.
\<close>

definition api_inv :: "api_proc \<Rightarrow> bool" where
  "api_inv s \<longleftrightarrow>
     (ap_runner s = Serving \<longrightarrow> ap_chan s = None) \<and>
     (ap_main s = Selecting \<longrightarrow> ap_http s = Open) \<and>
     (ap_http s = Open \<longrightarrow> ap_chan s \<noteq> Some None) \<and>
     (ap_http s \<noteq> Open \<longrightarrow> ap_signal s) \<and>
     (ap_chan s \<noteq> None \<longrightarrow> (\<exists>err. ap_chan s = Some (run_result err))) \<and>
     (case ap_main s of
        Selecting \<Rightarrow> True
      | Shutting \<Rightarrow> ap_http s = Draining
      | Waiting forced \<Rightarrow> ap_http s = (if forced then Torn else Draining)
      | Finished forced r \<Rightarrow>
          ap_http s = (if forced then Torn else Draining) \<and> (r = Some exit_timeout \<or> (\<exists>err. r = run_result err))
      | Stopped \<Rightarrow> False
      | Failed e \<Rightarrow> ap_runner s = Sent \<and> ap_http s = Open \<and> (\<exists>err. run_result err = Some e))"

lemma run_result_open: "\<not> error_is err ErrServerClosed \<Longrightarrow> run_result err \<noteq> None"
  by (simp add: run_result_def)

lemma run_result_closed [simp]: "run_result ErrServerClosed = None"
  by (simp add: run_result_def)

lemma api_inv_start: "api_inv api_start"
  by (simp add: api_inv_def api_start_def)

lemma api_step_inv: "api_step s s' \<Longrightarrow> api_inv s \<Longrightarrow> api_inv s'"
proof (induction rule: api_step.induct)
  case (listen_fails s err)
  then obtain y where "run_result err = Some y" using run_result_open by blast
  moreover from this have "\<exists>e. Some y = run_result e" by metis
  ultimately show ?case using listen_fails by (auto simp: api_inv_def split: main_pc.splits if_splits)
next
  case (serve_closed s)
  then show ?case by (auto simp: api_inv_def split: main_pc.splits intro: run_result_closed [symmetric])
next
  case (select_exit s r)
  then have "r \<noteq> None" "\<exists>err. r = run_result err" by (auto simp: api_inv_def)
  then obtain err e where "run_result err = Some e" "r = Some e" by (metis option.exhaust)
  with select_exit show ?case by (cases "ap_runner s") (auto simp: api_inv_def)
next
  case (wait_exit s forced r)
  then show ?case by (cases "ap_runner s") (auto simp: api_inv_def)
qed (auto simp: api_inv_def split: main_pc.splits if_splits)

lemma api_reach_inv: "api_reach s \<Longrightarrow> api_inv s"
  by (induction rule: rtranclp_induct) (auto intro: api_inv_start api_step_inv)

text \<open>A process that has its signal and has not finished can go on.\<close>

definition api_over :: "api_proc \<Rightarrow> bool" where
  "api_over s \<longleftrightarrow> (case ap_main s of Finished f r \<Rightarrow> True | Failed e \<Rightarrow> True | _ \<Rightarrow> False)"

lemma api_progress: "api_inv s \<Longrightarrow> ap_signal s \<Longrightarrow> \<not> api_over s \<Longrightarrow> \<exists>s'. api_step s s'"
  by (cases "ap_main s")
     (auto simp: api_over_def api_inv_def intro: api_step.select_signal api_step.shutdown_done api_step.wait_timeout)

lemma signal_stays: "api_step s s' \<Longrightarrow> ap_signal s \<Longrightarrow> ap_signal s'"
  by (erule api_stepE) auto

section \<open>Worker.Run (internal/worker.go)\<close>

text \<open>
  The two goroutines of the error group, and \<open>Wait\<close>: the group's context is done when the parent's
  is or a goroutine has returned an error; the first error is kept. When asynq's \<open>Run\<close> returns, and with
  what, is asynq's affair: it documents that \<open>Run\<close> blocks until the process gets a signal, not that
  \<open>Shutdown\<close> ends it. So \<open>server_returns\<close> may happen at any time, or never: nothing below relies on it.
\<close>

record run_proc =
  rp_server :: "go_error option option"
  rp_parent_done :: bool
  rp_group_done :: bool
  rp_first :: "go_error option"
  rp_shutdown :: bool
  rp_result :: "go_error option option"

definition run_start :: run_proc where
  "run_start = \<lparr>rp_server = None, rp_parent_done = False, rp_group_done = False, rp_first = None,
                rp_shutdown = False, rp_result = None\<rparr>"

definition group_error :: "go_error option \<Rightarrow> go_error option" where
  "group_error r = map_option (wrap ''run worker server'') r"

inductive run_step :: "run_proc \<Rightarrow> run_proc \<Rightarrow> bool" where
  server_returns: "rp_server s = None \<Longrightarrow>
     run_step s (s\<lparr>rp_server := Some r,
                   rp_first := (if rp_first s = None then group_error r else rp_first s),
                   rp_group_done := (rp_group_done s \<or> r \<noteq> None)\<rparr>)"
| parent_done: "\<not> rp_parent_done s \<Longrightarrow> run_step s (s\<lparr>rp_parent_done := True, rp_group_done := True\<rparr>)"
| watcher: "\<not> rp_shutdown s \<Longrightarrow> rp_group_done s \<Longrightarrow> run_step s (s\<lparr>rp_shutdown := True\<rparr>)"
| wait: "rp_result s = None \<Longrightarrow> rp_server s \<noteq> None \<Longrightarrow> rp_shutdown s \<Longrightarrow>
     run_step s (s\<lparr>rp_result := Some (rp_first s)\<rparr>)"

inductive_cases run_stepE: "run_step s s'"

abbreviation run_reach :: "run_proc \<Rightarrow> bool" where
  "run_reach \<equiv> run_step\<^sup>*\<^sup>* run_start"

definition run_rank :: "run_proc \<Rightarrow> nat" where
  "run_rank s = (if rp_server s = None then 1 else 0) + (if rp_parent_done s then 0 else 1) +
     (if rp_shutdown s then 0 else 1) + (if rp_result s = None then 1 else 0)"

lemma run_step_rank: "run_step s s' \<Longrightarrow> run_rank s' < run_rank s"
  by (erule run_stepE) (auto simp: run_rank_def)

interpretation run: ending_steps run_step run_rank
  by unfold_locales (rule run_step_rank)

definition run_inv :: "run_proc \<Rightarrow> bool" where
  "run_inv s \<longleftrightarrow>
     rp_first s = (case rp_server s of None \<Rightarrow> None | Some r \<Rightarrow> group_error r) \<and>
     rp_group_done s = (rp_parent_done s \<or> rp_first s \<noteq> None) \<and>
     (rp_shutdown s \<longrightarrow> rp_group_done s) \<and>
     (\<forall>r. rp_result s = Some r \<longrightarrow> rp_server s \<noteq> None \<and> rp_shutdown s \<and> r = rp_first s)"

lemma run_step_inv: "run_step s s' \<Longrightarrow> run_inv s \<Longrightarrow> run_inv s'"
  by (erule run_stepE) (auto simp: run_inv_def group_error_def)

lemma run_reach_inv: "run_reach s \<Longrightarrow> run_inv s"
  by (induction rule: rtranclp_induct) (auto intro: run_step_inv, simp add: run_inv_def run_start_def)

text \<open>The steps of the program itself, while asynq's server and the parent's context do not change.\<close>

definition run_own :: "run_proc \<Rightarrow> run_proc \<Rightarrow> bool" where
  "run_own s s' \<longleftrightarrow> run_step s s' \<and> rp_server s' = rp_server s \<and> rp_parent_done s' = rp_parent_done s"

interpretation own: ending_steps run_own run_rank
  by unfold_locales (simp add: run_own_def run_step_rank)

lemma run_own_progress:
  assumes "run_inv s" and "rp_parent_done s \<or> (\<exists>e. rp_server s = Some (Some e))" and "\<nexists>s'. run_own s s'"
  shows "rp_shutdown s \<and> rp_result s = map_option group_error (rp_server s)"
proof -
  have "rp_group_done s" using assms(1,2) by (auto simp: run_inv_def group_error_def)
  then have "\<not> rp_shutdown s \<Longrightarrow> run_own s (s\<lparr>rp_shutdown := True\<rparr>)"
    by (simp add: run_own_def run_step.watcher)
  then have sh: "rp_shutdown s" using assms(3) by blast
  have "rp_result s = None \<Longrightarrow> run_own s (s\<lparr>rp_result := Some (rp_first s)\<rparr>)" if "rp_server s \<noteq> None"
    using that sh by (simp add: run_own_def run_step.wait)
  then have "rp_result s \<noteq> None" if "rp_server s \<noteq> None" using that assms(3) by blast
  then show ?thesis using sh assms(1) by (cases "rp_server s"; cases "rp_result s") (auto simp: run_inv_def)
qed

section \<open>The shutdown, interleaved and in one piece\<close>

text \<open>The steps of the goroutine that runs the server: it sends what \<open>Run\<close> returned.\<close>

definition runner_moves :: "api_proc \<Rightarrow> api_proc \<Rightarrow> bool" where
  "runner_moves s s' \<longleftrightarrow> api_step s s' \<and> ap_runner s = Serving \<and> ap_runner s' = Sent"

text \<open>
  What \<open>shutdownWebServer\<close> works on, when it runs in the process: \<open>Shutdown\<close> stops the listeners and
  answers something in the end, \<open>Close\<close> tears the connections down, and the wait takes what is in the
  channel, or the timer fires. The goroutine of the server goes on meanwhile.
\<close>

definition took :: "go_error option option \<Rightarrow> api_proc \<Rightarrow> api_proc \<Rightarrow> bool" where
  "took x s s' \<longleftrightarrow> (case x of None \<Rightarrow> s' = s | Some r \<Rightarrow> ap_chan s = Some r \<and> s' = s\<lparr>ap_chan := None\<rparr>)"

definition acts_on_process ::
    "api_proc lifecycle_iface \<Rightarrow> (int \<Rightarrow> api_proc \<Rightarrow> go_error option option \<times> api_proc) \<Rightarrow> bool" where
  "acts_on_process srv recv \<longleftrightarrow>
     (\<forall>t s. runner_moves\<^sup>*\<^sup>* (s\<lparr>ap_http := Draining\<rparr>) (snd (lc_shutdown srv t s))) \<and>
     (\<forall>s. snd (lc_close srv s) = s\<lparr>ap_http := Torn\<rparr>) \<and>
     (\<forall>t s. \<exists>s1. runner_moves\<^sup>*\<^sup>* s s1 \<and> took (fst (recv t s)) s1 (snd (recv t s)))"

definition wait_verdict :: "go_error option option \<Rightarrow> go_error option" where
  "wait_verdict r = (case r of Some res \<Rightarrow> res | None \<Rightarrow> Some exit_timeout)"

text \<open>The state the waiting begins in, for the state \<open>Shutdown\<close> returned in.\<close>

definition after_stop :: "bool \<Rightarrow> api_proc \<Rightarrow> api_proc" where
  "after_stop forced s = (if forced then s\<lparr>ap_http := Torn\<rparr> else s)"

lemma shutdown_in_process:
  assumes "acts_on_process srv recv" and "lc_shutdown srv st s = (a, s1)"
  shows "shutdown_web_server (\<lambda>_ s. s) srv recv st serverExitWaitTimeout s =
     (case recv serverExitWaitTimeout (after_stop (a \<noteq> None) s1) of (x, t) \<Rightarrow> ((a \<noteq> None, wait_verdict x), t))"
proof -
  have "stop_web_server (\<lambda>_ s. s) srv st s = (a \<noteq> None, after_stop (a \<noteq> None) s1)"
    using assms by (cases a; cases "lc_close srv s1"; cases "fst (lc_close srv s1)")
      (auto simp: stop_web_server_def after_stop_def acts_on_process_def Let_def dest: spec [where x = s1])
  then show ?thesis
    by (simp add: shutdown_web_server_def wait_for_server_exit_def wait_verdict_def exit_timeout_def split: prod.split option.split)
qed

text \<open>The goroutine of the server and \<open>main\<close> do not see each other but for the channel and the server.\<close>

lemma runner_moves_iff:
  "runner_moves s s' \<longleftrightarrow>
     ap_runner s = Serving \<and> ap_chan s = None \<and>
     (\<exists>err. s' = s\<lparr>ap_runner := Sent, ap_chan := Some (run_result err)\<rparr> \<and>
        (\<not> error_is err ErrServerClosed \<or> err = ErrServerClosed \<and> ap_http s \<noteq> Open))"
  by (auto simp: runner_moves_def intro: api_step.listen_fails api_step.serve_closed elim!: api_stepE)

lemma runner_moves_main: "runner_moves s s' \<Longrightarrow> runner_moves (s\<lparr>ap_main := m\<rparr>) (s'\<lparr>ap_main := m\<rparr>)"
proof -
  assume m: "runner_moves s s'"
  then obtain err where e: "s' = s\<lparr>ap_runner := Sent, ap_chan := Some (run_result err)\<rparr>"
      "\<not> error_is err ErrServerClosed \<or> err = ErrServerClosed \<and> ap_http s \<noteq> Open" by (auto simp only: runner_moves_iff)
  then have "s'\<lparr>ap_main := m\<rparr> = s\<lparr>ap_main := m, ap_runner := Sent, ap_chan := Some (run_result err)\<rparr>" by (cases s) simp
  then show ?thesis using e(2) m unfolding runner_moves_iff by (intro conjI exI [of _ err]) simp_all
qed

lemma runner_run_main: "runner_moves\<^sup>*\<^sup>* s s' \<Longrightarrow> runner_moves\<^sup>*\<^sup>* (s\<lparr>ap_main := m\<rparr>) (s'\<lparr>ap_main := m\<rparr>)"
  by (induction rule: rtranclp_induct) (auto intro: runner_moves_main rtranclp.rtrancl_into_rtrancl)

lemma runner_run_keeps: "runner_moves\<^sup>*\<^sup>* s s' \<Longrightarrow> ap_main s' = ap_main s"
  by (induction rule: rtranclp_induct) (auto simp: runner_moves_iff)

lemma runner_run_steps: "runner_moves\<^sup>*\<^sup>* s s' \<Longrightarrow> api_step\<^sup>*\<^sup>* s s'"
  by (erule rtranclp_mono [THEN predicate2D, rotated]) (auto simp: runner_moves_def)

lemma runner_steps_main: "runner_moves\<^sup>*\<^sup>* s s' \<Longrightarrow> api_step\<^sup>*\<^sup>* (s\<lparr>ap_main := m\<rparr>) (s'\<lparr>ap_main := m\<rparr>)"
  by (intro runner_run_steps runner_run_main)

text \<open>What \<open>main\<close> does itself from the signal on, as steps.\<close>

lemma main_steps:
  "ap_main s = Selecting \<Longrightarrow> ap_signal s \<Longrightarrow> api_step s (s\<lparr>ap_http := Draining, ap_main := Shutting\<rparr>)"
  "api_step (s\<lparr>ap_main := Shutting\<rparr>) ((after_stop forced s)\<lparr>ap_main := Waiting forced\<rparr>)"
  "took x s t \<Longrightarrow> api_step (s\<lparr>ap_main := Waiting forced\<rparr>) (t\<lparr>ap_main := Finished forced (wait_verdict x)\<rparr>)"
proof -
  show "ap_main s = Selecting \<Longrightarrow> ap_signal s \<Longrightarrow> api_step s (s\<lparr>ap_http := Draining, ap_main := Shutting\<rparr>)"
    by (rule api_step.select_signal)
  show "api_step (s\<lparr>ap_main := Shutting\<rparr>) ((after_stop forced s)\<lparr>ap_main := Waiting forced\<rparr>)"
    using api_step.shutdown_done [of "s\<lparr>ap_main := Shutting\<rparr>"] api_step.shutdown_fails [of "s\<lparr>ap_main := Shutting\<rparr>"]
    by (simp add: after_stop_def)
  show "took x s t \<Longrightarrow> api_step (s\<lparr>ap_main := Waiting forced\<rparr>) (t\<lparr>ap_main := Finished forced (wait_verdict x)\<rparr>)"
    using api_step.wait_timeout [of "s\<lparr>ap_main := Waiting forced\<rparr>" forced] api_step.wait_exit [of "s\<lparr>ap_main := Waiting forced\<rparr>" forced]
    by (cases x) (auto simp: took_def wait_verdict_def)
qed

text \<open>An execution of the code is a run of the steps.\<close>

lemma shutdown_is_run:
  assumes acts: "acts_on_process srv recv" and s: "ap_main s = Selecting" "ap_signal s"
    and run: "shutdown_web_server (\<lambda>_ s. s) srv recv st serverExitWaitTimeout s = ((forced, r), t)"
  shows "api_step\<^sup>*\<^sup>* s (t\<lparr>ap_main := Finished forced r\<rparr>)"
proof -
  obtain a s1 where a: "lc_shutdown srv st s = (a, s1)" by fastforce
  obtain x where x: "recv serverExitWaitTimeout (after_stop forced s1) = (x, t)" "r = wait_verdict x"
    using run by (auto simp: shutdown_in_process [OF acts a] split: prod.splits)
  have "runner_moves\<^sup>*\<^sup>* (s\<lparr>ap_http := Draining\<rparr>) s1"
    using acts a unfolding acts_on_process_def by (metis snd_conv)
  from runner_steps_main [OF this, of Shutting] main_steps(1) [OF s]
  have 1: "api_step\<^sup>*\<^sup>* s (s1\<lparr>ap_main := Shutting\<rparr>)" by (auto intro: converse_rtranclp_into_rtranclp)
  obtain s2 where s2: "runner_moves\<^sup>*\<^sup>* (after_stop forced s1) s2" "took x s2 t"
    using acts x(1) unfolding acts_on_process_def by (metis fst_conv snd_conv)
  from runner_steps_main [OF s2(1)] have "api_step\<^sup>*\<^sup>* ((after_stop forced s1)\<lparr>ap_main := Waiting forced\<rparr>) (s2\<lparr>ap_main := Waiting forced\<rparr>)" .
  with 1 main_steps(2) [of s1 forced] have "api_step\<^sup>*\<^sup>* s (s2\<lparr>ap_main := Waiting forced\<rparr>)"
    by (meson rtranclp.rtrancl_into_rtrancl rtranclp_trans)
  then show ?thesis using main_steps(3) [OF s2(2), of forced] x(2) by (auto intro: rtranclp.rtrancl_into_rtrancl)
qed

text \<open>
  And back: how a reachable state came about once \<open>main\<close> took the signal in a state \<open>s\<close>, in the parts the
  code has: \<open>Shutdown\<close>, which ends in \<open>s1\<close>, and the wait, which takes \<open>x\<close> in \<open>s2\<close>.
\<close>

abbreviation ready :: "api_proc \<Rightarrow> bool" where
  "ready s \<equiv> api_reach s \<and> ap_main s = Selecting \<and> ap_signal s"

definition came_about :: "api_proc \<Rightarrow> bool" where
  "came_about u \<longleftrightarrow>
     (let u' = u\<lparr>ap_main := Selecting\<rparr> in
      case ap_main u of
        Shutting \<Rightarrow> \<exists>s. ready s \<and> runner_moves\<^sup>*\<^sup>* (s\<lparr>ap_http := Draining\<rparr>) u'
      | Waiting forced \<Rightarrow> \<exists>s s1. ready s \<and> runner_moves\<^sup>*\<^sup>* (s\<lparr>ap_http := Draining\<rparr>) s1 \<and> runner_moves\<^sup>*\<^sup>* (after_stop forced s1) u'
      | Finished forced r \<Rightarrow> \<exists>s s1 s2 x t. ready s \<and> runner_moves\<^sup>*\<^sup>* (s\<lparr>ap_http := Draining\<rparr>) s1 \<and>
          runner_moves\<^sup>*\<^sup>* (after_stop forced s1) s2 \<and> took x s2 t \<and> r = wait_verdict x \<and> runner_moves\<^sup>*\<^sup>* t u'
      | _ \<Rightarrow> True)"

lemma came_about_simps:
  "ap_main u = Shutting \<Longrightarrow> came_about u \<longleftrightarrow>
     (\<exists>s. ready s \<and> runner_moves\<^sup>*\<^sup>* (s\<lparr>ap_http := Draining\<rparr>) (u\<lparr>ap_main := Selecting\<rparr>))"
  "ap_main u = Waiting forced \<Longrightarrow> came_about u \<longleftrightarrow>
     (\<exists>s s1. ready s \<and> runner_moves\<^sup>*\<^sup>* (s\<lparr>ap_http := Draining\<rparr>) s1 \<and>
        runner_moves\<^sup>*\<^sup>* (after_stop forced s1) (u\<lparr>ap_main := Selecting\<rparr>))"
  "ap_main u = Finished forced r \<Longrightarrow> came_about u \<longleftrightarrow>
     (\<exists>s s1 s2 x t. ready s \<and> runner_moves\<^sup>*\<^sup>* (s\<lparr>ap_http := Draining\<rparr>) s1 \<and>
        runner_moves\<^sup>*\<^sup>* (after_stop forced s1) s2 \<and> took x s2 t \<and> r = wait_verdict x \<and>
        runner_moves\<^sup>*\<^sup>* t (u\<lparr>ap_main := Selecting\<rparr>))"
  by (simp_all add: came_about_def Let_def)

lemma came_about_runner: "came_about u \<Longrightarrow> runner_moves u v \<Longrightarrow> came_about v"
proof -
  assume u: "came_about u" and m: "runner_moves u v"
  have "ap_main v = ap_main u" using m by (auto simp: runner_moves_iff)
  moreover have "runner_moves\<^sup>*\<^sup>* w (u\<lparr>ap_main := Selecting\<rparr>) \<Longrightarrow> runner_moves\<^sup>*\<^sup>* w (v\<lparr>ap_main := Selecting\<rparr>)" for w
    using runner_moves_main [OF m, of Selecting] by (rule rtranclp.rtrancl_into_rtrancl [rotated])
  ultimately show ?thesis using u unfolding came_about_def Let_def by (cases "ap_main u") (simp; blast)+
qed

lemma came_about_step:
  assumes "api_reach u" and "came_about u" and "api_step u v"
  shows "came_about v"
  using assms(3)
proof (cases rule: api_step.cases)
  case (listen_fails err)
  then show ?thesis using came_about_runner [OF assms(2)] assms(3) by (simp add: runner_moves_def)
next
  case serve_closed
  then show ?thesis using came_about_runner [OF assms(2)] assms(3) by (simp add: runner_moves_def)
next
  case signal
  then show ?thesis using api_reach_inv [OF assms(1)] by (cases "ap_main u") (auto simp: came_about_def api_inv_def split: if_splits)
next
  case (select_exit r)
  then show ?thesis by (cases r) (simp_all add: came_about_def)
next
  case select_signal
  then have e: "u\<lparr>ap_http := Draining\<rparr> = v\<lparr>ap_main := Selecting\<rparr>" by (cases u) simp
  have "runner_moves\<^sup>*\<^sup>* (u\<lparr>ap_http := Draining\<rparr>) (v\<lparr>ap_main := Selecting\<rparr>)"
    unfolding e by (rule rtranclp.rtrancl_refl)
  moreover have "ap_main v = Shutting" using select_signal by simp
  ultimately show ?thesis using select_signal assms(1) by (simp only: came_about_simps) blast
next
  case shutdown_done
  have "ap_main v = Waiting False" "after_stop False (u\<lparr>ap_main := Selecting\<rparr>) = v\<lparr>ap_main := Selecting\<rparr>"
    using shutdown_done by (simp_all add: after_stop_def)
  with assms(2) shutdown_done(2) show ?thesis by (simp only: came_about_simps) (metis rtranclp.rtrancl_refl)
next
  case shutdown_fails
  have "ap_main v = Waiting True" "after_stop True (u\<lparr>ap_main := Selecting\<rparr>) = v\<lparr>ap_main := Selecting\<rparr>"
    using shutdown_fails by (simp_all add: after_stop_def)
  with assms(2) shutdown_fails(2) show ?thesis by (simp only: came_about_simps) (metis rtranclp.rtrancl_refl)
next
  case (wait_exit forced r)
  have "ap_main v = Finished forced (wait_verdict (Some r))" "took (Some r) (u\<lparr>ap_main := Selecting\<rparr>) (v\<lparr>ap_main := Selecting\<rparr>)"
    using wait_exit by (simp_all add: took_def wait_verdict_def)
  with assms(2) wait_exit(2) show ?thesis by (simp only: came_about_simps) (metis rtranclp.rtrancl_refl)
next
  case (wait_timeout forced)
  have "ap_main v = Finished forced (wait_verdict None)" "took None (u\<lparr>ap_main := Selecting\<rparr>) (v\<lparr>ap_main := Selecting\<rparr>)"
    using wait_timeout by (simp_all add: took_def wait_verdict_def)
  with assms(2) wait_timeout(2) show ?thesis by (simp only: came_about_simps) (metis rtranclp.rtrancl_refl)
qed

lemma came_about_reach: "api_reach u \<Longrightarrow> came_about u"
proof (induction rule: rtranclp_induct)
  case base
  show ?case by (simp add: came_about_def api_start_def)
qed (rule came_about_step)

text \<open>For every way the parts can go there are a server, a goroutine and a timer the code goes that way with.\<close>

lemma code_does:
  assumes "runner_moves\<^sup>*\<^sup>* (s\<lparr>ap_http := Draining\<rparr>) s1" and "runner_moves\<^sup>*\<^sup>* (after_stop forced s1) s2" and "took x s2 t"
  obtains srv recv where "acts_on_process srv recv"
    "shutdown_web_server (\<lambda>_ s. s) srv recv st serverExitWaitTimeout s = ((forced, wait_verdict x), t)"
proof -
  define srv :: "api_proc lifecycle_iface" where
    "srv = \<lparr>lc_shutdown = (\<lambda>_ u. (if forced then Some errServerExitTimeout else None, if u = s then s1 else u\<lparr>ap_http := Draining\<rparr>)),
            lc_close = (\<lambda>u. (None, u\<lparr>ap_http := Torn\<rparr>))\<rparr>"
  define recv :: "int \<Rightarrow> api_proc \<Rightarrow> go_error option option \<times> api_proc" where
    "recv = (\<lambda>_ u. if u = after_stop forced s1 then (x, t) else (None, u))"
  have "\<exists>s2. runner_moves\<^sup>*\<^sup>* u s2 \<and> took (fst (recv w u)) s2 (snd (recv w u))" for w u
  proof (cases "u = after_stop forced s1")
    case True
    then show ?thesis using assms(2,3) by (auto simp: recv_def)
  next
    case False
    then show ?thesis by (intro exI [of _ u]) (simp add: recv_def took_def)
  qed
  then have acts: "acts_on_process srv recv" using assms(1) by (simp add: acts_on_process_def srv_def)
  have "lc_shutdown srv st s = (if forced then Some errServerExitTimeout else None, s1)" by (simp add: srv_def)
  from shutdown_in_process [OF acts this]
  have "shutdown_web_server (\<lambda>_ s. s) srv recv st serverExitWaitTimeout s = ((forced, wait_verdict x), t)"
    by (cases forced) (simp_all add: recv_def)
  with acts show ?thesis by (rule that)
qed

section \<open>Properties\<close>

text \<open>
  C13. The interleaved shutdown is the code's: the states of the process in which \<open>main\<close> has finished its
  shutdown are exactly those that \<open>shutdownWebServer\<close>, run on the process from a state in which the signal
  has come, returns in, with the \<open>forced\<close> and the error it returns, and those the goroutine of the
  server reaches from there. Whatever \<open>Shutdown\<close> and \<open>Close\<close> answer, the goroutine does and the timer
  decides: what the code leaves of the server, the channel and the result is what the steps do.
\<close>

theorem interleaved_shutdown_agrees:
  "api_reach u \<and> ap_main u = Finished forced r \<longleftrightarrow>
   (\<exists>srv recv s t. acts_on_process srv recv \<and> api_reach s \<and> ap_main s = Selecting \<and> ap_signal s \<and>
      shutdown_web_server (\<lambda>_ s. s) srv recv gracefulShutdownTimeout serverExitWaitTimeout s = ((forced, r), t) \<and>
      runner_moves\<^sup>*\<^sup>* (t\<lparr>ap_main := Finished forced r\<rparr>) u)"
proof
  assume u: "api_reach u \<and> ap_main u = Finished forced r"
  have "came_about u" using came_about_reach u by blast
  then obtain s s1 s2 x t where c: "ready s" "runner_moves\<^sup>*\<^sup>* (s\<lparr>ap_http := Draining\<rparr>) s1"
      "runner_moves\<^sup>*\<^sup>* (after_stop forced s1) s2" "took x s2 t" "r = wait_verdict x" "runner_moves\<^sup>*\<^sup>* t (u\<lparr>ap_main := Selecting\<rparr>)"
    using u by (auto simp: came_about_def)
  obtain srv recv where a: "acts_on_process srv recv"
      "shutdown_web_server (\<lambda>_ s. s) srv recv gracefulShutdownTimeout serverExitWaitTimeout s = ((forced, wait_verdict x), t)"
    using code_does [OF c(2-4)] by blast
  moreover have "runner_moves\<^sup>*\<^sup>* (t\<lparr>ap_main := Finished forced r\<rparr>) u"
  proof -
    have "u\<lparr>ap_main := Selecting, ap_main := Finished forced r\<rparr> = u" using u by (cases u) simp
    then show ?thesis using runner_run_main [OF c(6), of "Finished forced r"] by simp
  qed
  ultimately show "\<exists>srv recv s t. acts_on_process srv recv \<and> api_reach s \<and> ap_main s = Selecting \<and> ap_signal s \<and>
      shutdown_web_server (\<lambda>_ s. s) srv recv gracefulShutdownTimeout serverExitWaitTimeout s = ((forced, r), t) \<and>
      runner_moves\<^sup>*\<^sup>* (t\<lparr>ap_main := Finished forced r\<rparr>) u"
    using c(1,5) by blast
next
  assume "\<exists>srv recv s t. acts_on_process srv recv \<and> api_reach s \<and> ap_main s = Selecting \<and> ap_signal s \<and>
      shutdown_web_server (\<lambda>_ s. s) srv recv gracefulShutdownTimeout serverExitWaitTimeout s = ((forced, r), t) \<and>
      runner_moves\<^sup>*\<^sup>* (t\<lparr>ap_main := Finished forced r\<rparr>) u"
  then obtain srv recv s t where "api_reach s" "api_step\<^sup>*\<^sup>* s (t\<lparr>ap_main := Finished forced r\<rparr>)"
      and u: "runner_moves\<^sup>*\<^sup>* (t\<lparr>ap_main := Finished forced r\<rparr>) u"
    using shutdown_is_run by blast
  then have "api_reach u" using runner_run_steps [OF u] by (meson rtranclp_trans)
  then show "api_reach u \<and> ap_main u = Finished forced r" using runner_run_keeps [OF u] by simp
qed

text \<open>
  C25. In no interleaving does the goroutine that runs the server block on \<open>errCh\<close>, which is empty
  when it sends, so it never leaks; \<open>main\<close> never takes the silent return for a server that stopped
  without a signal, and the fatal exit only for an error of \<open>ListenAndServe\<close>, before any shutdown; a
  finished shutdown is forced exactly when the server was torn down, and reports the server's own
  result or the timeout.
\<close>

theorem api_process_safe:
  assumes "api_reach s"
  shows "(ap_runner s = Serving \<longrightarrow> ap_chan s = None) \<and> ap_main s \<noteq> Stopped \<and>
     (\<forall>e. ap_main s = Failed e \<longrightarrow> ap_http s = Open \<and> (\<exists>err. run_result err = Some e)) \<and>
     (\<forall>forced r. ap_main s = Finished forced r \<longrightarrow>
        ap_signal s \<and> forced = (ap_http s = Torn) \<and> (r = Some exit_timeout \<or> (\<exists>err. r = run_result err)))"
  using api_reach_inv [OF assms] by (auto simp: api_inv_def split: if_splits)

text \<open>
  C12. A signal stops the API: from every state of the process in which the signal has arrived, every
  run, however the server, the timers and \<open>main\<close> interleave, is finite and ends with \<open>main\<close> over:
  the shutdown finished or the server had failed before.
\<close>

theorem signal_stops_api:
  assumes "api_reach s" and "ap_signal s"
  shows "inevitable api_step (\<lambda>s. case ap_main s of Finished forced r \<Rightarrow> True | Failed e \<Rightarrow> True | _ \<Rightarrow> False) s"
proof -
  have "inevitable api_step api_over s"
    by (rule api.inevitableI [where I = "\<lambda>s. api_inv s \<and> ap_signal s"])
       (use api_step_inv signal_stays api_progress api_reach_inv [OF assms(1)] assms(2) in blast)+
  then show ?thesis by (simp add: api_over_def [abs_def])
qed

text \<open>
  C27. \<open>Worker.Run\<close> returns only when asynq's server has returned and has been told to shut down; its
  error is the server's, wrapped, and it returns nil only when its context is done: a server that
  stops by itself without an error leaves \<open>Run\<close> waiting.
\<close>

theorem worker_run_result:
  assumes "run_reach s" and "rp_result s = Some r"
  shows "\<exists>r0. rp_server s = Some r0 \<and> rp_shutdown s \<and> r = map_option (wrap ''run worker server'') r0 \<and>
     (r = None \<longrightarrow> rp_parent_done s)"
  using run_reach_inv [OF assms(1)] assms(2) by (auto simp: run_inv_def group_error_def)

text \<open>
  C28. \<open>Worker.Run\<close> waits for nothing but asynq's server: once its context is done, or that server has
  failed, its own goroutines, however they interleave, come to an end, and then the server has been told
  to shut down and \<open>Run\<close> has returned, with the server's error wrapped, if the server has returned. That the
  server does return is asynq's: \<open>Run\<close> goes on waiting as long as it does not.
\<close>

theorem worker_run_waits_for_server_only:
  assumes "run_reach s" and "rp_parent_done s \<or> (\<exists>e. rp_server s = Some (Some e))"
  shows "inevitable run_own
     (\<lambda>u. rp_shutdown u \<and> rp_result u = map_option (map_option (wrap ''run worker server'')) (rp_server s)) s"
proof -
  let ?I = "\<lambda>u. run_inv u \<and> rp_server u = rp_server s \<and> rp_parent_done u = rp_parent_done s"
  have keep: "?I u'" if "?I u" "run_own u u'" for u u'
    using that run_step_inv [of u u'] by (auto simp: run_own_def)
  have "?I u \<Longrightarrow> \<nexists>u'. run_own u u' \<Longrightarrow> rp_shutdown u \<and> rp_result u = map_option group_error (rp_server s)" for u
    using run_own_progress [of u] assms(2) by simp
  from own.inevitableI [where I = ?I, OF keep this] run_reach_inv [OF assms(1)]
  show ?thesis by (simp add: group_error_def [abs_def])
qed

section \<open>The properties at work\<close>

abbreviation api_signalled :: api_proc where
  "api_signalled \<equiv> api_start\<lparr>ap_signal := True\<rparr>"

lemma api_signalled_reach: "api_reach api_signalled"
  by (intro r_into_rtranclp api_step.signal) (simp add: api_start_def)

theorem api_process_safe_witness:
  "ap_chan api_signalled = None \<and> ap_main api_signalled \<noteq> Stopped"
  using api_process_safe [OF api_signalled_reach] by (simp add: api_start_def)

theorem signal_stops_api_witness:
  "inevitable api_step (\<lambda>s. case ap_main s of Finished forced r \<Rightarrow> True | Failed e \<Rightarrow> True | _ \<Rightarrow> False) api_signalled"
  by (rule signal_stops_api [OF api_signalled_reach]) simp

definition run_over :: run_proc where
  "run_over = \<lparr>rp_server = Some (Some (Foreign ''dial'')), rp_parent_done = False, rp_group_done = True,
     rp_first = group_error (Some (Foreign ''dial'')), rp_shutdown = True,
     rp_result = Some (group_error (Some (Foreign ''dial'')))\<rparr>"

lemma run_over_reach: "run_reach run_over"
proof -
  let ?r = "Some (Foreign ''dial'')"
  define s1 where "s1 = run_start\<lparr>rp_server := Some ?r, rp_first := group_error ?r, rp_group_done := True\<rparr>"
  define s2 where "s2 = s1\<lparr>rp_shutdown := True\<rparr>"
  have "run_step run_start s1"
    using run_step.server_returns [of run_start ?r] by (simp add: s1_def run_start_def)
  moreover have "run_step s1 s2" unfolding s2_def by (rule run_step.watcher) (simp_all add: s1_def run_start_def)
  moreover have "run_step s2 run_over"
    using run_step.wait [of s2] by (simp add: s2_def s1_def run_start_def run_over_def)
  ultimately show ?thesis by (meson converse_rtranclp_into_rtranclp r_into_rtranclp)
qed

theorem worker_run_result_witness:
  "\<exists>r0. rp_server run_over = Some r0 \<and> rp_shutdown run_over \<and>
     group_error (Some (Foreign ''dial'')) = map_option (wrap ''run worker server'') r0"
  using worker_run_result [OF run_over_reach, of "group_error (Some (Foreign ''dial''))"] by (auto simp: run_over_def)

text \<open>The context is done; asynq's server has not returned, or has.\<close>

definition run_done :: "go_error option option \<Rightarrow> run_proc" where
  "run_done r =
     \<lparr>rp_server = r, rp_parent_done = True, rp_group_done = True,
      rp_first = (case r of None \<Rightarrow> None | Some r \<Rightarrow> group_error r), rp_shutdown = False, rp_result = None\<rparr>"

lemma run_done_reach: "run_reach (run_done r)"
proof -
  have 1: "run_step run_start (run_done None)"
    using run_step.parent_done [of run_start] by (simp add: run_done_def run_start_def)
  have "run_step (run_done None) (run_done (Some r))" for r
    using run_step.server_returns [of "run_done None" r] by (simp add: run_done_def)
  with 1 show ?thesis by (cases r) (auto intro: converse_rtranclp_into_rtranclp)
qed

theorem worker_run_waits_for_server_only_witness:
  "inevitable run_own (\<lambda>u. rp_shutdown u \<and> rp_result u = None) (run_done None) \<and>
   inevitable run_own (\<lambda>u. rp_shutdown u \<and> rp_result u = Some None) (run_done (Some None))"
  using worker_run_waits_for_server_only [OF run_done_reach, of None]
    worker_run_waits_for_server_only [OF run_done_reach, of "Some None"] by (simp add: run_done_def)

text \<open>A shutdown that fails, and a server that is not heard of in time.\<close>

theorem interleaved_shutdown_agrees_witness:
  "\<exists>u. api_reach u \<and> ap_main u = Finished True (Some exit_timeout)"
proof -
  define srv :: "api_proc lifecycle_iface" where
    "srv = \<lparr>lc_shutdown = (\<lambda>_ s. (Some (Foreign ''deadline''), s\<lparr>ap_http := Draining\<rparr>)), lc_close = (\<lambda>s. (None, s\<lparr>ap_http := Torn\<rparr>))\<rparr>"
  define recv :: "int \<Rightarrow> api_proc \<Rightarrow> go_error option option \<times> api_proc" where "recv = (\<lambda>_ s. (None, s))"
  have acts: "acts_on_process srv recv" by (auto simp: acts_on_process_def srv_def recv_def took_def)
  have a: "lc_shutdown srv st api_signalled = (Some (Foreign ''deadline''), api_signalled\<lparr>ap_http := Draining\<rparr>)" for st
    by (simp add: srv_def)
  obtain t where t: "shutdown_web_server (\<lambda>_ s. s) srv recv gracefulShutdownTimeout serverExitWaitTimeout api_signalled =
      ((True, Some exit_timeout), t)"
    using shutdown_in_process [OF acts a] by (simp add: recv_def wait_verdict_def)
  have "ap_main api_signalled = Selecting" "ap_signal api_signalled" by (simp_all add: api_start_def)
  with interleaved_shutdown_agrees [of "t\<lparr>ap_main := Finished True (Some exit_timeout)\<rparr>" True "Some exit_timeout"]
    acts t api_signalled_reach show ?thesis by blast
qed

end
