(* ===== verification/LimiterThreads.thy ===== *)
theory LimiterThreads
  imports RateLimit
begin

text \<open>
  The limiter of \<open>internal/middleware/rate_limit.go\<close> under concurrency: any number of goroutines in
  \<open>allow\<close>, the goroutine of \<open>cleanupLoop\<close>, calls of \<open>Stop\<close> and a clock, as a step relation with the
  mutex explicit. \<open>RateLimit\<close> models the operations as atomic; here each is the steps its code takes.
\<close>

section \<open>The steps of the operations\<close>

text \<open>The body of \<open>allow\<close> under the lock: find or make the visitor and stamp it, then ask its bucket.\<close>

definition stamp :: "('l, 'r) rate_lib \<Rightarrow> string \<Rightarrow> int \<Rightarrow> ('l, 'r) ip_rate_limiter \<Rightarrow> ('l, 'r) ip_rate_limiter" where
  "stamp R ip now l =
     (let v = (case rl_visitors l ip of
                 None \<Rightarrow> \<lparr>v_limiter = rate_new R (rl_rate l) (rl_burst l), v_last_seen = 0\<rparr>
               | Some v \<Rightarrow> v)
      in l\<lparr>rl_visitors := (rl_visitors l)(ip \<mapsto> v\<lparr>v_last_seen := now\<rparr>)\<rparr>)"

definition ask ::
    "('l, 'r) rate_lib \<Rightarrow> string \<Rightarrow> int \<Rightarrow> ('l, 'r) ip_rate_limiter \<Rightarrow> bool \<times> ('l, 'r) ip_rate_limiter" where
  "ask R ip now' l =
     (let v = the (rl_visitors l ip) in
      case rate_allow R now' (v_limiter v) of
        (ok, b) \<Rightarrow> (ok, l\<lparr>rl_visitors := (rl_visitors l)(ip \<mapsto> v\<lparr>v_limiter := b\<rparr>)\<rparr>))"

text \<open>One turn of the loop of \<open>cleanup\<close>, for the entry of \<open>ip\<close>.\<close>

definition forget :: "int \<Rightarrow> string \<Rightarrow> ('l, 'r) ip_rate_limiter \<Rightarrow> ('l, 'r) ip_rate_limiter" where
  "forget cutoff ip l =
     (case rl_visitors l ip of
        None \<Rightarrow> l
      | Some v \<Rightarrow> if v_last_seen v < cutoff then l\<lparr>rl_visitors := (rl_visitors l)(ip := None)\<rparr> else l)"

section \<open>The goroutines\<close>

text \<open>
  A request calls \<open>allow\<close>, waits for the lock, has it, has stamped its visitor at a time, has its
  verdict and still the lock, or has returned. The loop sleeps, has a tick with its time (read
  before the lock), is sweeping what is left of the map, or has seen the stop channel closed.
\<close>

datatype req_pc =
    Absent
  | Waiting string
  | Locked string
  | Stamped string int
  | Leaving string bool
  | Done string bool

datatype loop_pc = Sleeping | Woken int | Sweeping int "string set" | Ended

datatype holder = Free | ByRequest nat | ByLoop

text \<open>
  \<open>th_hist\<close> and \<open>th_out\<close> only record: the operations in the order they took effect, and the verdicts
  with the goroutines that got them.
\<close>

record ('l, 'r) threads =
  th_clock :: int
  th_lock :: holder
  th_lim :: "('l, 'r) ip_rate_limiter"
  th_req :: "nat \<Rightarrow> req_pc"
  th_loop :: loop_pc
  th_hist :: "rl_event list"
  th_out :: "(nat \<times> string \<times> bool) list"

definition th_start :: "('l, 'r) ip_rate_limiter \<Rightarrow> int \<Rightarrow> ('l, 'r) threads" where
  "th_start l t0 =
     \<lparr>th_clock = t0, th_lock = Free, th_lim = l, th_req = (\<lambda>_. Absent), th_loop = Sleeping, th_hist = [], th_out = []\<rparr>"

inductive th_step :: "('l, 'r) rate_lib \<Rightarrow> ('l, 'r) threads \<Rightarrow> ('l, 'r) threads \<Rightarrow> bool"
  for R :: "('l, 'r) rate_lib" where
  time: "th_clock s \<le> t \<Longrightarrow> th_step R s (s\<lparr>th_clock := t\<rparr>)"
| call: "th_req s i = Absent \<Longrightarrow> th_step R s (s\<lparr>th_req := (th_req s)(i := Waiting ip)\<rparr>)"
| lock: "th_req s i = Waiting ip \<Longrightarrow> th_lock s = Free \<Longrightarrow>
    th_step R s (s\<lparr>th_lock := ByRequest i, th_req := (th_req s)(i := Locked ip)\<rparr>)"
| stamp: "th_req s i = Locked ip \<Longrightarrow>
    th_step R s (s\<lparr>th_lim := stamp R ip (th_clock s) (th_lim s), th_req := (th_req s)(i := Stamped ip (th_clock s))\<rparr>)"
| ask: "th_req s i = Stamped ip now \<Longrightarrow> ask R ip (th_clock s) (th_lim s) = (ok, l) \<Longrightarrow>
    th_step R s (s\<lparr>th_lim := l, th_req := (th_req s)(i := Leaving ip ok),
                   th_hist := th_hist s @ [Request ip now (th_clock s)], th_out := th_out s @ [(i, ip, ok)]\<rparr>)"
| unlock: "th_req s i = Leaving ip ok \<Longrightarrow>
    th_step R s (s\<lparr>th_lock := Free, th_req := (th_req s)(i := Done ip ok)\<rparr>)"
| wake: "th_loop s = Sleeping \<Longrightarrow> th_step R s (s\<lparr>th_loop := Woken (th_clock s)\<rparr>)"
| loop_lock: "th_loop s = Woken now \<Longrightarrow> th_lock s = Free \<Longrightarrow>
    th_step R s (s\<lparr>th_lock := ByLoop, th_loop := Sweeping now (dom (rl_visitors (th_lim s)))\<rparr>)"
| sweep: "th_loop s = Sweeping now todo \<Longrightarrow> ip \<in> todo \<Longrightarrow>
    th_step R s (s\<lparr>th_lim := forget (now + - 3 * minute) ip (th_lim s), th_loop := Sweeping now (todo - {ip})\<rparr>)"
| loop_unlock: "th_loop s = Sweeping now {} \<Longrightarrow>
    th_step R s (s\<lparr>th_lock := Free, th_loop := Sleeping, th_hist := th_hist s @ [Tick now]\<rparr>)"
| stopping: "th_step R s (s\<lparr>th_lim := the (stop (Some (th_lim s)))\<rparr>)"
| loop_end: "th_loop s = Sleeping \<Longrightarrow> rl_stopped (th_lim s) \<Longrightarrow> th_step R s (s\<lparr>th_loop := Ended\<rparr>)"

inductive_cases th_stepE: "th_step R s s'"

abbreviation th_reach :: "('l, 'r) rate_lib \<Rightarrow> ('l, 'r) ip_rate_limiter \<Rightarrow> int \<Rightarrow> ('l, 'r) threads \<Rightarrow> bool" where
  "th_reach R l t0 \<equiv> (th_step R)\<^sup>*\<^sup>* (th_start l t0)"

section \<open>Sequential runs, one event at a time\<close>

lemma rl_state_snoc [simp]: "rl_state R l (es @ [e]) = rl_state R (rl_state R l es) [e]"
  by (induction R l es rule: rl_state.induct) simp_all

lemma rl_run_snoc [simp]: "rl_run R l (es @ [e]) = rl_run R l es @ rl_run R (rl_state R l es) [e]"
  by (induction R l es rule: rl_run.induct) (simp_all split: prod.split)

text \<open>The clock of a run: where it ends, that it never goes back, and that no request is slow.\<close>

fun clock_end :: "int \<Rightarrow> rl_event list \<Rightarrow> int" where
  "clock_end t0 [] = t0"
| "clock_end t0 (Request ip now now' # es) = clock_end now' es"
| "clock_end t0 (Tick now # es) = clock_end (max t0 now) es"

fun clock_mono :: "int \<Rightarrow> rl_event list \<Rightarrow> bool" where
  "clock_mono t0 [] = True"
| "clock_mono t0 (Request ip now now' # es) = (t0 \<le> now \<and> now \<le> now' \<and> clock_mono now' es)"
| "clock_mono t0 (Tick now # es) = clock_mono (max t0 now) es"

definition prompt :: "rl_event list \<Rightarrow> bool" where
  "prompt es \<longleftrightarrow> (\<forall>ip now now'. Request ip now now' \<in> set es \<longrightarrow> now' \<le> now + 2 * minute)"

lemma clock_ok_mono: "clock_mono t0 es \<Longrightarrow> prompt es \<Longrightarrow> clock_ok t0 es"
  by (induction t0 es rule: clock_mono.induct) (auto simp: prompt_def)

lemma clock_snoc [simp]:
  "clock_mono t0 (es @ [e]) \<longleftrightarrow> clock_mono t0 es \<and> clock_mono (clock_end t0 es) [e]"
  "clock_end t0 (es @ [e]) = clock_end (clock_end t0 es) [e]"
  by (induction t0 es rule: clock_mono.induct) auto

lemma clock_mono_le: "clock_mono t0 es \<Longrightarrow> t0 \<le> clock_end t0 es"
  by (induction t0 es rule: clock_mono.induct) auto

text \<open>The times at which an address's bucket is asked never go back.\<close>

lemma request_times_bounds:
  "clock_mono t0 es \<Longrightarrow> t \<in> set (request_times ip es) \<Longrightarrow> t0 \<le> t"
  by (induction t0 es rule: clock_mono.induct) (auto split: if_splits)

lemma request_times_sorted: "clock_mono t0 es \<Longrightarrow> sorted (request_times ip es)"
  by (induction t0 es rule: clock_mono.induct) (auto dest: request_times_bounds)

section \<open>The steps make up the operations\<close>

lemma ask_stamp: "ask R ip now' (stamp R ip now l) = allow R ip now now' l"
  by (auto simp: ask_def stamp_def allow_def Let_def split: option.split prod.split)

lemma stamp_simps:
  "rl_rate (stamp R ip now l) = rl_rate l" "rl_burst (stamp R ip now l) = rl_burst l"
  "rl_stopped (stamp R ip now l) = rl_stopped l"
  "dom (rl_visitors (stamp R ip now l)) = insert ip (dom (rl_visitors l))"
  by (simp_all add: stamp_def Let_def)

lemma forget_simps:
  "rl_rate (forget c ip l) = rl_rate l" "rl_burst (forget c ip l) = rl_burst l"
  "rl_visitors (forget c ip l) =
     (rl_visitors l)(ip := (case rl_visitors l ip of None \<Rightarrow> None | Some v \<Rightarrow> if v_last_seen v < c then None else Some v))"
  by (auto simp: forget_def fun_eq_iff split: option.split)

lemma stop_simps:
  "rl_visitors (the (stop (Some l))) = rl_visitors l" "rl_rate (the (stop (Some l))) = rl_rate l"
  "rl_burst (the (stop (Some l))) = rl_burst l"
  by (simp_all add: stop_def)

text \<open>Only the visitors and the configuration matter to a request.\<close>

definition same_table :: "('l, 'r) ip_rate_limiter \<Rightarrow> ('l, 'r) ip_rate_limiter \<Rightarrow> bool" where
  "same_table l l' \<longleftrightarrow> rl_visitors l = rl_visitors l' \<and> rl_rate l = rl_rate l' \<and> rl_burst l = rl_burst l'"

lemma same_table_stamp: "same_table l l' \<Longrightarrow> same_table (stamp R ip now l) (stamp R ip now l')"
  by (auto simp: same_table_def stamp_def Let_def split: option.split)

lemma same_table_ask:
  "same_table l l' \<Longrightarrow> fst (ask R ip now l) = fst (ask R ip now l') \<and> same_table (snd (ask R ip now l)) (snd (ask R ip now l'))"
  by (simp add: same_table_def ask_def Let_def split: prod.split)

section \<open>Invariants\<close>

text \<open>The lock is held by whoever is between \<open>Lock\<close> and \<open>Unlock\<close>.\<close>

fun inside :: "req_pc \<Rightarrow> bool" where
  "inside (Locked ip) = True"
| "inside (Stamped ip now) = True"
| "inside (Leaving ip ok) = True"
| "inside _ = False"

fun sweeping :: "loop_pc \<Rightarrow> bool" where
  "sweeping (Sweeping now todo) = True"
| "sweeping _ = False"

definition lock_inv :: "('l, 'r) threads \<Rightarrow> bool" where
  "lock_inv s \<longleftrightarrow> (\<forall>i. inside (th_req s i) \<longleftrightarrow> th_lock s = ByRequest i) \<and> (sweeping (th_loop s) \<longleftrightarrow> th_lock s = ByLoop)"

lemma lock_inv_holder:
  "lock_inv s \<Longrightarrow> th_req s i = Locked ip \<Longrightarrow> th_lock s = ByRequest i"
  "lock_inv s \<Longrightarrow> th_req s i = Stamped ip now \<Longrightarrow> th_lock s = ByRequest i"
  "lock_inv s \<Longrightarrow> th_req s i = Leaving ip ok \<Longrightarrow> th_lock s = ByRequest i"
  "lock_inv s \<Longrightarrow> th_loop s = Sweeping now todo \<Longrightarrow> th_lock s = ByLoop"
  unfolding lock_inv_def by (metis inside.simps sweeping.simps(1))+

lemma lock_inv_inside:
  "lock_inv s \<Longrightarrow> th_lock s = ByRequest i \<Longrightarrow> inside (th_req s i)"
  "lock_inv s \<Longrightarrow> th_lock s = ByLoop \<Longrightarrow> sweeping (th_loop s)"
  by (simp_all add: lock_inv_def)

lemma lock_inv_outside:
  assumes "lock_inv s"
  shows "th_lock s \<noteq> ByRequest i \<Longrightarrow> \<not> inside (th_req s i)" "th_lock s \<noteq> ByLoop \<Longrightarrow> \<not> sweeping (th_loop s)"
  using assms by (simp_all add: lock_inv_def)

lemma lock_inv_frame:
  assumes "lock_inv s" "th_lock s' = th_lock s" "\<And>j. inside (th_req s' j) = inside (th_req s j)"
    "sweeping (th_loop s') = sweeping (th_loop s)"
  shows "lock_inv s'"
  using assms by (simp add: lock_inv_def)

lemma step_lock: "th_step R s s' \<Longrightarrow> lock_inv s \<Longrightarrow> lock_inv s'"
proof (induction rule: th_step.induct)
  case (lock s i ip)
  then have "\<not> inside (th_req s j)" "\<not> sweeping (th_loop s)" for j
    using lock_inv_outside [OF lock.prems] by simp_all
  then show ?case by (simp add: lock_inv_def eq_commute)
next
  case (unlock s i ip ok)
  have "th_lock s = ByRequest i" using lock_inv_holder(3) [OF unlock.prems unlock.hyps] .
  then have "j \<noteq> i \<Longrightarrow> \<not> inside (th_req s j)" "\<not> sweeping (th_loop s)" for j
    using lock_inv_outside [OF unlock.prems] by simp_all
  then show ?case by (simp add: lock_inv_def)
next
  case (loop_lock s now)
  then have "\<not> inside (th_req s j)" for j using lock_inv_outside [OF loop_lock.prems] by simp
  then show ?case by (simp add: lock_inv_def)
next
  case (loop_unlock s now)
  have "th_lock s = ByLoop" using lock_inv_holder(4) [OF loop_unlock.prems loop_unlock.hyps] .
  then have "\<not> inside (th_req s j)" for j using lock_inv_outside [OF loop_unlock.prems] by simp
  then show ?case by (simp add: lock_inv_def)
qed (erule lock_inv_frame; simp)+

text \<open>Time: what has been read lies between the end of the history and the clock.\<close>

definition clock_inv :: "int \<Rightarrow> ('l, 'r) threads \<Rightarrow> bool" where
  "clock_inv t0 s \<longleftrightarrow>
     clock_mono t0 (th_hist s) \<and> clock_end t0 (th_hist s) \<le> th_clock s \<and>
     (\<forall>i ip now. th_req s i = Stamped ip now \<longrightarrow> clock_end t0 (th_hist s) \<le> now \<and> now \<le> th_clock s) \<and>
     (\<forall>now. th_loop s = Woken now \<longrightarrow> now \<le> th_clock s) \<and>
     (\<forall>now todo. th_loop s = Sweeping now todo \<longrightarrow> now \<le> th_clock s)"

lemma clock_invI:
  assumes "clock_mono t0 (th_hist s)" "clock_end t0 (th_hist s) \<le> th_clock s"
    "\<And>i ip now. th_req s i = Stamped ip now \<Longrightarrow> clock_end t0 (th_hist s) \<le> now \<and> now \<le> th_clock s"
    "\<And>now. th_loop s = Woken now \<Longrightarrow> now \<le> th_clock s"
    "\<And>now todo. th_loop s = Sweeping now todo \<Longrightarrow> now \<le> th_clock s"
  shows "clock_inv t0 s"
  using assms by (auto simp: clock_inv_def)

lemma clock_invD:
  assumes "clock_inv t0 s"
  shows "clock_mono t0 (th_hist s)" "clock_end t0 (th_hist s) \<le> th_clock s"
    "th_req s i = Stamped ip now \<Longrightarrow> clock_end t0 (th_hist s) \<le> now \<and> now \<le> th_clock s"
    "th_loop s = Woken now \<Longrightarrow> now \<le> th_clock s"
    "th_loop s = Sweeping now todo \<Longrightarrow> now \<le> th_clock s"
  using assms unfolding clock_inv_def by blast+

lemma step_clock: "th_step R s s' \<Longrightarrow> lock_inv s \<Longrightarrow> clock_inv t0 s \<Longrightarrow> clock_inv t0 s'"
proof (induction rule: th_step.induct)
  case (time s t)
  note D = clock_invD [OF time.prems(2)]
  show ?case using time.hyps D(1,2) by (intro clock_invI) (auto dest!: D(3-5) intro: order_trans)
next
  case (ask s i ip now ok l)
  note D = clock_invD [OF ask.prems(2)]
  have "j = i" if "th_req s j = Stamped ip' now'" for j ip' now'
    using lock_inv_holder(2) [OF ask.prems(1) that] lock_inv_holder(2) [OF ask.prems(1) ask.hyps(1)] by simp
  then show ?case using D(1,2) D(3) [OF ask.hyps(1)]
    by (intro clock_invI) (auto dest!: D(4,5) split: if_splits)
next
  case (loop_unlock s now)
  note D = clock_invD [OF loop_unlock.prems(2)]
  have "th_req s j \<noteq> Stamped ip' now'" for j ip' now'
    using lock_inv_holder(2) [OF loop_unlock.prems(1), of j] lock_inv_holder(4) [OF loop_unlock.prems(1) loop_unlock.hyps] by fastforce
  then show ?case using D(1,2) D(5) [OF loop_unlock.hyps] by (intro clock_invI) auto
next
  case (stamp s i ip)
  note D = clock_invD [OF stamp.prems(2)]
  show ?case using D(1,2) by (intro clock_invI) (auto dest!: D(3-5) split: if_splits)
next
  case (loop_lock s now)
  note D = clock_invD [OF loop_lock.prems(2)]
  show ?case using D(1,2) D(4) [OF loop_lock.hyps(1)] by (intro clock_invI) (auto dest!: D(3))
next
  case (sweep s now todo ip)
  note D = clock_invD [OF sweep.prems(2)]
  show ?case using D(1,2) D(5) [OF sweep.hyps(1)] by (intro clock_invI) (auto dest!: D(3))
qed (rule clock_invI; auto dest: clock_invD split: if_splits)+

text \<open>
  The table: that of the history, with what the holder of the lock has already done to it.
\<close>

definition th_table :: "('l, 'r) rate_lib \<Rightarrow> ('l, 'r) ip_rate_limiter \<Rightarrow> ('l, 'r) threads \<Rightarrow> ('l, 'r) ip_rate_limiter" where
  "th_table R l0 s =
     (let l = rl_state R l0 (th_hist s) in
      case th_lock s of
        Free \<Rightarrow> l
      | ByRequest i \<Rightarrow> (case th_req s i of Stamped ip now \<Rightarrow> stamp R ip now l | _ \<Rightarrow> l)
      | ByLoop \<Rightarrow>
          (case th_loop s of
             Sweeping now todo \<Rightarrow>
               l\<lparr>rl_visitors := (\<lambda>ip. if ip \<in> todo then rl_visitors l ip else rl_visitors (cleanup_tick now l) ip)\<rparr>
           | _ \<Rightarrow> l))"

definition table_inv :: "('l, 'r) rate_lib \<Rightarrow> ('l, 'r) ip_rate_limiter \<Rightarrow> ('l, 'r) threads \<Rightarrow> bool" where
  "table_inv R l0 s \<longleftrightarrow> same_table (th_lim s) (th_table R l0 s)"

lemma same_table_sweep:
  assumes "same_table lim (l\<lparr>rl_visitors := (\<lambda>ip. if ip \<in> todo then rl_visitors l ip else rl_visitors (cleanup_tick now l) ip)\<rparr>)"
    and "ip \<in> todo"
  shows "same_table (forget (now + - 3 * minute) ip lim)
     (l\<lparr>rl_visitors := (\<lambda>ip'. if ip' \<in> todo - {ip} then rl_visitors l ip' else rl_visitors (cleanup_tick now l) ip')\<rparr>)"
  using assms by (simp add: same_table_def forget_simps fun_eq_iff cleanup_tick_visitor split: option.split)

text \<open>Steps of the others leave what the holder sees alone.\<close>

lemma table_inv_frame:
  assumes "table_inv R l0 s" and "th_lim s' = th_lim s" and "th_hist s' = th_hist s" and "th_lock s' = th_lock s"
    and "\<And>i. th_lock s = ByRequest i \<Longrightarrow> th_req s' i = th_req s i" and "th_lock s = ByLoop \<Longrightarrow> th_loop s' = th_loop s"
  shows "table_inv R l0 s'"
  using assms by (cases "th_lock s") (simp_all add: table_inv_def th_table_def Let_def)

lemma stamped_ask:
  assumes "lock_inv s" and "table_inv R l0 s" and "th_req s i = Stamped ip now" and "ask R ip (th_clock s) (th_lim s) = (ok, l)"
  shows "fst (allow R ip now (th_clock s) (rl_state R l0 (th_hist s))) = ok"
    and "same_table l (snd (allow R ip now (th_clock s) (rl_state R l0 (th_hist s))))"
proof -
  have "same_table (th_lim s) (stamp R ip now (rl_state R l0 (th_hist s)))"
    using assms(2,3) lock_inv_holder(2) [OF assms(1,3)] by (simp add: table_inv_def th_table_def)
  from same_table_ask [OF this, of R ip "th_clock s"] assms(4)
  show "fst (allow R ip now (th_clock s) (rl_state R l0 (th_hist s))) = ok"
    "same_table l (snd (allow R ip now (th_clock s) (rl_state R l0 (th_hist s))))"
    by (simp_all add: ask_stamp)
qed

lemma step_table: "th_step R s s' \<Longrightarrow> lock_inv s \<Longrightarrow> table_inv R l0 s \<Longrightarrow> table_inv R l0 s'"
proof (induction rule: th_step.induct)
  case (call s i ip)
  then show ?case
    by (intro table_inv_frame [OF call.prems(2)]) (auto dest: lock_inv_inside)
next
  case (stamp s i ip)
  then show ?case using lock_inv_holder(1) [OF stamp.prems(1) stamp.hyps]
    by (auto simp: table_inv_def th_table_def intro: same_table_stamp)
next
  case (ask s i ip now ok l)
  then show ?case using lock_inv_holder(2) [OF ask.prems(1) ask.hyps(1)]
      stamped_ask(2) [OF ask.prems ask.hyps]
    by (simp add: table_inv_def th_table_def)
next
  case (unlock s i ip ok)
  then show ?case using lock_inv_holder(3) [OF unlock.prems(1) unlock.hyps] by (simp add: table_inv_def th_table_def)
next
  case (wake s)
  then show ?case
    by (intro table_inv_frame [OF wake.prems(2)]) (auto dest: lock_inv_inside)
next
  case (loop_lock s now)
  have "(\<lambda>ip. if ip \<in> dom (rl_visitors k) then rl_visitors k ip else rl_visitors (cleanup_tick now k) ip) = rl_visitors k"
    for k :: "('a, 'b) ip_rate_limiter"
    by (auto simp: cleanup_tick_visitor fun_eq_iff split: option.split)
  with loop_lock show ?case by (simp add: table_inv_def th_table_def same_table_def Let_def)
next
  case (sweep s now todo ip)
  then show ?case using lock_inv_holder(4) [OF sweep.prems(1) sweep.hyps(1)] same_table_sweep [where todo = todo and now = now and ip = ip]
    by (simp add: table_inv_def th_table_def Let_def)
next
  case (loop_unlock s now)
  then show ?case using lock_inv_holder(4) [OF loop_unlock.prems(1) loop_unlock.hyps]
    by (simp add: table_inv_def th_table_def same_table_def Let_def)
next
  case (stopping s)
  have "th_table R l0 (s\<lparr>th_lim := l\<rparr>) = th_table R l0 s" for l
    by (cases "th_lock s") (simp_all add: th_table_def Let_def)
  then show ?case using stopping(2) by (simp add: table_inv_def same_table_def stop_simps)
next
  case (loop_end s)
  then show ?case
    by (intro table_inv_frame [OF loop_end.prems(2)]) (auto dest: lock_inv_inside)
next
  case (time s t)
  then show ?case by (intro table_inv_frame [OF time.prems(2)]) simp_all
next
  case (lock s i ip)
  then show ?case by (simp add: table_inv_def th_table_def Let_def)
qed

text \<open>The verdicts: those of the history, one for every request that has got its own.\<close>

definition out_inv :: "('l, 'r) rate_lib \<Rightarrow> ('l, 'r) ip_rate_limiter \<Rightarrow> ('l, 'r) threads \<Rightarrow> bool" where
  "out_inv R l0 s \<longleftrightarrow>
     map snd (th_out s) = rl_run R l0 (th_hist s) \<and> distinct (map fst (th_out s)) \<and>
     (\<forall>i ip ok. (i, ip, ok) \<in> set (th_out s) \<longleftrightarrow> th_req s i = Leaving ip ok \<or> th_req s i = Done ip ok)"

lemma step_out: "th_step R s s' \<Longrightarrow> lock_inv s \<Longrightarrow> table_inv R l0 s \<Longrightarrow> out_inv R l0 s \<Longrightarrow> out_inv R l0 s'"
proof (induction rule: th_step.induct)
  case (ask s i ip now ok l)
  have "i \<notin> fst ` set (th_out s)" using ask.prems(3) ask.hyps(1) by (force simp: out_inv_def)
  then show ?case using ask.prems(3) ask.hyps(1) stamped_ask(1) [OF ask.prems(1,2) ask.hyps]
    by (auto simp: out_inv_def split: prod.split)
qed (auto simp: out_inv_def)

definition finite_inv :: "('l, 'r) threads \<Rightarrow> bool" where
  "finite_inv s \<longleftrightarrow> finite (dom (rl_visitors (th_lim s))) \<and> (\<forall>now todo. th_loop s = Sweeping now todo \<longrightarrow> finite todo)"

lemma ask_dom: "ask R ip now l = (ok, l') \<Longrightarrow> dom (rl_visitors l') = insert ip (dom (rl_visitors l))"
  by (auto simp: ask_def Let_def split: prod.splits)

lemma forget_dom: "dom (rl_visitors (forget c ip l)) \<subseteq> dom (rl_visitors l)"
  by (auto simp: forget_simps split: option.splits if_splits)

lemma step_finite: "th_step R s s' \<Longrightarrow> finite_inv s \<Longrightarrow> finite_inv s'"
proof (induction rule: th_step.induct)
  case (sweep s now todo ip)
  then show ?case using forget_dom [of "now + - 3 * minute" ip "th_lim s"]
    by (auto simp: finite_inv_def intro: finite_subset)
qed (auto simp: finite_inv_def stamp_simps stop_simps ask_dom)

definition th_inv :: "('l, 'r) rate_lib \<Rightarrow> ('l, 'r) ip_rate_limiter \<Rightarrow> int \<Rightarrow> ('l, 'r) threads \<Rightarrow> bool" where
  "th_inv R l0 t0 s \<longleftrightarrow> lock_inv s \<and> clock_inv t0 s \<and> table_inv R l0 s \<and> out_inv R l0 s \<and> finite_inv s"

lemma step_inv: "th_step R s s' \<Longrightarrow> th_inv R l0 t0 s \<Longrightarrow> th_inv R l0 t0 s'"
  using step_lock step_clock step_table step_out step_finite unfolding th_inv_def by blast

lemma reach_inv:
  assumes "new_ip_rate_limiter_per_minute R n = Some l" and "th_reach R l t0 s"
  shows "th_inv R l t0 s"
  using assms(2)
proof (induction rule: rtranclp_induct)
  case base
  have "rl_visitors l = Map.empty" using assms(1) by (auto simp: new_ip_rate_limiter_per_minute_def split: if_splits)
  then show ?case
    by (simp add: th_inv_def th_start_def lock_inv_def clock_inv_def table_inv_def th_table_def same_table_def out_inv_def
        finite_inv_def)
qed (rule step_inv)

section \<open>Whoever holds the lock can finish\<close>

abbreviation th_steps :: "('l, 'r) rate_lib \<Rightarrow> ('l, 'r) threads \<Rightarrow> ('l, 'r) threads \<Rightarrow> bool" where
  "th_steps R \<equiv> (th_step R)\<^sup>*\<^sup>*"

lemma leaving_done: "th_req s i = Leaving ip ok \<Longrightarrow>
   \<exists>s'. th_steps R s s' \<and> th_lock s' = Free \<and> th_req s' = (th_req s)(i := Done ip ok) \<and> th_loop s' = th_loop s"
  by (rule exI, rule conjI, rule r_into_rtranclp, erule th_step.unlock) simp

lemma stamped_done:
  assumes "th_req s i = Stamped ip now"
  shows "\<exists>s' ok. th_steps R s s' \<and> th_lock s' = Free \<and> th_req s' = (th_req s)(i := Done ip ok) \<and> th_loop s' = th_loop s"
proof -
  obtain ok l where a: "ask R ip (th_clock s) (th_lim s) = (ok, l)" by fastforce
  define s1 where "s1 = s\<lparr>th_lim := l, th_req := (th_req s)(i := Leaving ip ok),
      th_hist := th_hist s @ [Request ip now (th_clock s)], th_out := th_out s @ [(i, ip, ok)]\<rparr>"
  have "th_step R s s1" unfolding s1_def by (rule th_step.ask [OF assms a])
  moreover obtain s2 where "th_steps R s1 s2" "th_lock s2 = Free" "th_req s2 = (th_req s1)(i := Done ip ok)" "th_loop s2 = th_loop s1"
    using leaving_done [of s1 i ip ok] by (auto simp: s1_def)
  ultimately show ?thesis
    by (intro exI [of _ s2] exI [of _ ok]) (auto simp: s1_def intro: converse_rtranclp_into_rtranclp)
qed

lemma locked_done:
  assumes "th_req s i = Locked ip"
  shows "\<exists>s' ok. th_steps R s s' \<and> th_lock s' = Free \<and> th_req s' = (th_req s)(i := Done ip ok) \<and> th_loop s' = th_loop s"
proof -
  define s1 where "s1 = s\<lparr>th_lim := stamp R ip (th_clock s) (th_lim s), th_req := (th_req s)(i := Stamped ip (th_clock s))\<rparr>"
  have "th_step R s s1" unfolding s1_def by (rule th_step.stamp [OF assms])
  moreover obtain s2 ok where "th_steps R s1 s2" "th_lock s2 = Free" "th_req s2 = (th_req s1)(i := Done ip ok)" "th_loop s2 = th_loop s1"
    using stamped_done [of s1 i ip "th_clock s" R] by (auto simp: s1_def)
  ultimately show ?thesis
    by (intro exI [of _ s2] exI [of _ ok]) (auto simp: s1_def intro: converse_rtranclp_into_rtranclp)
qed

lemma sweep_done:
  assumes "finite todo" and "th_loop s = Sweeping now todo"
  shows "\<exists>s'. th_steps R s s' \<and> th_lock s' = Free \<and> th_req s' = th_req s \<and> th_loop s' = Sleeping"
  using assms
proof (induction todo arbitrary: s rule: finite_induct)
  case empty
  have "th_step R s (s\<lparr>th_lock := Free, th_loop := Sleeping, th_hist := th_hist s @ [Tick now]\<rparr>)"
    by (rule th_step.loop_unlock [OF empty.prems])
  then show ?case by (intro exI conjI) (rule r_into_rtranclp, assumption, simp_all)
next
  case (insert ip todo)
  define s1 where "s1 = s\<lparr>th_lim := forget (now + - 3 * minute) ip (th_lim s), th_loop := Sweeping now todo\<rparr>"
  have "th_step R s s1"
    using th_step.sweep [OF insert.prems, of ip R] insert.hyps by (simp add: s1_def)
  moreover obtain s2 where "th_steps R s1 s2" "th_lock s2 = Free" "th_req s2 = th_req s1" "th_loop s2 = Sleeping"
    using insert.IH [of s1] by (auto simp: s1_def)
  ultimately show ?case
    by (intro exI [of _ s2]) (auto simp: s1_def intro: converse_rtranclp_into_rtranclp)
qed

text \<open>The lock can always be given back, by its holder, without a step of the requests that wait.\<close>

lemma lock_can_be_free:
  assumes "lock_inv s" and "finite_inv s"
  obtains s' where "th_steps R s s'" "th_lock s' = Free"
    "\<And>i. \<not> inside (th_req s i) \<Longrightarrow> th_req s' i = th_req s i" "\<not> sweeping (th_loop s) \<Longrightarrow> th_loop s' = th_loop s"
    "sweeping (th_loop s) \<Longrightarrow> th_loop s' = Sleeping"
proof (cases "th_lock s")
  case Free
  then show ?thesis using that [of s] assms by (auto simp: lock_inv_def)
next
  case (ByRequest j)
  have h: "inside (th_req s j)" "\<not> sweeping (th_loop s)" using assms(1) ByRequest by (auto simp: lock_inv_def)
  have "\<exists>s' ip ok. th_steps R s s' \<and> th_lock s' = Free \<and> th_req s' = (th_req s)(j := Done ip ok) \<and> th_loop s' = th_loop s"
    using h(1) locked_done [of s j _ R] stamped_done [of s j _ _ R] leaving_done [of s j _ _ R]
    by (cases "th_req s j") auto
  then obtain s' ip ok where s': "th_steps R s s'" "th_lock s' = Free" "th_req s' = (th_req s)(j := Done ip ok)" "th_loop s' = th_loop s"
    by blast
  have "th_req s' i = th_req s i" if "\<not> inside (th_req s i)" for i using h(1) s'(3) that by auto
  then show ?thesis using that [of s'] s'(1,2,4) h(2) by blast
next
  case ByLoop
  then obtain now todo where l: "th_loop s = Sweeping now todo"
    using assms(1) lock_inv_inside(2) by (metis sweeping.elims(2))
  then have "finite todo" using assms(2) by (simp add: finite_inv_def)
  from sweep_done [OF this l, of R] obtain s' where
    "th_steps R s s'" "th_lock s' = Free" "th_req s' = th_req s" "th_loop s' = Sleeping" by blast
  then show ?thesis using that [of s'] l by simp
qed

lemma waiting_can_finish:
  assumes "lock_inv s" and "finite_inv s" and "th_req s i = Waiting ip"
  shows "\<exists>s' ok. th_steps R s s' \<and> th_req s' i = Done ip ok"
proof -
  obtain s1 where s1: "th_steps R s s1" "th_lock s1 = Free" "th_req s1 i = Waiting ip"
    by (rule lock_can_be_free [OF assms(1,2), of R]) (use assms(3) in auto)
  define s2 where "s2 = s1\<lparr>th_lock := ByRequest i, th_req := (th_req s1)(i := Locked ip)\<rparr>"
  have "th_step R s1 s2" unfolding s2_def by (rule th_step.lock [OF s1(3,2)])
  moreover obtain s3 ok where "th_steps R s2 s3" "th_req s3 i = Done ip ok"
    using locked_done [of s2 i ip R] by (auto simp: s2_def)
  ultimately show ?thesis using s1(1) by (meson rtranclp.rtrancl_into_rtrancl rtranclp_trans)
qed

lemma stays_stopped: "th_step R s s' \<Longrightarrow> rl_stopped (th_lim s) \<Longrightarrow> rl_stopped (th_lim s')"
  by (erule th_stepE) (auto simp: stamp_simps ask_def forget_def stop_def Let_def split: prod.splits option.split)

lemma stays_stopped_run: "th_steps R s s' \<Longrightarrow> rl_stopped (th_lim s) \<Longrightarrow> rl_stopped (th_lim s')"
  by (induction rule: rtranclp_induct) (auto dest: stays_stopped)

lemma sleeping_can_end:
  assumes "th_loop s = Sleeping" and "rl_stopped (th_lim s)"
  shows "\<exists>s'. th_steps R s s' \<and> th_loop s' = Ended"
  using th_step.loop_end [OF assms, of R] by (intro exI conjI) (rule r_into_rtranclp, assumption, simp)

lemma loop_can_end:
  assumes "lock_inv s" and "finite_inv s" and st: "rl_stopped (th_lim s)"
  shows "\<exists>s'. th_steps R s s' \<and> th_loop s' = Ended"
proof -
  have sleeping: "\<exists>s'. th_steps R s s' \<and> th_loop s' = Ended" if "th_steps R s s1" "th_loop s1 = Sleeping" for s1
    using sleeping_can_end [OF that(2) stays_stopped_run [OF that(1) st], of R] that(1) by (meson rtranclp_trans)
  obtain s1 where s1: "th_steps R s s1" "th_lock s1 = Free" "sweeping (th_loop s) \<Longrightarrow> th_loop s1 = Sleeping"
     "\<not> sweeping (th_loop s) \<Longrightarrow> th_loop s1 = th_loop s"
    by (rule lock_can_be_free [OF assms(1,2), of R]) auto
  show ?thesis
  proof (cases "th_loop s")
    case Ended
    then show ?thesis by blast
  next
    case Sleeping
    then show ?thesis using sleeping [of s] by simp
  next
    case (Sweeping now todo)
    then show ?thesis using sleeping s1(1,3) by simp
  next
    case (Woken now)
    then have l: "th_loop s1 = Woken now" using s1(4) by simp
    define s2 where "s2 = s1\<lparr>th_lock := ByLoop, th_loop := Sweeping now (dom (rl_visitors (th_lim s1)))\<rparr>"
    have step: "th_step R s1 s2" unfolding s2_def by (rule th_step.loop_lock [OF l s1(2)])
    have r2: "th_steps R s s2" using s1(1) step by (rule rtranclp.rtrancl_into_rtrancl)
    have "finite_inv s2" using r2 assms(2) by (induction rule: rtranclp_induct) (auto dest: step_finite)
    then have "finite (dom (rl_visitors (th_lim s1)))" by (simp add: finite_inv_def s2_def)
    from sweep_done [OF this, of s2 now R] obtain s3 where "th_steps R s2 s3" "th_loop s3 = Sleeping"
      by (auto simp: s2_def)
    then show ?thesis using sleeping r2 by (meson rtranclp_trans)
  qed
qed

section \<open>Properties\<close>

text \<open>
  C7. The limiter is linearizable: whatever the interleaving of requests, of the cleanup with its loop over
  the map, of \<open>Stop\<close> and of the clock, the verdicts given so far are those of a sequential run of
  the operations in the order they took effect, each request in it once; each address got the
  verdicts of one bucket of its own, asked at times that never go back; and a request that has
  returned has returned its verdict of that run. Under what the rate library promises, and when no
  request holds the lock for two minutes.
\<close>

theorem requests_linearize:
  assumes "rate_ok R n" and "new_ip_rate_limiter_per_minute R n = Some l" and "th_reach R l t0 s" and "prompt (th_hist s)"
  shows "map snd (th_out s) = rl_run R l (th_hist s) \<and> distinct (map fst (th_out s)) \<and>
     verdicts ip (map snd (th_out s)) =
       bucket_run R (rate_new R (rate_every R (minute div n)) n) (request_times ip (th_hist s)) \<and>
     sorted (request_times ip (th_hist s)) \<and>
     (\<forall>i v. th_req s i = Done ip v \<longrightarrow> (i, ip, v) \<in> set (th_out s))"
proof -
  have inv: "clock_mono t0 (th_hist s)" "out_inv R l s"
    using reach_inv [OF assms(2,3)] by (auto simp: th_inv_def clock_inv_def)
  have "verdicts ip (rl_run R l (th_hist s)) =
      bucket_run R (rate_new R (rate_every R (minute div n)) n) (request_times ip (th_hist s))"
    by (rule limiter_refines_buckets [OF assms(1,2) clock_ok_mono [OF inv(1) assms(4)]])
  then show ?thesis using inv(2) request_times_sorted [OF inv(1)] by (simp add: out_inv_def)
qed

text \<open>
  C14. The mutex excludes and never blocks for good: in every reachable state at most one goroutine is
  between \<open>Lock\<close> and \<open>Unlock\<close>; a request that waits can get its verdict by steps of the goroutines
  alone, and once \<open>Stop\<close> was called the cleanup goroutine can end, so it is not leaked.
\<close>

theorem lock_excludes_and_frees:
  assumes "new_ip_rate_limiter_per_minute R n = Some l" and "th_reach R l t0 s"
  shows "(inside (th_req s i) \<longrightarrow> (inside (th_req s j) \<longrightarrow> i = j) \<and> \<not> sweeping (th_loop s)) \<and>
     (th_req s i = Waiting ip \<longrightarrow> (\<exists>s' ok. th_steps R s s' \<and> th_req s' i = Done ip ok)) \<and>
     (rl_stopped (th_lim s) \<longrightarrow> (\<exists>s'. th_steps R s s' \<and> th_loop s' = Ended))"
proof -
  have inv: "lock_inv s" "finite_inv s" using reach_inv [OF assms] by (auto simp: th_inv_def)
  then show ?thesis using waiting_can_finish [OF inv] loop_can_end [OF inv] by (auto simp: lock_inv_def)
qed

section \<open>The properties at work\<close>

lemma sample_thread:
  assumes "new_ip_rate_limiter_per_minute R n = Some l"
  obtains s where "th_reach R l 0 s" "th_hist s = [Request ''a'' 0 0]" "th_req s 0 = Done ''a'' (fst (allow R ''a'' 0 0 l))"
    "th_req s 1 = Waiting ''b''"
proof -
  define s1 where "s1 = (th_start l 0)\<lparr>th_req := (\<lambda>_. Absent)(0 := Waiting ''a'')\<rparr>"
  define s2 where "s2 = s1\<lparr>th_req := (th_req s1)(1 := Waiting ''b'')\<rparr>"
  define s3 where "s3 = s2\<lparr>th_lock := ByRequest 0, th_req := (th_req s2)(0 := Locked ''a'')\<rparr>"
  define s4 where "s4 = s3\<lparr>th_lim := stamp R ''a'' (th_clock s3) (th_lim s3), th_req := (th_req s3)(0 := Stamped ''a'' (th_clock s3))\<rparr>"
  define ok where "ok = fst (ask R ''a'' (th_clock s4) (th_lim s4))"
  define s5 where "s5 = s4\<lparr>th_lim := snd (ask R ''a'' (th_clock s4) (th_lim s4)), th_req := (th_req s4)(0 := Leaving ''a'' ok),
      th_hist := th_hist s4 @ [Request ''a'' 0 (th_clock s4)], th_out := th_out s4 @ [(0, ''a'', ok)]\<rparr>"
  define s6 where "s6 = s5\<lparr>th_lock := Free, th_req := (th_req s5)(0 := Done ''a'' ok)\<rparr>"
  note defs = s6_def s5_def s4_def s3_def s2_def s1_def th_start_def
  have "th_step R (th_start l 0) s1" using th_step.call [of "th_start l 0" 0 R "''a''"] by (simp add: defs)
  moreover have "th_step R s1 s2" unfolding s2_def by (rule th_step.call) (simp add: defs)
  moreover have "th_step R s2 s3" unfolding s3_def by (rule th_step.lock) (simp_all add: defs)
  moreover have "th_step R s3 s4" unfolding s4_def by (rule th_step.stamp) (simp add: defs)
  moreover have "th_step R s4 s5" unfolding s5_def by (rule th_step.ask) (simp_all add: defs ok_def)
  moreover have "th_step R s5 s6" unfolding s6_def by (rule th_step.unlock) (simp add: defs)
  ultimately have "th_reach R l 0 s6" by (meson rtranclp.rtrancl_into_rtrancl rtranclp.rtrancl_refl)
  moreover have "ok = fst (allow R ''a'' 0 0 l)" by (simp add: ok_def s4_def s3_def s2_def s1_def th_start_def ask_stamp)
  ultimately show ?thesis using that [of s6] by (simp add: defs)
qed

theorem requests_linearize_witness:
  "\<exists>l s. new_ip_rate_limiter_per_minute sample_rate 2 = Some l \<and> th_reach sample_rate l 0 s \<and>
     (0, ''a'', True) \<in> set (th_out s)"
proof -
  define l where "l = the (new_ip_rate_limiter_per_minute sample_rate 2)"
  have l: "new_ip_rate_limiter_per_minute sample_rate 2 = Some l"
    by (simp add: l_def new_ip_rate_limiter_per_minute_def)
  have ok: "fst (allow sample_rate ''a'' 0 0 l)" unfolding l_def by code_simp
  obtain s where s: "th_reach sample_rate l 0 s" "th_hist s = [Request ''a'' 0 0]"
      "th_req s 0 = Done ''a'' (fst (allow sample_rate ''a'' 0 0 l))"
    by (rule sample_thread [OF l]) (rule that)
  have p: "prompt (th_hist s)" by (simp add: s(2) prompt_def minute_def second_def)
  from requests_linearize [OF sample_rate_ok l s(1) p, of "''a''"] l s ok show ?thesis by auto
qed

theorem lock_excludes_and_frees_witness:
  "\<exists>l s s' ok. new_ip_rate_limiter_per_minute sample_rate 2 = Some l \<and> th_reach sample_rate l 0 s \<and>
     th_steps sample_rate s s' \<and> th_req s' 1 = Done ''b'' ok"
proof -
  define l where "l = the (new_ip_rate_limiter_per_minute sample_rate 2)"
  have l: "new_ip_rate_limiter_per_minute sample_rate 2 = Some l"
    by (simp add: l_def new_ip_rate_limiter_per_minute_def)
  obtain s where s: "th_reach sample_rate l 0 s" "th_req s 1 = Waiting ''b''"
    by (rule sample_thread [OF l]) (rule that)
  from lock_excludes_and_frees [OF l s(1), of 1 1 "''b''"] l s show ?thesis by blast
qed

end
