(* ===== verification/Startup.thy ===== *)
theory Startup
  imports Lifecycle
begin

text \<open>
  From the configuration to the assembled process: what \<open>bootstrap\<close> hands over is what
  \<open>NewServer\<close> (\<open>internal/server.go\<close>) and \<open>NewWorker\<close> (\<open>internal/worker.go\<close>) ask for, so their
  checks of the registry never fail in the two programs.
\<close>

definition route_names :: "('c, 'w, 'l, 'r) engine \<Rightarrow> (string \<times> string) list" where
  "route_names e = map (\<lambda>r. (rt_method r, rt_path r)) (en_routes e)"

section \<open>Lemmas\<close>

lemma valid_registry:
  "reg_cfg reg = Some cfg \<Longrightarrow> dm_db (reg_db reg) \<noteq> None \<Longrightarrow> validate_http_registry (Some reg) = None"
  by (cases "reg_db reg") (simp_all add: validate_http_registry_def dm_db_def)

lemma engine_route_names:
  assumes "new_engine X p reg cfg (new_http_handlers X reg) rl = Inr e"
  shows "route_names e =
     [(''GET'', ''/health'')] @
     (if reg_auth reg = None then [] else [(''POST'', ''/api/v1/auth/token''), (''GET'', ''/api/v1/auth/me'')]) @
     [(''GET'', ''/api/v1/examples''), (''POST'', ''/api/v1/examples''), (''POST'', ''/api/v1/examples/tasks'')]"
  using engine_routes [OF assms]
  by (simp add: route_names_def register_routes_def register_auth_routes_def register_example_routes_def Let_def
      new_http_handlers_def new_auth_handler_def)

lemma new_engine_result:
  "case p (srv_trusted_proxies (cfg_server cfg)) of
     Some err \<Rightarrow> new_engine X p reg cfg hs rl = Inl (wrap ''set trusted proxies'' err)
   | None \<Rightarrow> \<exists>e. new_engine X p reg cfg hs rl = Inr e"
  by (simp add: new_engine_def Let_def split: option.split)

lemma limiter_configured: "0 < n \<Longrightarrow> new_ip_rate_limiter_per_minute R n \<noteq> None"
  by (simp add: new_ip_rate_limiter_per_minute_def)

lemma register_handlers_some: "\<exists>m. register_handlers M A d (Some fresh) = Some m"
  by (simp add: register_handlers_def register_trace_middleware_def Let_def)

section \<open>Properties\<close>

text \<open>
  C15. Once \<open>InitAPI\<close> has succeeded, \<open>NewServer\<close> fails only when Gin refuses the trusted proxies; the
  server it makes listens on the configured address, limits requests exactly when a positive budget
  is configured, and serves the health and example routes always, the two authentication routes
  exactly when a secret is configured; its queue is usable exactly when a Redis address is.
\<close>

theorem api_assembled:
  assumes "init_api (lib_db X) (lib_redis X) (lib_asynq X) (Some cfg) s = (Inr reg, s')"
  shows "case trusted (srv_trusted_proxies (cfg_server cfg)) of
     Some err \<Rightarrow> new_server X trusted (Some reg) = Inl (wrap ''set trusted proxies'' err)
   | None \<Rightarrow>
       \<exists>sv. new_server X trusted (Some reg) = Inr sv \<and>
         sv_http sv = Some \<lparr>hv_addr = srv_port (cfg_server cfg), hv_read_header_timeout = srv_request_timeout (cfg_server cfg)\<rparr> \<and>
         (sv_rate_limiter sv \<noteq> None) = (0 < rl_requests_per_minute (cfg_rate_limit cfg)) \<and>
         route_names (sv_engine sv) =
           [(''GET'', ''/health'')] @
           (if trim_space (auth_jwt_secret (cfg_auth cfg)) = [] then []
            else [(''POST'', ''/api/v1/auth/token''), (''GET'', ''/api/v1/auth/me'')]) @
           [(''GET'', ''/api/v1/examples''), (''POST'', ''/api/v1/examples''), (''POST'', ''/api/v1/examples/tasks'')] \<and>
         available (reg_queue reg) = (trim_space (rds_addr (cfg_redis cfg)) \<noteq> [])"
proof -
  let ?rpm = "rl_requests_per_minute (cfg_rate_limit cfg)" and ?p = "trusted (srv_trusted_proxies (cfg_server cfg))"
  define rl where "rl = (if 0 < ?rpm then new_ip_rate_limiter_per_minute (lib_rate X) ?rpm else None)"
  note init = init_api_consistent [OF assms]
  have reg: "reg_cfg reg = Some cfg" "dm_db (reg_db reg) \<noteq> None" using init by blast+
  have "new_server X trusted (Some reg) =
      (case new_engine X trusted reg cfg (new_http_handlers X reg) rl of
         Inl err \<Rightarrow> Inl err
       | Inr e \<Rightarrow> Inr \<lparr>sv_engine = e, sv_http = Some (new_http_server cfg), sv_rate_limiter = rl\<rparr>)"
    using valid_registry [OF reg] by (simp add: new_server_def reg(1) Let_def rl_def split: sum.split)
  then show ?thesis
    using new_engine_result [of X trusted reg cfg "new_http_handlers X reg" rl] engine_route_names [of X trusted reg cfg rl]
      init limiter_configured [of ?rpm "lib_rate X"]
    by (cases ?p) (auto simp: new_http_server_def rl_def)
qed

text \<open>
  C16. Once \<open>InitWorker\<close> has succeeded, \<open>NewWorker\<close> succeeds: its task server reads the queue's own
  Redis database, and \<open>Run\<close> starts it, never refusing for a part that is missing.
\<close>

theorem worker_assembled:
  assumes "init_worker D L Q (Some cfg) s = (Inr reg, s')"
  shows "\<exists>wk ac. new_worker M A mux (Some reg) = Inr wk \<and>
     wk_server wk = Some (\<lparr>ro_addr = rds_addr (cfg_redis cfg), ro_password = rds_password (cfg_redis cfg),
                          ro_db = rds_queue_db (cfg_redis cfg)\<rparr>, ac) \<and>
     worker_run (Some wk) run = run"
proof -
  note init = init_worker_consistent [OF assms]
  then have "validate_worker_registry (Some reg) = None"
    by (cases "rds_addr (cfg_redis cfg)") (simp_all add: validate_worker_registry_def)
  then obtain wk where wk: "new_worker M A mux (Some reg) = Inr wk"
      "wk_server wk = Some (new_server_config A (new_redis_opt (rds_addr (cfg_redis cfg)) (rds_password (cfg_redis cfg)) (rds_queue_db (cfg_redis cfg))))"
      "\<exists>m. wk_mux wk = Some m"
    using init register_handlers_some [of M A _ mux] by (fastforce simp: new_worker_def Let_def)
  then show ?thesis
    by (intro exI [of _ wk]) (auto simp: new_server_config_def new_redis_opt_def worker_run_def fun_eq_iff)
qed

section \<open>The properties at work\<close>

theorem api_assembled_witness:
  "\<exists>reg p' sv. init_api (lib_db counted_libs) (lib_redis counted_libs) (lib_asynq counted_libs) (Some sample_config) start_app = (Inr reg, p') \<and>
     new_server counted_libs (\<lambda>_. None) (Some reg) = Inr sv \<and> (''GET'', ''/api/v1/auth/me'') \<in> set (route_names (sv_engine sv))"
proof -
  let ?r = "init_api (lib_db counted_libs) (lib_redis counted_libs) (lib_asynq counted_libs) (Some sample_config) start_app"
  have "case fst ?r of Inl e \<Rightarrow> False | Inr reg \<Rightarrow> True" by code_simp
  then obtain reg p' where r: "?r = (Inr reg, p')" by (cases ?r) (auto split: sum.splits)
  have "trim_space (auth_jwt_secret (cfg_auth sample_config)) \<noteq> []" by code_simp
  with api_assembled [OF r, of "\<lambda>_. None"] r show ?thesis by auto
qed

theorem worker_assembled_witness:
  "\<exists>reg p' wk. init_worker (lib_db counted_libs) (lib_redis counted_libs) (lib_asynq counted_libs) (Some sample_config) start_app = (Inr reg, p') \<and>
     new_worker sample_mux_ops sample_getters ([], []) (Some reg) = Inr wk \<and> worker_run (Some wk) (\<lambda>w. (None, Suc w)) 5 = (None, 6)"
proof -
  let ?r = "init_worker (lib_db counted_libs) (lib_redis counted_libs) (lib_asynq counted_libs) (Some sample_config) start_app"
  have "case fst ?r of Inl e \<Rightarrow> False | Inr reg \<Rightarrow> True" by code_simp
  then obtain reg p' where r: "?r = (Inr reg, p')" by (cases ?r) (auto split: sum.splits)
  obtain wk where wk: "new_worker sample_mux_ops sample_getters ([], []) (Some reg) = Inr wk" "worker_run (Some wk) (\<lambda>w. (None, Suc w)) = (\<lambda>w. (None, Suc w))"
    using worker_assembled [OF r, of sample_mux_ops sample_getters "([], [])" "\<lambda>w. (None, Suc w)"] by blast
  show ?thesis by (intro exI conjI, rule r, rule wk(1)) (simp add: wk(2))
qed

end
