(* ===== verification/Catalogue.thy ===== *)
theory Catalogue
  imports Pipeline
begin

text \<open>
  The errors the routes of the assembled server can answer: which codes of \<open>internal/errcode\<close> come
  from the handlers of each route, and which from the middleware around them.
\<close>

section \<open>Bodies that are no surprise\<close>

definition error_in :: "errcode set \<Rightarrow> 'd body \<Rightarrow> bool" where
  "error_in E b \<longleftrightarrow>
     (case b of
        Envelope e \<Rightarrow> rsp_data e = None \<longrightarrow> (\<exists>ec \<in> E. rsp_code e = code_of ec \<and> rsp_reason e = reason_of ec)
      | HealthReport status checks \<Rightarrow> True)"

definition within :: "('c, 'd body, 'x) gin \<Rightarrow> errcode set \<Rightarrow> ('c, 'w, 'l, 'r) http \<Rightarrow> bool" where
  "within g E s \<longleftrightarrow> (\<forall>b \<in> set (bodies g s). error_in E b)"

text \<open>A handler whose errors are among \<open>E\<close>.\<close>

locale catalogued =
  fixes g :: "('c, 'd body, 'x) gin" and E :: "errcode set" and h :: "('c, 'w, 'l, 'r) handler"
  assumes writes: "gin_ok g \<Longrightarrow> within g E s \<Longrightarrow> within g E (outcome_state (h s))"
begin

text \<open>Behind anything that adds errors of its own, those are the only ones added.\<close>

lemma writes_more: "gin_ok g \<Longrightarrow> bodies g s = [] \<Longrightarrow> E \<subseteq> E' \<Longrightarrow> within g E' (outcome_state (h s))"
proof -
  assume "gin_ok g" and s: "bodies g s = []" and E: "E \<subseteq> E'"
  then have "within g E (outcome_state (h s))" by (intro writes) (simp_all add: within_def)
  then show ?thesis using E by (fastforce simp: within_def error_in_def split: body.splits)
qed

end

section \<open>Writes\<close>

lemma within_same_ctx: "within g E s \<Longrightarrow> ht_ctx s' = ht_ctx s \<Longrightarrow> within g E s'"
  by (simp add: within_def bodies_def)

lemma within_json:
  assumes "gin_ok g" "within g E s" "error_in E (b (ht_ctx s))"
  shows "within g E (on_ctx (\<lambda>c. gin_json g st (b c) c) s)" "within g E (on_ctx (\<lambda>c. gin_abort_json g st (b c) c) s)"
  using assms by (auto simp: within_def bodies_def)

lemma error_in_simps [simp]:
  "error_in E (Envelope (success_response d))"
  "ec \<in> E \<Longrightarrow> error_in E (Envelope (error_response g c ec))"
  "InvalidParams \<in> E \<Longrightarrow> error_in E (Envelope (build_validation_error_response g c err))"
  "error_in E (HealthReport a b)"
  by (auto simp: error_in_def error_response_def build_validation_error_response_def Let_def)

lemma within_writes:
  assumes "gin_ok g" "within g E s"
  shows "ec \<in> E \<Longrightarrow> within g E (on_ctx (write_error g (Coded ec)) s)"
    "within g E (on_ctx (write_success g d) s)"
    "InvalidParams \<in> E \<Longrightarrow> within g E (on_ctx (write_validation_error g err) s)"
    "InvalidParams \<in> E \<Longrightarrow> within g E (on_ctx (\<lambda>c. gin_json g st (Envelope (build_validation_error_response g c err)) c) s)"
    "ec \<in> E \<Longrightarrow> within g E (on_ctx (\<lambda>c. gin_abort_json g st (Envelope (error_response g c ec)) c) s)"
    "within g E (on_ctx (gin_json g st (HealthReport a b)) s)"
  using within_json(1) [OF assms, of "\<lambda>c. Envelope (error_response g c ec)" 200]
    within_json(1) [OF assms, of "\<lambda>_. Envelope (success_response d)" 200]
    within_json(1) [OF assms, of "\<lambda>c. Envelope (build_validation_error_response g c err)"]
    within_json(2) [OF assms, of "\<lambda>c. Envelope (error_response g c ec)" st]
    within_json(1) [OF assms, of "\<lambda>_. HealthReport a b" st]
  by (simp_all add: write_error_eq [abs_def] write_success_def [abs_def] write_validation_error_def [abs_def])

section \<open>The handlers\<close>

lemma catalogued_create_token:
  fixes g :: "('c, 'db) api_gin" and os :: "'w os_lib"
  shows "catalogued g {InvalidParams} (create_token g os J B (new_auth_handler (Some m)) :: ('c, 'w, 'l, 'r) handler)"
proof
  fix s :: "('c, 'w, 'l, 'r) http"
  assume a: "gin_ok g" "within g {InvalidParams} s"
  obtain now s' where n: "call_os (os_now os) s = (now, s')" by fastforce
  have s': "within g {InvalidParams} s'" using call_os_ctx [OF n] by (intro within_same_ctx [OF a(2)]) simp
  then show "within g {InvalidParams} (outcome_state (create_token g os J B (new_auth_handler (Some m)) s))"
    using within_writes [OF a] within_writes [OF a(1) s']
    by (simp add: create_token_def new_auth_handler_def n split: sum.split)
qed

lemma catalogued_bearer_me:
  fixes g :: "('c, 'db) api_gin" and os :: "'w os_lib"
  shows "catalogued g {Unauthorized} (bearer_auth g os J manager (me g) :: ('c, 'w, 'l, 'r) handler)"
proof
  fix s :: "('c, 'w, 'l, 'r) http"
  assume a: "gin_ok g" "within g {Unauthorized} s"
  obtain now s' where n: "call_os (os_now os) s = (now, s')" by fastforce
  have s': "within g {Unauthorized} s'" using call_os_ctx [OF n] by (intro within_same_ctx [OF a(2)]) simp
  have "within g {Unauthorized} (on_ctx (gin_set g k v) s')" for k v
    using s' a(1) by (simp add: within_def bodies_def)
  note keyed = this
  have me: "within g {Unauthorized} (outcome_state (me g t))" if "within g {Unauthorized} t" for t :: "('c, 'w, 'l, 'r) http"
    using within_json(1) [OF a(1) that, of "\<lambda>c. Envelope (success_response (MeRes (auth_subject g c)))" 200]
    by (simp add: me_def write_success_def)
  show "within g {Unauthorized} (outcome_state (bearer_auth g os J manager (me g) s))"
    using within_writes(5) [OF a, of Unauthorized] within_writes(5) [OF a(1) s', of Unauthorized] me [OF keyed]
    by (simp add: bearer_auth_def n reject_unauthorized_def [abs_def] split: option.split sum.split)
qed

text \<open>What the services answer.\<close>

lemma and_then_eq_Returned: "and_then m k = Returned b s' \<longleftrightarrow> (\<exists>a s. m = Returned a s \<and> k a s = Returned b s')"
  by (cases m) auto

lemma create_errors: "svc_create svc c name s = Returned (Inl err) s' \<Longrightarrow> err = Coded DatabaseError"
  by (auto simp: svc_create_def and_then_eq_Returned split: option.splits prod.splits)

lemma list_errors:
  assumes "svc_list svc c limit offset s = Returned (Inl err) s'"
  shows "err = Coded DatabaseError"
proof -
  obtain repo res p where r: "svc_repo svc = Some repo"
      "ri_list repo c (if limit = 0 then 20 else limit) offset s = Returned res p"
    using assms by (auto simp: svc_list_def Let_def and_then_eq_Returned split: option.splits)
  then show ?thesis using assms by (cases res) (auto simp: svc_list_def Let_def)
qed

lemma enqueue_errors:
  "svc_enqueue_task svc c name s = (Inl err, s') \<Longrightarrow> err = Coded QueueUnavailable \<or> err = Coded QueueError"
  by (auto simp: svc_enqueue_task_def split: option.splits prod.splits sum.splits if_splits)

text \<open>What the handlers make of it.\<close>

lemma within_call_app:
  assumes g: "gin_ok g" and s: "within g E s" and E: "\<And>err p. f (ht_app s) = Returned (Inl err) p \<Longrightarrow> \<exists>ec \<in> E. err = Coded ec"
  shows "within g E (outcome_state (and_then (call_app f s)
    (\<lambda>res s. case res of Inl err \<Rightarrow> Returned () (on_ctx (write_error g err) s)
                       | Inr x \<Rightarrow> Returned () (on_ctx (write_success g (d x)) s))))"
proof (cases "call_app f s")
  case (Returned res s')
  have s': "within g E s'" using call_app_ctx(1) [OF Returned] by (intro within_same_ctx [OF s]) simp
  have "\<exists>ec \<in> E. err = Coded ec" if "res = Inl err" for err
    using E Returned that by (auto simp: call_app_def split: outcome.splits)
  then show ?thesis using within_writes(1,2) [OF g s'] by (cases res) (auto simp: Returned)
next
  case (Panicked p s')
  show ?thesis using call_app_ctx(2) [OF Panicked] by (simp add: Panicked within_same_ctx [OF s])
qed

lemma catalogued_example_create:
  fixes g :: "('c, 'db) api_gin"
  shows "catalogued g {InvalidParams, DatabaseError} (example_create g B h :: ('c, 'w, 'l, 'r) handler)"
proof
  fix s :: "('c, 'w, 'l, 'r) http"
  assume a: "gin_ok g" "within g {InvalidParams, DatabaseError} s"
  show "within g {InvalidParams, DatabaseError} (outcome_state (example_create g B h s))"
  proof (cases "bind_string B ''name'' (ht_ctx s)")
    case (Inl err)
    then show ?thesis using within_writes(3) [OF a] by (simp add: example_create_def)
  next
    case (Inr name)
    then show ?thesis
      using within_call_app [OF a, of "svc_create (eh_svc h) (Some (gin_req_ctx g (ht_ctx s))) name" ExampleRes] create_errors
      by (fastforce simp: example_create_def)
  qed
qed

lemma catalogued_example_list:
  fixes g :: "('c, 'db) api_gin"
  shows "catalogued g {InvalidParams, DatabaseError} (example_list g B h :: ('c, 'w, 'l, 'r) handler)"
proof
  fix s :: "('c, 'w, 'l, 'r) http"
  assume a: "gin_ok g" "within g {InvalidParams, DatabaseError} s"
  show "within g {InvalidParams, DatabaseError} (outcome_state (example_list g B h s))"
  proof (cases "bind_list B (ht_ctx s)")
    case (Inl err)
    then show ?thesis using within_writes(3) [OF a] by (simp add: example_list_def)
  next
    case (Inr lk)
    then show ?thesis
      using within_call_app [OF a, of "svc_list (eh_svc h) (Some (gin_req_ctx g (ht_ctx s))) (fst lk) (snd lk)" ListRes] list_errors
      by (cases lk) (fastforce simp: example_list_def)
  qed
qed

lemma catalogued_enqueue:
  fixes g :: "('c, 'db) api_gin"
  shows "catalogued g {InvalidParams, QueueUnavailable, QueueError} (example_enqueue_task g B h :: ('c, 'w, 'l, 'r) handler)"
proof
  fix s :: "('c, 'w, 'l, 'r) http"
  assume a: "gin_ok g" "within g {InvalidParams, QueueUnavailable, QueueError} s"
  have p: "within g {InvalidParams, QueueUnavailable, QueueError} (s\<lparr>ht_app := p\<rparr>)" for p
    by (rule within_same_ctx [OF a(2)]) simp
  note w = within_writes [OF a] within_writes [OF a(1) p]
  show "within g {InvalidParams, QueueUnavailable, QueueError} (outcome_state (example_enqueue_task g B h s))"
    using w(3,7,8) by (auto simp: example_enqueue_task_def Let_def dest!: enqueue_errors split: sum.split prod.split)
qed

lemma catalogued_health:
  fixes g :: "('c, 'db) api_gin"
  shows "catalogued g {} (health g os D L h :: ('c, 'w, 'l, 'r) handler)"
proof
  fix s :: "('c, 'w, 'l, 'r) http"
  assume a: "gin_ok g" "within g {} s"
  obtain s' st x y where "health g os D L h s = Returned () (on_ctx (gin_json g st (HealthReport x y)) s')" "ht_ctx s' = ht_ctx s"
    using health_json by metis
  then show "within g {} (outcome_state (health g os D L h s))"
    using within_writes(6) [OF a(1) within_same_ctx [OF a(2)]] by simp
qed

interpretation ct_token: catalogued g "{InvalidParams}" "create_token g os J B (new_auth_handler (Some m))" for g os J B m
  by (rule catalogued_create_token)

interpretation ct_me: catalogued g "{Unauthorized}" "bearer_auth g os J manager (me g)" for g os J manager
  by (rule catalogued_bearer_me)

interpretation ct_create: catalogued g "{InvalidParams, DatabaseError}" "example_create g B h" for g B h
  by (rule catalogued_example_create)

interpretation ct_list: catalogued g "{InvalidParams, DatabaseError}" "example_list g B h" for g B h
  by (rule catalogued_example_list)

interpretation ct_enqueue: catalogued g "{InvalidParams, QueueUnavailable, QueueError}" "example_enqueue_task g B h" for g B h
  by (rule catalogued_enqueue)

interpretation ct_health: catalogued g "{}" "health g os D L h" for g os D L h
  by (rule catalogued_health)

section \<open>The server\<close>

definition route_errors :: "string \<Rightarrow> errcode set" where
  "route_errors path =
     (if path = ''/api/v1/auth/token'' then {InvalidParams}
      else if path = ''/api/v1/auth/me'' then {Unauthorized}
      else if path = ''/api/v1/examples'' then {InvalidParams, DatabaseError}
      else if path = ''/api/v1/examples/tasks'' then {InvalidParams, QueueUnavailable, QueueError}
      else {})"

definition answered_errors :: "errcode set" where
  "answered_errors =
     {InvalidParams, Unauthorized, DatabaseError, QueueUnavailable, QueueError, InternalError, TooManyRequests}"

lemma answered_errors:
  "route_errors path \<subseteq> answered_errors" "InternalError \<in> answered_errors" "TooManyRequests \<in> answered_errors"
  "PermissionDenied \<notin> answered_errors" "RequestTimeout \<notin> answered_errors"
  by (simp_all add: answered_errors_def route_errors_def errcode_defs new_error_def)

lemma route_cases:
  assumes "new_engine X p rg cfg (new_http_handlers X rg) rl = Inr e" and "r \<in> set (en_routes e)"
  defines "g \<equiv> lib_gin X" and "os \<equiv> lib_os X" and "B \<equiv> lib_binding X" and "hs \<equiv> new_http_handlers X rg"
    and "chain \<equiv> run_chain (rt_middleware r) (rt_handler r)"
  obtains "rt_path r = ''/health''" "chain = health g os (lib_db X) (lib_redis X) (hs_health hs)"
  | m where "rt_path r = ''/api/v1/auth/token''" "chain = create_token g os (lib_jwt X) B (new_auth_handler (Some m))"
  | m where "rt_path r = ''/api/v1/auth/me''" "chain = bearer_auth g os (lib_jwt X) (Some m) (me g)"
  | "rt_path r = ''/api/v1/examples''" "chain = example_create g B (hs_example hs)" "rt_method r = ''POST''"
  | "rt_path r = ''/api/v1/examples''" "chain = example_list g B (hs_example hs)" "rt_method r = ''GET''"
  | "rt_path r = ''/api/v1/examples/tasks''" "chain = example_enqueue_task g B (hs_example hs)"
proof -
  have auth: "hs_auth (new_http_handlers X rg) = new_auth_handler (reg_auth rg)" by (simp add: new_http_handlers_def Let_def)
  have r: "r \<in> set (\<lparr>rt_method = ''GET'', rt_path = ''/health'', rt_middleware = [],
      rt_handler = health g os (lib_db X) (lib_redis X) (hs_health hs)\<rparr> #
     register_routes X ''/api/v1''
       \<lparr>dp_auth = new_auth_handler (reg_auth rg),
        dp_auth_required = (if reg_auth rg \<noteq> None then Some (bearer_auth g os (lib_jwt X) (reg_auth rg)) else None),
        dp_example = Some (hs_example hs)\<rparr>)"
    using assms(2) unfolding engine_routes [OF assms(1)] auth g_def os_def hs_def .
  note routes = register_routes_def register_auth_routes_def register_example_routes_def new_auth_handler_def Let_def
  show ?thesis
  proof (cases "reg_auth rg")
    case None
    from r have "r \<in> set [\<lparr>rt_method = ''GET'', rt_path = ''/health'', rt_middleware = [],
        rt_handler = health g os (lib_db X) (lib_redis X) (hs_health hs)\<rparr>,
      \<lparr>rt_method = ''GET'', rt_path = ''/api/v1/examples'', rt_middleware = [], rt_handler = example_list g B (hs_example hs)\<rparr>,
      \<lparr>rt_method = ''POST'', rt_path = ''/api/v1/examples'', rt_middleware = [], rt_handler = example_create g B (hs_example hs)\<rparr>,
      \<lparr>rt_method = ''POST'', rt_path = ''/api/v1/examples/tasks'', rt_middleware = [],
        rt_handler = example_enqueue_task g B (hs_example hs)\<rparr>]"
      by (simp add: None routes g_def B_def)
    then show ?thesis
      unfolding list.set insert_iff empty_iff
      by (elim disjE) (simp add: that chain_def)+
  next
    case (Some m)
    from r have "r \<in> set [\<lparr>rt_method = ''GET'', rt_path = ''/health'', rt_middleware = [],
        rt_handler = health g os (lib_db X) (lib_redis X) (hs_health hs)\<rparr>,
      \<lparr>rt_method = ''POST'', rt_path = ''/api/v1/auth/token'', rt_middleware = [],
        rt_handler = create_token g os (lib_jwt X) B (new_auth_handler (Some m))\<rparr>,
      \<lparr>rt_method = ''GET'', rt_path = ''/api/v1/auth/me'', rt_middleware = [bearer_auth g os (lib_jwt X) (Some m)], rt_handler = me g\<rparr>,
      \<lparr>rt_method = ''GET'', rt_path = ''/api/v1/examples'', rt_middleware = [], rt_handler = example_list g B (hs_example hs)\<rparr>,
      \<lparr>rt_method = ''POST'', rt_path = ''/api/v1/examples'', rt_middleware = [], rt_handler = example_create g B (hs_example hs)\<rparr>,
      \<lparr>rt_method = ''POST'', rt_path = ''/api/v1/examples/tasks'', rt_middleware = [],
        rt_handler = example_enqueue_task g B (hs_example hs)\<rparr>]"
      by (simp add: Some routes g_def os_def B_def)
    then show ?thesis
      unfolding list.set insert_iff empty_iff
      by (elim disjE) (simp add: that chain_def)+
  qed
qed

lemma route_catalogued:
  assumes "new_server X p reg = Inr sv" and "r \<in> set (en_routes (sv_engine sv))"
  shows "catalogued (lib_gin X) (route_errors (rt_path r)) (run_chain (rt_middleware r) (rt_handler r))"
proof -
  obtain rg cfg where ne: "new_engine X p rg cfg (new_http_handlers X rg) (sv_rate_limiter sv) = Inr (sv_engine sv)"
    using new_server_engine [OF assms(1)] by metis
  show ?thesis
    by (rule route_cases [OF ne assms(2)])
       (simp_all only: route_errors_def catalogued_create_token catalogued_bearer_me catalogued_example_create
         catalogued_example_list catalogued_enqueue catalogued_health, simp_all add: catalogued_create_token catalogued_bearer_me
         catalogued_example_create catalogued_example_list catalogued_enqueue catalogued_health)
qed

lemma route_within:
  assumes "gin_ok (lib_gin X)" and "new_server X p reg = Inr sv" and "r \<in> set (en_routes (sv_engine sv))"
    and "bodies (lib_gin X) s = []" and "route_errors (rt_path r) \<subseteq> E"
  shows "within (lib_gin X) E (outcome_state (run_chain (rt_middleware r) (rt_handler r) s))"
  by (rule catalogued.writes_more [OF route_catalogued [OF assms(2,3)] assms(1,4,5)])

lemma limiter_within:
  fixes s :: "('c, 'w, 'l, 'r) http"
  assumes g: "gin_ok (lib_gin X)" and b: "bodies (lib_gin X) s = []"
    and h: "\<And>s. bodies (lib_gin X) s = [] \<Longrightarrow> within (lib_gin X) E (outcome_state (h s))"
    and E: "ht_limiter s = None \<or> TooManyRequests \<in> E"
  shows "within (lib_gin X) E (outcome_state (run_chain (limiter_mw X sv) h s))"
proof (cases "sv_rate_limiter sv = None \<or> ht_limiter s = None")
  case True
  then have "run_chain (limiter_mw X sv) h s = h s" by (auto simp: limiter_mw_def rate_limit_middleware_def)
  then show ?thesis using h [OF b] by simp
next
  case False
  then obtain l0 where l0: "ht_limiter s = Some l0" by blast
  obtain ok l' where "allow (lib_rate X) (gin_client_ip (lib_gin X) (ht_ctx s)) (fst (os_now (lib_os X) (app_world (ht_app s))))
      (fst (os_now (lib_os X) (snd (os_now (lib_os X) (app_world (ht_app s)))))) l0 = (ok, l')" by fastforce
  from rate_limit_eq [OF l0 this] obtain s2 :: "('c, 'w, 'l, 'r) http" where
    s2: "ht_ctx s2 = ht_ctx s"
      "\<And>nxt. rate_limit_middleware (lib_gin X) (lib_os X) (lib_rate X) nxt s = (if ok then nxt s2
        else Returned () (on_ctx (\<lambda>c. gin_abort_json (lib_gin X) 200 (Envelope (error_response (lib_gin X) c TooManyRequests)) c) s2))"
    by blast
  have b2: "bodies (lib_gin X) s2 = []" using b s2(1) by (simp add: bodies_def)
  then have "within (lib_gin X) E s2" by (simp add: within_def)
  then show ?thesis
    using False E h [OF b2] within_writes(5) [OF g, of E s2 TooManyRequests]
    by (cases ok) (auto simp: limiter_mw_def s2(2))
qed

lemma respond_within:
  assumes g: "gin_ok g" and w: "within g E (outcome_state out)" and E: "InternalError \<in> E"
    and r: "respond g os cfg start out = Returned () s'"
  shows "within g E s'"
proof (cases out)
  case (Returned u s2)
  then show ?thesis using w r respond_Returned [of g os cfg start s2] by (cases u) (auto intro: within_same_ctx)
next
  case (Panicked p s2)
  obtain s3 where s3: "respond g os cfg start (Panicked p s2) = Returned () s3"
     "ht_ctx s3 = gin_abort_json g 200 (Envelope (error_response g (ht_ctx s2) InternalError)) (ht_ctx s2)"
    using respond_Panicked by blast
  have "within g E s2" using w Panicked by simp
  have "within g E s3" by (rule within_same_ctx [OF within_writes(5) [OF g \<open>within g E s2\<close> E, of 200]]) (simp add: s3(2))
  then show ?thesis using s3(1) r Panicked by simp
qed

section \<open>Properties\<close>

text \<open>
  C39. The errors of every route are known: whatever the state of the outside, an error envelope of the
  assembled server has the code and the reason of one of the errors of its route, of INTERNAL_ERROR
  or, when there is a limiter, of TOO_MANY_REQUESTS. So no route ever
  answers PERMISSION_DENIED or REQUEST_TIMEOUT, which the documentation lists.
\<close>

theorem errors_are_catalogued:
  fixes X :: "('c, 'db, 'sql, 'k, 'q, 'i, 'w, 'l, 'r) libs"
  assumes "gin_ok (lib_gin X)" and "uuid_ok (lib_os X)" and "new_server X p (Some reg) = Inr sv"
    and "find_route (sv_engine sv) (gin_method (lib_gin X) (ht_ctx s)) (gin_path (lib_gin X) (ht_ctx s)) = Some r"
    and "gin_bodies (lib_gin X) (ht_ctx s) = []"
    and "serve (lib_gin X) no_route (sv_engine sv) s = Returned () s'"
    and "gin_bodies (lib_gin X) (ht_ctx s') = [Envelope e]" and "rsp_data e = None"
  shows "\<exists>ec \<in> route_errors (gin_path (lib_gin X) (ht_ctx s)) \<union> {InternalError} \<union>
             (if ht_limiter s = None then {} else {TooManyRequests}).
           rsp_code e = code_of ec \<and> rsp_reason e = reason_of ec \<and> ec \<noteq> PermissionDenied \<and> ec \<noteq> RequestTimeout"
proof -
  let ?g = "lib_gin X" and ?e = "sv_engine sv"
  let ?E = "route_errors (gin_path ?g (ht_ctx s)) \<union> {InternalError} \<union> (if ht_limiter s = None then {} else {TooManyRequests})"
  have r: "r \<in> set (en_routes ?e)" "rt_method r = gin_method ?g (ht_ctx s)" "rt_path r = gin_path ?g (ht_ctx s)"
    using find_route_set [OF assms(4)] by auto
  have m: "gin_method ?g (ht_ctx s) \<noteq> ''OPTIONS''"
    using new_server_ok [OF assms(1,3)] r by (auto simp: engine_ok_def list_all_iff)
  obtain cfg where cfg: "reg_cfg reg = Some cfg" using new_server_engine [OF assms(3)] by (metis option.inject)
  let ?route = "run_chain (rt_middleware r) (rt_handler r)"
  obtain tid start s1 where d:
      "\<And>h. run_chain (en_middleware ?e) h s = respond ?g (lib_os X) cfg start (run_chain (limiter_mw X sv) h s1)"
      "traced ?g tid (ht_limiter s) s1" "bodies ?g s1 = []"
    by (rule down_to_route [OF assms(1-3) cfg m assms(5)]) (rule that)
  have inner: "within ?g ?E (outcome_state (run_chain (limiter_mw X sv) ?route s1))"
  proof (rule limiter_within [OF assms(1) d(3)])
    show "within ?g ?E (outcome_state (?route t))" if "bodies ?g t = []" for t
      by (rule route_within [OF assms(1,3) r(1) that]) (auto simp: r(3))
    show "ht_limiter s1 = None \<or> TooManyRequests \<in> ?E" using d(2) by (simp add: traced_def)
  qed
  have outer: "respond ?g (lib_os X) cfg start (run_chain (limiter_mw X sv) ?route s1) = Returned () s'"
    using assms(4,6) by (simp add: serve_def d(1))
  have "within ?g ?E s'" by (rule respond_within [OF assms(1) inner _ outer]) blast
  then have "error_in ?E (Envelope e)" using assms(7) by (simp add: within_def bodies_def)
  then have "\<exists>ec \<in> ?E. rsp_code e = code_of ec \<and> rsp_reason e = reason_of ec"
    using assms(8) by (simp add: error_in_def)
  moreover have "?E \<subseteq> answered_errors" using answered_errors(1-3) by (cases "ht_limiter s") simp_all
  then have "ec \<noteq> PermissionDenied \<and> ec \<noteq> RequestTimeout" if "ec \<in> ?E" for ec
    using answered_errors(4,5) that by blast
  ultimately show ?thesis by blast
qed

theorem errors_are_catalogued_witness:
  "\<exists>s' e. serve (lib_gin sample_libs) sample_no_route (sv_engine sample_server)
       (sample_state 1 None ''GET'' ''/api/v1/auth/me'' []) = Returned () s' \<and>
     gin_bodies (lib_gin sample_libs) (ht_ctx s') = [Envelope e] \<and> rsp_data e = None \<and>
     rsp_code e \<in> {code_of Unauthorized, code_of InternalError}"
proof -
  let ?s = "sample_state 1 None ''GET'' ''/api/v1/auth/me'' []"
  obtain r where r: "find_route (sv_engine sample_server) ''GET'' ''/api/v1/auth/me'' = Some r"
    using sample_server_routes by blast
  have p: "\<exists>err. parse_token (lib_jwt sample_libs) \<lparr>jm_secret = ''k1'', jm_issuer = ''gb'', jm_ttl = minute\<rparr> t [] = Inl err" for t
    by (simp add: parse_token_def normalize_bearer_token_def Let_def sample_lib_jwt sample_jwt_def)
  obtain err where "parse_token (lib_jwt sample_libs) \<lparr>jm_secret = ''k1'', jm_issuer = ''gb'', jm_ttl = minute\<rparr>
      (fst (os_now (lib_os sample_libs) (route_world sample_libs small_config ?s))) [] = Inl err" using p by blast
  with me_run [OF sample_libs_ok sample_server_new sample_cfg, of ?s sample_no_route, unfolded sample_state_simps,
      OF refl refl refl refl]
  obtain s' tid where "serve (lib_gin sample_libs) sample_no_route (sv_engine sample_server) ?s = Returned () s'"
      "gin_bodies (lib_gin sample_libs) (ht_ctx s') = [Envelope (unauthorized_envelope tid)]"
    by (simp del: ex_simps) blast
  then obtain e where s': "serve (lib_gin sample_libs) sample_no_route (sv_engine sample_server) ?s = Returned () s'"
      "gin_bodies (lib_gin sample_libs) (ht_ctx s') = [Envelope e]" "rsp_data e = None"
    by (simp add: unauthorized_envelope_def)
  from errors_are_catalogued [OF sample_libs_ok sample_server_new _ _ s', of r] r s'
  show ?thesis by (auto simp: sample_state_simps route_errors_def)
qed

end
