(* ===== verification/Session.thy ===== *)
theory Session
  imports Catalogue
begin

text \<open>
  A run of the assembled server: requests one after the other, through the engine of
  \<open>internal/server.go\<close> and the limiter of \<open>internal/middleware/rate_limit.go\<close>, with the ticks of its
  cleanup in between. The state of the program and of the limiter goes from each to the next.
\<close>

datatype 'c sv_event = Arrives 'c | Cleans int

fun session ::
    "('c, 'b, 'x) gin \<Rightarrow> ('c, 'w, 'l, 'r) handler \<Rightarrow> ('c, 'w, 'l, 'r) engine \<Rightarrow> 'w app \<Rightarrow>
     ('l, 'r) ip_rate_limiter option \<Rightarrow> 'c sv_event list \<Rightarrow> (string \<times> 'c) list" where
  "session g no_route e p l [] = []"
| "session g no_route e p l (Arrives c # es) =
     (case serve g no_route e \<lparr>ht_ctx = c, ht_app = p, ht_limiter = l\<rparr> of
        Returned _ s \<Rightarrow> (gin_client_ip g c, ht_ctx s) # session g no_route e (ht_app s) (ht_limiter s) es
      | Panicked _ s \<Rightarrow> (gin_client_ip g c, ht_ctx s) # session g no_route e (ht_app s) (ht_limiter s) es)"
| "session g no_route e p l (Cleans now # es) = session g no_route e p (map_option (cleanup_tick now) l) es"

text \<open>What the client sees of a refusal.\<close>

definition was_refused :: "('c, 'd body, 'x) gin \<Rightarrow> 'c \<Rightarrow> bool" where
  "was_refused g c \<longleftrightarrow>
     (case gin_bodies g c of [Envelope e] \<Rightarrow> rsp_data e = None \<and> rsp_reason e = ''TOO_MANY_REQUESTS'' | _ \<Rightarrow> False)"

text \<open>
  What the limiter goes through in a session: the address of each request, and the clock, read twice
  where the middleware above the limiter leave the outside.
\<close>

definition clock_reads :: "'w os_lib \<Rightarrow> 'w \<Rightarrow> int \<times> int" where
  "clock_reads os w = (fst (os_now os w), fst (os_now os (snd (os_now os w))))"

fun session_events ::
    "('c, 'db, 'sql, 'k, 'q, 'i, 'w, 'l, 'r) libs \<Rightarrow> config \<Rightarrow> ('c, 'w, 'l, 'r) handler \<Rightarrow> ('c, 'w, 'l, 'r) engine \<Rightarrow>
     'w app \<Rightarrow> ('l, 'r) ip_rate_limiter option \<Rightarrow> 'c sv_event list \<Rightarrow> rl_event list" where
  "session_events X cfg no_route e p l [] = []"
| "session_events X cfg no_route e p l (Arrives c # es) =
     (let s = \<lparr>ht_ctx = c, ht_app = p, ht_limiter = l\<rparr>;
          (now, now') = clock_reads (lib_os X) (route_world X cfg s);
          s' = outcome_state (serve (lib_gin X) no_route e s)
      in Request (gin_client_ip (lib_gin X) c) now now' # session_events X cfg no_route e (ht_app s') (ht_limiter s') es)"
| "session_events X cfg no_route e p l (Cleans now # es) =
     Tick now # session_events X cfg no_route e p (map_option (cleanup_tick now) l) es"

section \<open>Lemmas\<close>

lemma was_refused_iff:
  "was_refused g c \<longleftrightarrow> (\<exists>e. gin_bodies g c = [Envelope e] \<and> rsp_data e = None \<and> rsp_reason e = ''TOO_MANY_REQUESTS'')"
  by (cases "gin_bodies g c"; cases "tl (gin_bodies g c)") (auto simp: was_refused_def split: body.split)

lemma not_too_many:
  assumes "within g (route_errors path \<union> {InternalError}) s"
  shows "\<not> was_refused g (ht_ctx s)"
proof -
  have n: "reason_of ec \<noteq> ''TOO_MANY_REQUESTS''" if "ec \<in> route_errors path \<union> {InternalError}" for ec
    using that by (auto simp: route_errors_def errcode_defs split: if_splits)
  have "rsp_reason e \<noteq> ''TOO_MANY_REQUESTS''" if "gin_bodies g (ht_ctx s) = [Envelope e]" "rsp_data e = None" for e
  proof -
    have "error_in (route_errors path \<union> {InternalError}) (Envelope e)"
      using assms that(1) by (simp add: within_def bodies_def)
    then show ?thesis using n that(2) by (auto simp: error_in_def)
  qed
  then show ?thesis by (auto simp: was_refused_iff)
qed

text \<open>One request: the limiter's verdict is what the client sees.\<close>

lemma request_verdict:
  fixes X :: "('c, 'db, 'sql, 'k, 'q, 'i, 'w, 'l, 'r) libs" and s :: "('c, 'w, 'l, 'r) http"
  assumes laws: "gin_ok (lib_gin X)" "uuid_ok (lib_os X)" and sv: "new_server X p (Some reg) = Inr sv" "reg_cfg reg = Some cfg"
    and rt: "find_route (sv_engine sv) (gin_method (lib_gin X) (ht_ctx s)) (gin_path (lib_gin X) (ht_ctx s)) = Some r"
    and b: "gin_bodies (lib_gin X) (ht_ctx s) = []" and lim: "sv_rate_limiter sv \<noteq> None" "ht_limiter s = Some l"
    and al: "allow (lib_rate X) (gin_client_ip (lib_gin X) (ht_ctx s)) (fst (os_now (lib_os X) (route_world X cfg s)))
        (fst (os_now (lib_os X) (snd (os_now (lib_os X) (route_world X cfg s))))) l = (ok, l')"
  shows "\<exists>s'. serve (lib_gin X) no_route (sv_engine sv) s = Returned () s' \<and> ht_limiter s' = Some l' \<and>
     was_refused (lib_gin X) (ht_ctx s') = (\<not> ok)"
proof -
  let ?g = "lib_gin X" and ?e = "sv_engine sv" and ?os = "lib_os X"
  obtain s' tid where s': "serve ?g no_route ?e s = Returned () s'" "ht_limiter s' = Some l'"
      "\<not> ok \<Longrightarrow> gin_bodies ?g (ht_ctx s') =
         [Envelope \<lparr>rsp_code = 1004, rsp_message = ''too many requests'', rsp_reason = ''TOO_MANY_REQUESTS'',
                   rsp_data = None, rsp_metadata = [(''trace_id'', tid)]\<rparr>]"
    using rate_limit_decides [OF laws sv rt b lim _ refl, of "fst (os_now ?os (route_world X cfg s))"
        "snd (os_now ?os (route_world X cfg s))" ok l' no_route] al by auto
  have "\<not> was_refused ?g (ht_ctx s')" if ok
  proof -
    have r: "r \<in> set (en_routes ?e)" "rt_method r = gin_method ?g (ht_ctx s)" using find_route_set [OF rt] by auto
    have m: "gin_method ?g (ht_ctx s) \<noteq> ''OPTIONS''"
      using new_server_ok [OF laws(1) sv(1)] r by (auto simp: engine_ok_def list_all_iff)
    let ?route = "run_chain (rt_middleware r) (rt_handler r)"
    obtain tid start s1 where d:
        "\<And>h. run_chain (en_middleware ?e) h s = respond ?g ?os cfg start (run_chain (limiter_mw X sv) h s1)"
        "traced ?g tid (ht_limiter s) s1" "bodies ?g s1 = []"
        "gin_client_ip ?g (ht_ctx s1) = gin_client_ip ?g (ht_ctx s)" "app_world (ht_app s1) = route_world X cfg s"
      by (rule down_to_route [OF laws sv m b]) (rule that)
    have "ht_limiter s1 = Some l" using d(2) lim(2) by (simp add: traced_def)
    from rate_limit_eq [OF this al [folded d(4,5)]] obtain s2 :: "('c, 'w, 'l, 'r) http" where
      s2: "ht_ctx s2 = ht_ctx s1" "\<And>nxt. rate_limit_middleware ?g ?os (lib_rate X) nxt s1 = nxt s2"
      using \<open>ok\<close> by auto
    have run: "respond ?g ?os cfg start (?route s2) = Returned () s'"
      using s'(1) rt lim(1) by (simp add: serve_def d(1) limiter_mw_def s2(2))
    have "bodies ?g s2 = []" using d(3) s2(1) by (simp add: bodies_def)
    from route_within [OF laws(1) sv(1) r(1) this, of "route_errors (rt_path r) \<union> {InternalError}"]
    have "within ?g (route_errors (rt_path r) \<union> {InternalError}) (outcome_state (?route s2))" by blast
    from respond_within [OF laws(1) this _ run] show ?thesis by (intro not_too_many) blast
  qed
  moreover have "was_refused ?g (ht_ctx s')" if "\<not> ok" using s'(3) [OF that] by (simp add: was_refused_def)
  ultimately show ?thesis using s'(1,2) by blast
qed

text \<open>A whole session, as the limiter runs through it.\<close>

lemma session_run:
  fixes X :: "('c, 'db, 'sql, 'k, 'q, 'i, 'w, 'l, 'r) libs"
  assumes laws: "gin_ok (lib_gin X)" "uuid_ok (lib_os X)" and sv: "new_server X p (Some reg) = Inr sv" "reg_cfg reg = Some cfg"
    and lim: "sv_rate_limiter sv \<noteq> None"
    and "\<forall>c. Arrives c \<in> set es \<longrightarrow> gin_bodies (lib_gin X) c = [] \<and>
        find_route (sv_engine sv) (gin_method (lib_gin X) c) (gin_path (lib_gin X) c) \<noteq> None"
  shows "map (\<lambda>(ip, c). (ip, \<not> was_refused (lib_gin X) c)) (session (lib_gin X) no_route (sv_engine sv) a (Some l) es) =
       rl_run (lib_rate X) l (session_events X cfg no_route (sv_engine sv) a (Some l) es)"
  using assms(6)
proof (induction es arbitrary: a l)
  case (Cons ev es)
  let ?g = "lib_gin X" and ?os = "lib_os X"
  show ?case
  proof (cases ev)
    case (Cleans now)
    then show ?thesis using Cons.IH [of a "cleanup_tick now l"] Cons.prems by simp
  next
    case (Arrives c)
    define s :: "('c, 'w, 'l, 'r) http" where "s = \<lparr>ht_ctx = c, ht_app = a, ht_limiter = Some l\<rparr>"
    obtain now now' where t: "clock_reads ?os (route_world X cfg s) = (now, now')" by fastforce
    obtain r where r: "find_route (sv_engine sv) (gin_method ?g c) (gin_path ?g c) = Some r" "gin_bodies ?g c = []"
      using Cons.prems Arrives by auto
    obtain ok l' where al: "allow (lib_rate X) (gin_client_ip ?g c) now now' l = (ok, l')" by fastforce
    obtain s' where s': "serve ?g no_route (sv_engine sv) s = Returned () s'" "ht_limiter s' = Some l'"
        "was_refused ?g (ht_ctx s') = (\<not> ok)"
      using request_verdict [OF laws sv, of s r l ok l' no_route] r lim al t by (auto simp: s_def clock_reads_def)
    then show ?thesis using Arrives Cons.IH [of "ht_app s'" l'] Cons.prems al t by (simp add: s_def [symmetric])
  qed
qed simp

section \<open>Properties\<close>

text \<open>
  C8. The limit is per client, whatever else happens: in a run of the assembled server with any requests
  for its routes and any cleanup ticks, the requests of an address that are refused with
  TOO_MANY_REQUESTS are exactly those that a token bucket of its own refuses, at the times the clock
  was read for them; nothing else is ever answered so. Under what the rate library promises, and
  for readings of the clock that do not go back.
\<close>

theorem session_limits_per_client:
  fixes X :: "('c, 'db, 'sql, 'k, 'q, 'i, 'w, 'l, 'r) libs"
  assumes laws: "gin_ok (lib_gin X)" "uuid_ok (lib_os X)" "rate_ok (lib_rate X) n"
    and server: "new_server X p (Some reg) = Inr sv" "reg_cfg reg = Some cfg"
      "rl_requests_per_minute (cfg_rate_limit cfg) = n" "0 < n"
    and requests: "\<forall>c. Arrives c \<in> set es \<longrightarrow> gin_bodies (lib_gin X) c = [] \<and>
        find_route (sv_engine sv) (gin_method (lib_gin X) c) (gin_path (lib_gin X) c) \<noteq> None"
    and clock: "clock_ok t0 (session_events X cfg no_route (sv_engine sv) a (sv_rate_limiter sv) es)"
  shows "verdicts ip (map (\<lambda>(ip, c). (ip, \<not> was_refused (lib_gin X) c))
       (session (lib_gin X) no_route (sv_engine sv) a (sv_rate_limiter sv) es)) =
     bucket_run (lib_rate X) (rate_new (lib_rate X) (rate_every (lib_rate X) (minute div n)) n)
       (request_times ip (session_events X cfg no_route (sv_engine sv) a (sv_rate_limiter sv) es))"
proof -
  obtain l where l: "sv_rate_limiter sv = Some l" "new_ip_rate_limiter_per_minute (lib_rate X) n = Some l"
    using server by (auto simp: new_server_def new_ip_rate_limiter_per_minute_def Let_def split: option.splits sum.splits)
  have "sv_rate_limiter sv \<noteq> None" using l(1) by simp
  from session_run [OF laws(1,2) server(1,2) this requests, of no_route a l]
    limiter_refines_buckets [OF laws(3) l(2) clock [unfolded l(1)], of ip]
  show ?thesis by (simp add: l(1))
qed

section \<open>The properties at work\<close>

text \<open>A server that allows one request a minute, whose clock stands still.\<close>

abbreviation strict_libs :: "(sample_request_ctx, nat, nat, nat, nat, unit, nat, token_bucket, int) libs" where
  "strict_libs \<equiv> sample_libs\<lparr>lib_os := \<lparr>os_now = Pair second, os_uuid = Pair ''uuid'', os_stack = Pair ''stack''\<rparr>\<rparr>"

definition strict_registry :: "(nat, nat, nat) registry" where
  "strict_registry = sample_registry\<lparr>reg_cfg := Some (small_config\<lparr>cfg_rate_limit := \<lparr>rl_requests_per_minute = 1\<rparr>\<rparr>)\<rparr>"

definition strict_server :: "(sample_request_ctx, nat, token_bucket, int) server" where
  "strict_server = (case new_server strict_libs (\<lambda>_. None) (Some strict_registry) of Inr sv \<Rightarrow> sv)"

lemma strict_server_new: "new_server strict_libs (\<lambda>_. None) (Some strict_registry) = Inr strict_server"
  by (simp add: strict_server_def new_server_def validate_http_registry_def strict_registry_def sample_registry_def dm_db_def
      new_engine_def Let_def)

lemma strict_route: "find_route (sv_engine strict_server) ''GET'' ''/api/v1/auth/me'' \<noteq> None"
  by (simp add: strict_server_def find_route_def new_server_def validate_http_registry_def strict_registry_def sample_registry_def
      dm_db_def new_engine_def register_routes_def register_auth_routes_def new_http_handlers_def new_auth_handler_def Let_def)

lemma strict_events:
  "session_events strict_libs cfg nr e a l [Arrives c, Arrives c] =
     [Request (gin_client_ip (lib_gin strict_libs) c) second second, Request (gin_client_ip (lib_gin strict_libs) c) second second]"
  by (simp add: clock_reads_def Let_def)

theorem session_limits_per_client_witness:
  "verdicts ''10.0.0.1'' (map (\<lambda>(ip, c). (ip, \<not> was_refused (lib_gin strict_libs) c))
     (session (lib_gin strict_libs) sample_no_route (sv_engine strict_server) \<lparr>app_world = 1, app_logs = []\<rparr>
       (sv_rate_limiter strict_server)
       [Arrives (sample_request ''GET'' ''/api/v1/auth/me'' [] background),
        Arrives (sample_request ''GET'' ''/api/v1/auth/me'' [] background)])) = [True, False]"
proof -
  let ?c = "sample_request ''GET'' ''/api/v1/auth/me'' [] background :: sample_request_ctx"
  have c: "gin_client_ip (lib_gin strict_libs) ?c = ''10.0.0.1''" "gin_bodies (lib_gin strict_libs) ?c = []"
      "gin_method (lib_gin strict_libs) ?c = ''GET''" "gin_path (lib_gin strict_libs) ?c = ''/api/v1/auth/me''"
    by (simp_all add: sample_libs_def sample_request_def sample_gin_def)
  have laws: "gin_ok (lib_gin strict_libs)" "uuid_ok (lib_os strict_libs)" "rate_ok (lib_rate strict_libs) 1"
    using sample_rate_ok [of 1] by (simp_all add: sample_libs_def sample_gin_ok uuid_ok_def)
  have cfg: "reg_cfg strict_registry = Some (small_config\<lparr>cfg_rate_limit := \<lparr>rl_requests_per_minute = 1\<rparr>\<rparr>)"
    by (simp add: strict_registry_def)
  have r: "\<forall>c. Arrives c \<in> set [Arrives ?c, Arrives ?c] \<longrightarrow> gin_bodies (lib_gin strict_libs) c = [] \<and>
      find_route (sv_engine strict_server) (gin_method (lib_gin strict_libs) c) (gin_path (lib_gin strict_libs) c) \<noteq> None"
    using strict_route c by simp
  have clock: "clock_ok 0 [Request ''10.0.0.1'' second second, Request ''10.0.0.1'' second second]"
    by (simp add: minute_def second_def)
  have bucket: "bucket_run (lib_rate strict_libs) (rate_new (lib_rate strict_libs) (rate_every (lib_rate strict_libs) (minute div 1)) 1)
      (request_times ''10.0.0.1'' [Request ''10.0.0.1'' second second, Request ''10.0.0.1'' second second]) = [True, False]"
    by (simp add: sample_libs_def sample_rate_simps minute_def second_def)
  have n: "rl_requests_per_minute (cfg_rate_limit (small_config\<lparr>cfg_rate_limit := \<lparr>rl_requests_per_minute = 1\<rparr>\<rparr>)) = 1" "(0::int) < 1"
    by simp_all
  show ?thesis
    by (rule trans [OF session_limits_per_client [OF laws strict_server_new cfg n r, unfolded strict_events c(1), OF clock] bucket])
qed

end
