(* ===== verification/Accountability.thy ===== *)
theory Accountability
  imports Catalogue ExampleFlow
begin

text \<open>
  Failures of the server leave a trace: an answer that blames the server, for its database, its queue or
  a panic, comes with an error in the log under the trace id the client gets.
\<close>

section \<open>Faults and their log entries\<close>

text \<open>The envelopes that blame the server. That a queue is not configured is no failure, and is not logged.\<close>

definition fault :: "'d body \<Rightarrow> bool" where
  "fault b \<longleftrightarrow>
     (case b of
        Envelope e \<Rightarrow> rsp_data e = None \<and> rsp_reason e \<in> {''INTERNAL_ERROR'', ''DATABASE_ERROR'', ''QUEUE_ERROR''}
      | HealthReport status checks \<Rightarrow> False)"

text \<open>
  \<open>base\<close> is the log before the request, \<open>tid\<close> its trace id, and \<open>V\<close> what can have been the cause: the error an
  operation returned, or what a handler panicked with.
\<close>

definition explained :: "field_val set \<Rightarrow> log_entry list \<Rightarrow> string \<Rightarrow> ('c, 'w, 'l, 'r) http \<Rightarrow> bool" where
  "explained V base tid s \<longleftrightarrow>
     (\<exists>new. app_logs (ht_app s) = base @ new \<and>
        (\<exists>le \<in> set new. le_severity le = ''error'' \<and> le_trace le = tid \<and> (\<exists>v \<in> V. (''error'', v) \<in> set (le_fields le))))"

definition accounted ::
    "('c, 'd body, 'db ctx) gin \<Rightarrow> field_val set \<Rightarrow> log_entry list \<Rightarrow> string \<Rightarrow> ('c, 'w, 'l, 'r) http \<Rightarrow> bool" where
  "accounted g V base tid s \<longleftrightarrow>
     trace_id_from (Some (gin_req_ctx g (ht_ctx s))) = tid \<and> prefix base (app_logs (ht_app s)) \<and>
     ((\<exists>b \<in> set (bodies g s). fault b) \<longrightarrow> explained V base tid s)"

text \<open>\<open>fails\<close> is the error of the operation the handler calls in a state, if it fails there.\<close>

locale accountable =
  fixes g :: "('c, 'd body, 'db ctx) gin" and h :: "('c, 'w, 'l, 'r) handler"
    and fails :: "('c, 'w, 'l, 'r) http \<Rightarrow> go_error option"
  assumes keeps: "gin_ok g \<Longrightarrow> FErr ` set_option (fails s) \<subseteq> V \<Longrightarrow> accounted g V base tid s \<Longrightarrow>
    accounted g V base tid (outcome_state (h s))"
begin

text \<open>What the handler answers a request that comes with an empty log is in its own log.\<close>

lemma explains:
  assumes "gin_ok g" "bodies g s = []" "fault b" "b \<in> set (bodies g (outcome_state (h s)))"
  shows "explained (FErr ` set_option (fails s)) (app_logs (ht_app s)) (trace_id_from (Some (gin_req_ctx g (ht_ctx s))))
    (outcome_state (h s))"
  using keeps [of s "FErr ` set_option (fails s)" "app_logs (ht_app s)" "trace_id_from (Some (gin_req_ctx g (ht_ctx s)))"] assms
  by (auto simp: accounted_def)

end

section \<open>The operations that can fail\<close>

text \<open>The error the repository or the queue returns, when the handler of the route calls it in the state \<open>s\<close>.\<close>

definition create_fails ::
    "('c, 'db) api_gin \<Rightarrow> 'c binding \<Rightarrow> ('db, 'w) gorm \<Rightarrow> 'db example_repo \<Rightarrow> ('c, 'w, 'l, 'r) http \<Rightarrow> go_error option" where
  "create_fails g B G r s =
     (case bind_string B ''name'' (ht_ctx s) of
        Inl _ \<Rightarrow> None
      | Inr name \<Rightarrow>
          (case repo_create G r (Some (gin_req_ctx g (ht_ctx s))) (new_example name) (ht_app s) of
             Returned (err, _) _ \<Rightarrow> err
           | Panicked _ _ \<Rightarrow> None))"

definition list_fails ::
    "('c, 'db) api_gin \<Rightarrow> 'c binding \<Rightarrow> ('db, 'w) gorm \<Rightarrow> 'db example_repo \<Rightarrow> ('c, 'w, 'l, 'r) http \<Rightarrow> go_error option" where
  "list_fails g B G r s =
     (case bind_list B (ht_ctx s) of
        Inl _ \<Rightarrow> None
      | Inr (limit, offset) \<Rightarrow>
          (case repo_list G r (Some (gin_req_ctx g (ht_ctx s))) (if limit = 0 then 20 else limit) offset (ht_app s) of
             Returned (Inl err) _ \<Rightarrow> Some err
           | _ \<Rightarrow> None))"

definition enqueue_fails ::
    "('c, 'db) api_gin \<Rightarrow> 'c binding \<Rightarrow> ('db, 'i, 'w) queue_iface \<Rightarrow> ('c, 'w, 'l, 'r) http \<Rightarrow> go_error option" where
  "enqueue_fails g B q s =
     (let c = Some (gin_req_ctx g (ht_ctx s)) in
      case bind_string B ''name'' (ht_ctx s) of
        Inl _ \<Rightarrow> None
      | Inr name \<Rightarrow>
          (case new_example_task name [trace_id_from c] of
             Inl err \<Rightarrow> Some err
           | Inr t \<Rightarrow> (case fst (qi_enqueue q c (Some t) [] (app_world (ht_app s))) of Inl err \<Rightarrow> Some err | Inr _ \<Rightarrow> None)))"

text \<open>The same for a route of the assembled server.\<close>

definition operation_fails ::
    "('c, 'db, 'sql, 'k, 'q, 'i, 'w, 'l, 'r) libs \<Rightarrow> ('db, 'k, 'q) registry \<Rightarrow> ('c, 'w, 'l, 'r) route \<Rightarrow>
     ('c, 'w, 'l, 'r) http \<Rightarrow> go_error option" where
  "operation_fails X reg r =
     (let g = lib_gin X; B = lib_binding X; repo = new_example_repository (dm_db (reg_db reg)) in
      if rt_path r = ''/api/v1/examples''
      then if rt_method r = ''POST'' then create_fails g B (lib_gorm X) repo else list_fails g B (lib_gorm X) repo
      else if rt_path r = ''/api/v1/examples/tasks''
      then enqueue_fails g B (queue_value (aq_enqueue (lib_asynq X)) (reg_queue reg))
      else (\<lambda>_. None))"

section \<open>Writes\<close>

lemma explained_more:
  "explained V base tid s \<Longrightarrow> prefix (app_logs (ht_app s)) (app_logs (ht_app s')) \<Longrightarrow> explained V base tid s'"
  by (fastforce simp: explained_def prefix_def)

lemma explained_now:
  assumes "prefix base (app_logs (ht_app s))" "app_logs (ht_app s') = app_logs (ht_app s) @ [le]"
    and "le_severity le = ''error''" "le_trace le = tid" "(''error'', v) \<in> set (le_fields le)" "v \<in> V"
  shows "explained V base tid s'"
  using assms by (auto simp: explained_def prefix_def)

lemma accounted_logs:
  assumes "accounted g V base tid s" "ht_ctx s' = ht_ctx s" "prefix (app_logs (ht_app s)) (app_logs (ht_app s'))"
  shows "accounted g V base tid s'"
  using assms explained_more [OF _ assms(3)] prefix_order.trans [OF _ assms(3)]
  by (auto simp: accounted_def bodies_def)

lemma accounted_body:
  assumes "gin_ok g" "accounted g V base tid s" "fault (b (ht_ctx s)) \<Longrightarrow> explained V base tid s"
  shows "accounted g V base tid (on_ctx (\<lambda>c. gin_json g st (b c) c) s)"
    "accounted g V base tid (on_ctx (\<lambda>c. gin_abort_json g st (b c) c) s)"
  using assms by (auto simp: accounted_def bodies_def explained_def)

lemma fault_simps [simp]:
  "\<not> fault (Envelope (success_response d))" "\<not> fault (HealthReport a b)"
  "\<not> fault (Envelope (build_validation_error_response g c err))"
  "fault (Envelope (error_response g c ec)) \<longleftrightarrow> reason_of ec \<in> {''INTERNAL_ERROR'', ''DATABASE_ERROR'', ''QUEUE_ERROR''}"
  by (simp_all add: fault_def success_response_def build_validation_error_response_def error_response_def Let_def errcode_defs)

lemma accounted_writes:
  assumes "gin_ok g" "accounted g V base tid s"
  shows "ec \<in> {InvalidParams, Unauthorized, QueueUnavailable, TooManyRequests} \<or> explained V base tid s \<Longrightarrow>
      accounted g V base tid (on_ctx (write_error g (Coded ec)) s)"
    "accounted g V base tid (on_ctx (write_success g d) s)"
    "accounted g V base tid (on_ctx (write_validation_error g err) s)"
    "accounted g V base tid (on_ctx (\<lambda>c. gin_json g st (Envelope (build_validation_error_response g c err)) c) s)"
    "ec \<in> {InvalidParams, Unauthorized, QueueUnavailable, TooManyRequests} \<or> explained V base tid s \<Longrightarrow>
      accounted g V base tid (on_ctx (\<lambda>c. gin_abort_json g st (Envelope (error_response g c ec)) c) s)"
    "accounted g V base tid (on_ctx (gin_json g st (HealthReport a b)) s)"
  using accounted_body(1) [OF assms, of "\<lambda>c. Envelope (error_response g c ec)" 200]
    accounted_body(1) [OF assms, of "\<lambda>_. Envelope (success_response d)" 200]
    accounted_body(1) [OF assms, of "\<lambda>c. Envelope (build_validation_error_response g c err)"]
    accounted_body(2) [OF assms, of "\<lambda>c. Envelope (error_response g c ec)" st]
    accounted_body(1) [OF assms, of "\<lambda>_. HealthReport a b" st]
  by (auto simp: write_error_eq [abs_def] write_success_def [abs_def] write_validation_error_def [abs_def] errcode_defs)

lemma accounted_call_os: "accounted g V base tid s \<Longrightarrow> call_os f s = (a, s') \<Longrightarrow> accounted g V base tid s'"
  by (erule accounted_logs) (auto dest: call_os_ctx)

section \<open>The handlers\<close>

lemma accountable_create_token:
  fixes g :: "('c, 'db) api_gin" and os :: "'w os_lib"
  shows "accountable g (create_token g os J B h :: ('c, 'w, 'l, 'r) handler) fails"
proof
  fix V base tid and s :: "('c, 'w, 'l, 'r) http"
  assume g: "gin_ok g" and v: "FErr ` set_option (fails s) \<subseteq> V" and acc: "accounted g V base tid s"
  note a = g acc
  obtain now s' where n: "call_os (os_now os) s = (now, s')" by fastforce
  note s' = accounted_call_os [OF a(2) n]
  show "accounted g V base tid (outcome_state (create_token g os J B h s))"
    using accounted_writes [OF a] accounted_writes [OF a(1) s'] by (simp add: create_token_def n split: option.split sum.split)
qed

lemma accountable_bearer_me:
  fixes g :: "('c, 'db) api_gin" and os :: "'w os_lib"
  shows "accountable g (bearer_auth g os J manager (me g) :: ('c, 'w, 'l, 'r) handler) fails"
proof
  fix V base tid and s :: "('c, 'w, 'l, 'r) http"
  assume g: "gin_ok g" and v: "FErr ` set_option (fails s) \<subseteq> V" and acc: "accounted g V base tid s"
  note a = g acc
  obtain now s' where n: "call_os (os_now os) s = (now, s')" by fastforce
  note s' = accounted_call_os [OF a(2) n]
  have keyed: "accounted g V base tid (on_ctx (gin_set g k v) s')" for k v
    using s' a(1) by (auto simp: accounted_def bodies_def explained_def)
  have "accounted g V base tid (outcome_state (me g t))" if "accounted g V base tid t" for t :: "('c, 'w, 'l, 'r) http"
    using accounted_body(1) [OF a(1) that, of "\<lambda>c. Envelope (success_response (MeRes (auth_subject g c)))" 200]
    by (simp add: me_def write_success_def)
  note me = this [OF keyed]
  show "accounted g V base tid (outcome_state (bearer_auth g os J manager (me g) s))"
    using accounted_writes(5) [OF a, of Unauthorized] accounted_writes(5) [OF a(1) s', of Unauthorized] me
    by (simp add: bearer_auth_def n reject_unauthorized_def [abs_def] split: option.split sum.split)
qed

text \<open>A service that logs what it turns into an error code: \<open>V\<close> has the error it got.\<close>

definition logs_failures :: "field_val set \<Rightarrow> string \<Rightarrow> ('w app \<Rightarrow> (go_error + 'a, 'w app) outcome) \<Rightarrow> 'w app \<Rightarrow> bool" where
  "logs_failures V tid f s \<longleftrightarrow>
     (case f s of
        Returned (Inl e) p \<Rightarrow> \<exists>ec le v. e = Coded ec \<and> app_logs p = app_logs s @ [le] \<and> le_severity le = ''error'' \<and>
          le_trace le = tid \<and> (''error'', v) \<in> set (le_fields le) \<and> v \<in> V
      | Returned (Inr x) p \<Rightarrow> app_logs p = app_logs s
      | Panicked m p \<Rightarrow> app_logs p = app_logs s)"

lemma accounted_call_app:
  assumes g: "gin_ok g" and s: "accounted g V base tid s" and f: "logs_failures V tid f (ht_app s)"
  shows "accounted g V base tid (outcome_state (and_then (call_app f s)
    (\<lambda>res s. case res of Inl err \<Rightarrow> Returned () (on_ctx (write_error g err) s)
                       | Inr x \<Rightarrow> Returned () (on_ctx (write_success g (d x)) s))))"
proof (cases "f (ht_app s)")
  case (Returned res p)
  show ?thesis
  proof (cases res)
    case (Inl e)
    then obtain ec le v where le: "e = Coded ec" "app_logs p = app_logs (ht_app s) @ [le]" "le_severity le = ''error''"
        "le_trace le = tid" "(''error'', v) \<in> set (le_fields le)" "v \<in> V"
      using f Returned by (auto simp: logs_failures_def)
    have "accounted g V base tid (s\<lparr>ht_app := p\<rparr>)" by (rule accounted_logs [OF s]) (simp_all add: le(2))
    moreover have "explained V base tid (s\<lparr>ht_app := p\<rparr>)"
      using s le by (intro explained_now [where s = s and le = le]) (simp_all add: accounted_def)
    ultimately show ?thesis
      using accounted_writes(1) [OF g, of V base tid "s\<lparr>ht_app := p\<rparr>" ec] by (simp add: call_app_def Returned Inl le(1))
  next
    case (Inr x)
    have "accounted g V base tid (s\<lparr>ht_app := p\<rparr>)" by (rule accounted_logs [OF s]) (use f Returned Inr in \<open>simp_all add: logs_failures_def\<close>)
    then show ?thesis using accounted_writes(2) [OF g] by (simp add: call_app_def Returned Inr)
  qed
next
  case (Panicked m p)
  then show ?thesis using f by (auto simp: call_app_def logs_failures_def intro: accounted_logs [OF s])
qed

text \<open>The service over the repository: what it answers as a database error it has logged.\<close>

lemma service_create_logs:
  fixes G :: "('db, 'w) gorm" and s :: "'w app"
  assumes "\<And>err ex p. repo_create G r c (new_example name) s = Returned (Some err, ex) p \<Longrightarrow> FErr err \<in> V"
  shows "logs_failures V (trace_id_from c)
    (svc_create (new_example_service (Some (repository_value G r)) qs :: ('db, 'i, 'w) example_service) c name) s"
  using rp.create_quiet [of G r c "new_example name" s] assms
  by (cases "repo_create G r c (new_example name) s")
     (auto simp: logs_failures_def svc_create_def new_example_service_def repository_value_def ctx_log_def split: option.splits)

lemma service_list_logs:
  fixes G :: "('db, 'w) gorm" and s :: "'w app"
  assumes "\<And>err p. repo_list G r c (if limit = 0 then 20 else limit) offset s = Returned (Inl err) p \<Longrightarrow> FErr err \<in> V"
  shows "logs_failures V (trace_id_from c)
    (svc_list (new_example_service (Some (repository_value G r)) qs :: ('db, 'i, 'w) example_service) c limit offset) s"
  using rp.list_quiet [of G r c "if limit = 0 then 20 else limit" offset s] assms
  by (cases "repo_list G r c (if limit = 0 then 20 else limit) offset s")
     (auto simp: logs_failures_def svc_list_def new_example_service_def repository_value_def ctx_log_def Let_def split: sum.splits)

lemma service_enqueue_logs:
  assumes "svc_queue svc = Some q"
  shows "case svc_enqueue_task svc c name s of
     (Inl e, p) \<Rightarrow> e = Coded QueueUnavailable \<and> p = s \<or>
       (\<exists>le err. e = Coded QueueError \<and> app_logs p = app_logs s @ [le] \<and> le_severity le = ''error'' \<and>
         le_trace le = trace_id_from c \<and> (''error'', FErr err) \<in> set (le_fields le) \<and>
         (case new_example_task name [trace_id_from c] of
            Inl err' \<Rightarrow> err = err' | Inr t \<Rightarrow> fst (qi_enqueue q c (Some t) [] (app_world s)) = Inl err))
   | (Inr b, p) \<Rightarrow> app_logs p = app_logs s"
  using assms by (auto simp: svc_enqueue_task_def ctx_log_def call_world_def split: option.split sum.split prod.split)

abbreviation stored_examples ::
    "('db, 'w) gorm \<Rightarrow> 'db example_repo \<Rightarrow> ('db, 'i, 'w) queue_iface option list \<Rightarrow> ('db, 'i, 'w) example_handler" where
  "stored_examples G r qs \<equiv> new_example_handler (new_example_service (Some (repository_value G r)) qs)"

lemma accounted_trace: "accounted g V base tid s \<Longrightarrow> trace_id_from (Some (gin_req_ctx g (ht_ctx s))) = tid"
  by (simp add: accounted_def)

lemma accountable_example_create:
  fixes g :: "('c, 'db) api_gin" and G :: "('db, 'w) gorm"
  shows "accountable g (example_create g B (stored_examples G r qs) :: ('c, 'w, 'l, 'r) handler) (create_fails g B G r)"
proof
  fix V base tid and s :: "('c, 'w, 'l, 'r) http"
  assume g: "gin_ok g" and v: "FErr ` set_option (create_fails g B G r s) \<subseteq> V" and acc: "accounted g V base tid s"
  note a = g acc
  show "accounted g V base tid (outcome_state (example_create g B (stored_examples G r qs) s))"
  proof (cases "bind_string B ''name'' (ht_ctx s)")
    case (Inl err)
    then show ?thesis using accounted_writes(3) [OF a] by (simp add: example_create_def)
  next
    case (Inr name)
    have "logs_failures V (trace_id_from (Some (gin_req_ctx g (ht_ctx s))))
        (svc_create (new_example_service (Some (repository_value G r)) qs) (Some (gin_req_ctx g (ht_ctx s))) name) (ht_app s)"
      using v Inr by (intro service_create_logs) (simp add: create_fails_def)
    from accounted_call_app [OF a this [unfolded accounted_trace [OF acc]], of ExampleRes]
    show ?thesis by (simp add: example_create_def new_example_handler_def Inr)
  qed
qed

lemma accountable_example_list:
  fixes g :: "('c, 'db) api_gin" and G :: "('db, 'w) gorm"
  shows "accountable g (example_list g B (stored_examples G r qs) :: ('c, 'w, 'l, 'r) handler) (list_fails g B G r)"
proof
  fix V base tid and s :: "('c, 'w, 'l, 'r) http"
  assume g: "gin_ok g" and v: "FErr ` set_option (list_fails g B G r s) \<subseteq> V" and acc: "accounted g V base tid s"
  note a = g acc
  show "accounted g V base tid (outcome_state (example_list g B (stored_examples G r qs) s))"
  proof (cases "bind_list B (ht_ctx s)")
    case (Inl err)
    then show ?thesis using accounted_writes(3) [OF a] by (simp add: example_list_def)
  next
    case (Inr lk)
    have "logs_failures V (trace_id_from (Some (gin_req_ctx g (ht_ctx s))))
        (svc_list (new_example_service (Some (repository_value G r)) qs) (Some (gin_req_ctx g (ht_ctx s))) (fst lk) (snd lk)) (ht_app s)"
      using v Inr by (intro service_list_logs) (simp add: list_fails_def split_beta)
    from accounted_call_app [OF a this [unfolded accounted_trace [OF acc]], of ListRes]
    show ?thesis by (cases lk) (simp add: example_list_def new_example_handler_def Inr)
  qed
qed

lemma accountable_enqueue:
  fixes g :: "('c, 'db) api_gin"
  assumes q: "svc_queue (eh_svc h) = Some q"
  shows "accountable g (example_enqueue_task g B h :: ('c, 'w, 'l, 'r) handler) (enqueue_fails g B q)"
proof
  fix V base tid and s :: "('c, 'w, 'l, 'r) http"
  assume g: "gin_ok g" and v: "FErr ` set_option (enqueue_fails g B q s) \<subseteq> V" and acc: "accounted g V base tid s"
  show "accounted g V base tid (outcome_state (example_enqueue_task g B h s))"
  proof (cases "bind_string B ''name'' (ht_ctx s)")
    case (Inl err)
    then show ?thesis using accounted_writes(3) [OF g acc] by (simp add: example_enqueue_task_def)
  next
    case (Inr name)
    obtain res p where r: "svc_enqueue_task (eh_svc h) (Some (gin_req_ctx g (ht_ctx s))) name (ht_app s) = (res, p)" by fastforce
    note logs = service_enqueue_logs [OF q, where c = "Some (gin_req_ctx g (ht_ctx s))" and name = name and s = "ht_app s", unfolded r prod.case]
    have "accounted g V base tid (s\<lparr>ht_app := p\<rparr>)"
      using logs by (intro accounted_logs [OF acc]) (auto split: sum.splits)
    note w = accounted_writes(1,2) [OF g this]
    have "explained V base tid (s\<lparr>ht_app := p\<rparr>)" if res: "res = Inl (Coded QueueError)"
    proof -
      obtain le err where le: "app_logs p = app_logs (ht_app s) @ [le]" "le_severity le = ''error''"
          "le_trace le = tid" "(''error'', FErr err) \<in> set (le_fields le)"
          "case new_example_task name [tid] of
             Inl err' \<Rightarrow> err = err' | Inr t \<Rightarrow> fst (qi_enqueue q (Some (gin_req_ctx g (ht_ctx s))) (Some t) [] (app_world (ht_app s))) = Inl err"
        using logs res accounted_trace [OF acc] by (auto simp: errcode_defs)
      have "enqueue_fails g B q s = Some err"
        using le(5) Inr accounted_trace [OF acc] by (auto simp: enqueue_fails_def Let_def split: sum.splits)
      then show ?thesis using le v acc by (intro explained_now [where s = s and le = le and v = "FErr err"]) (auto simp: accounted_def)
    qed
    then show ?thesis using w logs by (auto simp: example_enqueue_task_def Inr r split: sum.splits)
  qed
qed

lemma health_logs: "app_logs (ht_app (outcome_state (health g os D L h s))) = app_logs (ht_app s)"
  by (auto simp: health_def Let_def split: option.split prod.split dest!: call_os_ctx)

lemma accountable_health:
  fixes g :: "('c, 'db) api_gin"
  shows "accountable g (health g os D L h :: ('c, 'w, 'l, 'r) handler) fails"
proof
  fix V base tid and s :: "('c, 'w, 'l, 'r) http"
  assume g: "gin_ok g" and v: "FErr ` set_option (fails s) \<subseteq> V" and acc: "accounted g V base tid s"
  note a = g acc
  obtain s' st x y where h: "health g os D L h s = Returned () (on_ctx (gin_json g st (HealthReport x y)) s')" "ht_ctx s' = ht_ctx s"
    using health_json by metis
  have "accounted g V base tid s'"
    using health_logs [of g os D L h s] by (intro accounted_logs [OF a(2) h(2)]) (simp add: h(1))
  then show "accounted g V base tid (outcome_state (health g os D L h s))" using accounted_writes(6) [OF a(1)] by (simp add: h(1))
qed

interpretation ac_token: accountable g "create_token g os J B h" fails for g os J B h fails
  by (rule accountable_create_token)

interpretation ac_me: accountable g "bearer_auth g os J manager (me g)" fails for g os J manager fails
  by (rule accountable_bearer_me)

interpretation ac_create: accountable g "example_create g B (stored_examples G r qs)" "create_fails g B G r" for g B G r qs
  by (rule accountable_example_create)

interpretation ac_list: accountable g "example_list g B (stored_examples G r qs)" "list_fails g B G r" for g B G r qs
  by (rule accountable_example_list)

interpretation ac_enqueue: accountable g "example_enqueue_task g B (new_example_handler (new_example_service repo [Some q]))"
  "enqueue_fails g B q" for g B repo q
  by (rule accountable_enqueue) (simp add: new_example_handler_def new_example_service_def)

interpretation ac_health: accountable g "health g os D L h" fails for g os D L h fails
  by (rule accountable_health)

section \<open>The server\<close>

lemma route_accountable:
  assumes "new_server X p (Some reg) = Inr sv" and "r \<in> set (en_routes (sv_engine sv))"
  shows "accountable (lib_gin X) (run_chain (rt_middleware r) (rt_handler r)) (operation_fails X reg r)"
proof -
  obtain cfg where ne: "new_engine X p reg cfg (new_http_handlers X reg) (sv_rate_limiter sv) = Inr (sv_engine sv)"
    using new_server_engine [OF assms(1)] by (metis option.inject)
  have ex: "hs_example (new_http_handlers X reg) =
      stored_examples (lib_gorm X) (new_example_repository (dm_db (reg_db reg)))
        [Some (queue_value (aq_enqueue (lib_asynq X)) (reg_queue reg))]"
    by (simp add: new_http_handlers_def Let_def)
  show ?thesis
    by (rule route_cases [OF ne assms(2)])
       (simp_all add: ex operation_fails_def accountable_create_token accountable_bearer_me accountable_health
         ac_create.accountable_axioms ac_list.accountable_axioms ac_enqueue.accountable_axioms)
qed

text \<open>What the limiter does with a request: it answers, or hands it on as it is.\<close>

lemma limiter_passes:
  fixes s :: "('c, 'w, 'l, 'r) http"
  obtains (passed) t where "run_chain (limiter_mw X sv) h s = h t" "ht_ctx t = ht_ctx s" "app_logs (ht_app t) = app_logs (ht_app s)"
  | (answered) t where "ht_ctx t = ht_ctx s" "run_chain (limiter_mw X sv) h s =
      Returned () (on_ctx (\<lambda>c. gin_abort_json (lib_gin X) 200 (Envelope (error_response (lib_gin X) c TooManyRequests)) c) t)"
proof (cases "sv_rate_limiter sv = None \<or> ht_limiter s = None")
  case True
  then have "run_chain (limiter_mw X sv) h s = h s" by (auto simp: limiter_mw_def rate_limit_middleware_def)
  then show ?thesis by (rule passed) simp_all
next
  case False
  then obtain l where l: "ht_limiter s = Some l" by blast
  obtain now s1 where 1: "call_os (os_now (lib_os X)) s = (now, s1)" by fastforce
  obtain now' s2 where 2: "call_os (os_now (lib_os X)) s1 = (now', s2)" by fastforce
  obtain ok l' where 3: "allow (lib_rate X) (gin_client_ip (lib_gin X) (ht_ctx s2)) now now' l = (ok, l')" by fastforce
  note c = call_os_ctx [OF 1] call_os_ctx [OF 2]
  show ?thesis
  proof (cases ok)
    case True
    show ?thesis
      by (rule passed [of "s2\<lparr>ht_limiter := Some l'\<rparr>"])
         (use False l 3 True c in \<open>simp_all add: limiter_mw_def rate_limit_middleware_def 1 2 Let_def\<close>)
  next
    case no: False
    show ?thesis
      by (rule answered [of "s2\<lparr>ht_limiter := Some l'\<rparr>"])
         (use False l 3 no c in \<open>simp_all add: limiter_mw_def rate_limit_middleware_def 1 2 Let_def\<close>)
  qed
qed

lemma respond_accounted:
  fixes out :: "(unit, ('c, 'w, 'l, 'r) http) outcome"
  assumes g: "gin_ok g" and s: "accounted g V base tid (outcome_state out)" and r: "respond g os cfg start out = Returned () s'"
    and v: "\<And>m t. out = Panicked m t \<Longrightarrow> FStr m \<in> V"
  shows "accounted g V base tid s'"
proof -
  have audit: "accounted g V base tid t'" if "accounted g V base tid t"
      "trace_post g os a x start (Returned () t) = Returned () t'" for a x and t t' :: "('c, 'w, 'l, 'r) http"
    using trace_post_Returned [of g os a x start t] that(2) by (auto intro!: accounted_logs [OF that(1)])
  show ?thesis
  proof (cases out)
    case (Returned u t)
    then show ?thesis using s r audit by (auto simp: respond_def recover_simps)
  next
    case (Panicked m t)
    obtain stack t1 where n: "call_os (os_stack os) t = (stack, t1)" by fastforce
    define t2 where "t2 = on_app (add_log (ctx_log (Some (gin_req_ctx g (ht_ctx t1))) ''error'' ''panic recovered''
       [(''method'', FStr (gin_method g (ht_ctx t1))), (''path'', FStr (gin_path g (ht_ctx t1))),
        (''error'', FStr m), (''stacktrace'', FStr stack)])) t1"
    have t1: "accounted g V base tid t1" using accounted_call_os [OF _ n] s Panicked by simp
    then have t2: "accounted g V base tid t2" by (rule accounted_logs) (simp_all add: t2_def)
    have "explained V base tid t2"
      by (rule explained_now [where s = t1 and v = "FStr m", OF _ _ _ _ _ v [OF Panicked]])
         (use t1 in \<open>auto simp: t2_def accounted_def ctx_log_def\<close>)
    note answer = accounted_writes(5) [OF g t2 disjI2 [OF this], of 200 InternalError]
    show ?thesis
      by (rule audit [OF answer]) (use r in \<open>simp add: respond_def recover_def recovery_def Panicked n Let_def t2_def\<close>)
  qed
qed

text \<open>An answer that blames the server is not the limiter's.\<close>

lemma not_refused:
  fixes s t :: "('c, 'w, 'l, 'r) http"
  assumes "gin_ok g" and "bodies g s = []" and "ht_ctx t = ht_ctx s"
    and "Returned () s' = respond g os cfg start out"
    and "gin_bodies g (ht_ctx s') = [Envelope e]" and "rsp_reason e \<in> {''INTERNAL_ERROR'', ''DATABASE_ERROR'', ''QUEUE_ERROR''}"
  shows "out \<noteq> Returned () (on_ctx (\<lambda>c. gin_abort_json g 200 (Envelope (error_response g c TooManyRequests)) c) t)"
proof
  assume out: "out = Returned () (on_ctx (\<lambda>c. gin_abort_json g 200 (Envelope (error_response g c TooManyRequests)) c) t)"
  have "ht_ctx s' = gin_abort_json g 200 (Envelope (error_response g (ht_ctx t) TooManyRequests)) (ht_ctx t)"
    using respond_Returned [of g os cfg start "on_ctx (\<lambda>c. gin_abort_json g 200 (Envelope (error_response g c TooManyRequests)) c) t"]
      assms(4) unfolding out by auto
  then have "e = error_response g (ht_ctx t) TooManyRequests"
    using assms(1-3,5) by (simp add: bodies_def)
  then show False using assms(6) by (simp add: error_response_def errcode_defs Let_def)
qed

section \<open>Properties\<close>

text \<open>
  C10. The log explains every failure the client sees: whatever the request for a route of the assembled
  server, when the answer is INTERNAL_ERROR, DATABASE_ERROR or QUEUE_ERROR, this request has added an
  entry of level error to the log that has the trace id the client got, in the envelope and in the
  X-Request-ID header, and the cause: in the state \<open>t\<close> in which the middleware handed the request on, the
  route panicked with what the entry has, or the repository or the queue returned the very error it has.
\<close>

theorem failures_are_logged:
  fixes X :: "('c, 'db, 'sql, 'k, 'q, 'i, 'w, 'l, 'r) libs"
  assumes "gin_ok (lib_gin X)" and "uuid_ok (lib_os X)" and "new_server X p (Some reg) = Inr sv" and "reg_cfg reg = Some cfg"
    and "find_route (sv_engine sv) (gin_method (lib_gin X) (ht_ctx s)) (gin_path (lib_gin X) (ht_ctx s)) = Some r"
    and "gin_bodies (lib_gin X) (ht_ctx s) = []"
    and "serve (lib_gin X) no_route (sv_engine sv) s = Returned () s'"
    and "gin_bodies (lib_gin X) (ht_ctx s') = [Envelope e]" and "rsp_data e = None"
    and "rsp_reason e \<in> {''INTERNAL_ERROR'', ''DATABASE_ERROR'', ''QUEUE_ERROR''}"
  shows "\<exists>start t new le v.
     serve (lib_gin X) no_route (sv_engine sv) s =
       respond (lib_gin X) (lib_os X) cfg start (run_chain (rt_middleware r) (rt_handler r) t) \<and>
     app_logs (ht_app t) = app_logs (ht_app s) \<and> app_logs (ht_app s') = app_logs (ht_app s) @ new \<and> le \<in> set new \<and>
     le_severity le = ''error'' \<and> (''error'', v) \<in> set (le_fields le) \<and>
     ((\<exists>m t'. run_chain (rt_middleware r) (rt_handler r) t = Panicked m t' \<and> v = FStr m) \<or>
      (\<exists>err. operation_fails X reg r t = Some err \<and> v = FErr err)) \<and>
     rsp_metadata e = [(''trace_id'', le_trace le)] \<and>
     gin_resp_header (lib_gin X) (ht_ctx s') ''X-Request-ID'' = Some (le_trace le)"
proof -
  let ?g = "lib_gin X" and ?e = "sv_engine sv" and ?base = "app_logs (ht_app s)"
  let ?route = "run_chain (rt_middleware r) (rt_handler r)"
  have r: "r \<in> set (en_routes ?e)" "rt_method r = gin_method ?g (ht_ctx s)" using find_route_set [OF assms(5)] by auto
  have m: "gin_method ?g (ht_ctx s) \<noteq> ''OPTIONS''"
    using new_server_ok [OF assms(1,3)] r by (auto simp: engine_ok_def list_all_iff)
  obtain tid start s1 where d:
      "\<And>h. run_chain (en_middleware ?e) h s = respond ?g (lib_os X) cfg start (run_chain (limiter_mw X sv) h s1)"
      "traced ?g tid (ht_limiter s) s1" "bodies ?g s1 = []" "trace_id_from (Some (gin_req_ctx ?g (ht_ctx s1))) = tid"
      "app_logs (ht_app s1) = ?base"
    by (rule down_to_route [OF assms(1-4) m assms(6)]) (rule that)
  have serve: "serve ?g no_route ?e s = respond ?g (lib_os X) cfg start (run_chain (limiter_mw X sv) ?route s1)"
    using assms(5) by (simp add: serve_def d(1))
  obtain l' where "traced ?g tid l' (outcome_state (run_chain (limiter_mw X sv) ?route s1))"
    using limiter_keeps [OF assms(1) d(2), where h = ?route and sv = sv] route_keeps [OF assms(1,3) r(1)] by blast
  then have tr: "traced ?g tid l' s'" using respond_traced [OF assms(1)] serve assms(7) by metis
  obtain t where t: "run_chain (limiter_mw X sv) ?route s1 = ?route t" "ht_ctx t = ht_ctx s1"
      "app_logs (ht_app t) = app_logs (ht_app s1)"
    by (rule limiter_passes [of X sv ?route s1])
       (use not_refused [OF assms(1) d(3) _ serve [unfolded assms(7)] assms(8,10)] in blast)+
  define V where "V = FErr ` set_option (operation_fails X reg r t) \<union> {FStr m |m. \<exists>t'. ?route t = Panicked m t'}"
  have "accounted ?g V ?base tid t" using d(3-5) t(2,3) by (simp add: accounted_def bodies_def)
  then have "accounted ?g V ?base tid (outcome_state (?route t))"
    by (rule accountable.keeps [OF route_accountable [OF assms(3) r(1)] assms(1), rotated]) (simp add: V_def)
  then have "accounted ?g V ?base tid s'"
    by (rule respond_accounted [OF assms(1)]) (use serve assms(7) t(1) in \<open>auto simp: V_def\<close>)
  then have "explained V ?base tid s'" using assms(8-10) by (auto simp: accounted_def bodies_def fault_def)
  then obtain new le v where "app_logs (ht_app s') = ?base @ new" "le \<in> set new" "le_severity le = ''error''"
      "le_trace le = tid" "v \<in> V" "(''error'', v) \<in> set (le_fields le)"
    unfolding explained_def by blast
  moreover from this(5) have "(\<exists>m t'. ?route t = Panicked m t' \<and> v = FStr m) \<or>
      (\<exists>err. operation_fails X reg r t = Some err \<and> v = FErr err)" by (auto simp: V_def)
  moreover have "rsp_metadata e = [(''trace_id'', tid)]" "gin_resp_header ?g (ht_ctx s') ''X-Request-ID'' = Some tid"
    using tr assms(8,9) by (auto simp: traced_def bodies_def)
  moreover have "serve ?g no_route ?e s = respond ?g (lib_os X) cfg start (?route t)" "app_logs (ht_app t) = ?base"
    using serve t(1,3) d(5) by simp_all
  ultimately show ?thesis by blast
qed

section \<open>The property at work\<close>

text \<open>The database of \<open>ExampleFlow\<close> refuses a row that is not named demo.\<close>

theorem failures_are_logged_witness:
  "\<exists>s' e le. serve (lib_gin demo_libs) sample_no_route (sv_engine demo_server)
       (sample_state 2 None ''POST'' ''/api/v1/examples'' [(''name'', ''other'')]) = Returned () s' \<and>
     gin_bodies (lib_gin demo_libs) (ht_ctx s') = [Envelope e] \<and> rsp_reason e = ''DATABASE_ERROR'' \<and>
     le \<in> set (app_logs (ht_app s')) \<and> le_severity le = ''error'' \<and> (''error'', FErr (Foreign ''refused'')) \<in> set (le_fields le) \<and>
     rsp_metadata e = [(''trace_id'', le_trace le)]"
proof -
  let ?s = "sample_state 2 None ''POST'' ''/api/v1/examples'' [(''name'', ''other'')]"
  have b: "bind_string (lib_binding demo_libs) ''name'' (ht_ctx ?s) = Inr ''other''"
    by (simp add: sample_libs_def demo_binding_def sample_state_def sample_request_def) code_simp
  have refused: "\<exists>err. res = Inl err"
    if "svc_create (server_service demo_libs sample_registry) (Some c) ''other'' p = Returned res p'"
      "tx_from_context (Some c) = None" for c p res p'
    using that by (auto simp: svc_create_def server_service_def new_example_service_def repository_value_def repo_create_def
        new_example_repository_def db_from_context_def call_world_def sample_registry_def dm_db_def demo_gorm_def new_example_def)
  obtain s' tid where s': "serve (lib_gin demo_libs) sample_no_route (sv_engine demo_server) ?s = Returned () s'"
      "gin_bodies (lib_gin demo_libs) (ht_ctx s') = [Envelope (error_envelope DatabaseError tid)]"
    by (rule create_request_run [OF demo_facts(1-3) demo_server_new demo_facts(8,9) _ _ _ _ demo_request(1) b demo_facts(7),
          where no_route = sample_no_route])
       (auto simp: sample_state_simps dest!: refused)
  obtain r where r: "find_route (sv_engine demo_server) ''POST'' ''/api/v1/examples'' = Some r" "rt_middleware r = []"
      "rt_handler r = example_create (lib_gin demo_libs) (lib_binding demo_libs) (hs_example (new_http_handlers demo_libs sample_registry))"
    by (rule example_routes [OF demo_server_new]) (rule that)
  have path: "rt_method r = ''POST''" "rt_path r = ''/api/v1/examples''" using find_route_set [OF r(1)] by simp_all
  have cause: "v = FErr (Foreign ''refused'')"
    if "(\<exists>m t'. run_chain (rt_middleware r) (rt_handler r) t = Panicked m t' \<and> v = FStr m) \<or>
      (\<exists>err. operation_fails demo_libs sample_registry r t = Some err \<and> v = FErr err)" for t v
    using that
    by (auto simp: r(2,3) path operation_fails_def create_fails_def example_create_def svc_create_def server_handler server_service_def
        new_example_service_def repository_value_def repo_create_def new_example_repository_def db_from_context_def call_world_def
        call_app_def sample_registry_def dm_db_def demo_gorm_def Let_def split: sum.splits option.splits prod.splits if_splits)
  define e :: "api_data response" where "e = error_envelope DatabaseError tid"
  have e: "rsp_data e = None" "rsp_reason e = ''DATABASE_ERROR''"
      "rsp_reason e \<in> {''INTERNAL_ERROR'', ''DATABASE_ERROR'', ''QUEUE_ERROR''}"
    by (simp_all add: e_def error_envelope_def errcode_defs)
  have f: "find_route (sv_engine demo_server) (gin_method (lib_gin demo_libs) (ht_ctx ?s)) (gin_path (lib_gin demo_libs) (ht_ctx ?s)) = Some r"
      "gin_bodies (lib_gin demo_libs) (ht_ctx ?s) = []"
    using r(1) by (simp_all add: sample_state_simps)
  obtain new le v t where le: "app_logs (ht_app s') = app_logs (ht_app ?s) @ new" "le \<in> set new" "le_severity le = ''error''"
      "(''error'', v) \<in> set (le_fields le)" "rsp_metadata e = [(''trace_id'', le_trace le)]"
      "(\<exists>m t'. run_chain (rt_middleware r) (rt_handler r) t = Panicked m t' \<and> v = FStr m) \<or>
       (\<exists>err. operation_fails demo_libs sample_registry r t = Some err \<and> v = FErr err)"
    using failures_are_logged [OF demo_facts(1,2) demo_server_new demo_facts(8) f s' [folded e_def] e(1,3)] by blast
  show ?thesis using s' [folded e_def] e(2) le(1-5) cause [OF le(6)]
    by (intro exI [of _ s'] exI [of _ e] exI [of _ le]) simp
qed

end
