(* ===== verification/Spec2Isabelle.thy ===== *)
theory Spec2Isabelle
  imports ExampleFlow Processes LimiterThreads Startup Session Accountability
begin

text \<open>
  A model of ginblade, a starter for a web API (Gin) and an asynchronous worker (asynq) in Go, with
  the properties that make its parts and their composition correct.

  \<^bold>\<open>The program and its model.\<close> Three programs (\<open>cmd/api\<close>, \<open>cmd/worker\<close>, \<open>cmd/migrate\<close>) read a
  configuration, build a registry of resources and assemble a server or a worker from it. Each part
  is a theory, named after what it models; definitions keep the names of the code in snake case.

  \<^item> \<open>Prelude\<close>, \<open>GoStd\<close>: strings as bytes, \<open>strings\<close>, \<open>strconv.Atoi\<close>, \<open>ParseBool\<close>,
    \<open>time.ParseDuration\<close> and \<open>Duration.String\<close>, as far as the program uses them.
  \<^item> \<open>Config\<close>: \<open>config/\<close>. \<open>load\<close> and \<open>load_env\<close> over an environment, a map of strings.
  \<^item> \<open>Errcode\<close>: \<open>internal/errcode\<close> and \<open>pkg/validator\<close>. \<open>go_error\<close> is Go's error value, with
    wrapping, \<open>errors.Is\<close>, \<open>errors.As\<close> and \<open>errors.Join\<close>.
  \<^item> \<open>Logging\<close>: \<open>pkg/log\<close>. Trace ids in contexts, and the global logger, which \<open>Init\<close> and
    \<open>SetLogger\<close> replace. A log entry is a value; the state of a program collects them.
  \<^item> \<open>Effects\<close>: the state \<open>app\<close> of a running program, the outside world \<open>app_world\<close> and what was logged,
    and \<open>outcome\<close>: a Go call returns or panics, in either case with the state it left.
  \<^item> \<open>Json\<close>, \<open>Task\<close>, \<open>TaskQueue\<close>: \<open>encoding/json\<close> for payloads, \<open>internal/task\<close>, \<open>internal/taskqueue\<close>.
  \<^item> \<open>Repository\<close>, \<open>Service\<close>: \<open>internal/model\<close>, \<open>internal/repository\<close>, \<open>internal/service\<close>. The
    transaction travels in the context, as in the code.
  \<^item> \<open>Worker\<close>: \<open>internal/worker\<close>. The retry delay is computed on \<open>64 word\<close>, where Go wraps.
  \<^item> \<open>Auth\<close>, \<open>Infra\<close>: \<open>pkg/auth\<close>; \<open>pkg/cache\<close> and \<open>pkg/database\<close>.
  \<^item> \<open>Gin\<close>, \<open>Http\<close>, \<open>Response\<close>, \<open>RateLimit\<close>, \<open>Middleware\<close>, \<open>Handlers\<close>: a request. Its state \<open>http\<close> is the
    Gin context, the program's state and the rate limiter; a middleware takes what \<open>c.Next()\<close> runs.
  \<^item> \<open>Bootstrap\<close>, \<open>Resources\<close>: \<open>internal/bootstrap\<close>, and the connections it opens and closes.
  \<^item> \<open>Server\<close>, \<open>Tracing\<close>, \<open>Pipeline\<close>: \<open>internal/router\<close>, \<open>internal/server.go\<close> and the assembly of
    \<open>internal/worker.go\<close>; \<open>serve\<close> runs a request through the engine \<open>NewServer\<close> builds.
  \<^item> \<open>TaskFlow\<close>, \<open>ExampleFlow\<close>: from the request that queues a task to the assembled worker that runs
    it; from the requests that create and list examples to the rows of the database and back.
  \<^item> \<open>Catalogue\<close>, \<open>Session\<close>: which errors of \<open>internal/errcode\<close> each route of the assembled server
    can answer; runs of it, requests one after the other with the cleanup of the limiter in between.
  \<^item> \<open>Accountability\<close>: which answers blame the server, and the log entries that explain them.
  \<^item> \<open>LimiterThreads\<close>: the limiter again, with its mutex: requests, the goroutine of \<open>cleanupLoop\<close> with
    its loop over the map, \<open>Stop\<close> and the clock as a step relation over the operations of \<open>RateLimit\<close>.
  \<^item> \<open>Startup\<close>: what \<open>NewServer\<close> and \<open>NewWorker\<close> make of the registry \<open>bootstrap\<close> hands over.
  \<^item> \<open>Lifecycle\<close>, \<open>Processes\<close>: running and stopping, the three \<open>main\<close> functions, and the goroutines of
    the two processes as step relations, in which every interleaving is a run.

  \<^bold>\<open>Interfaces.\<close> What one component relies on in another is a locale, interpreted on the model's own
  definitions: \<open>quiet_repository\<close> and \<open>example_queue\<close> (what the service needs), \<open>http_middleware\<close> and
  \<open>route_handler\<close> (every middleware and handler: one answer, no lost context, panics only where
  recovery sees them), \<open>traced_handler\<close> (error envelopes name the trace id), \<open>catalogued\<close> (the errors
  a handler may answer), \<open>accountable\<close> (failures it answers are in the log), \<open>http_lifecycle\<close> (what a shutdown
  may rely on), \<open>ending_steps\<close> (runs that end).

  \<^bold>\<open>Code that is not in the repository\<close> is a parameter: a record of functions, and where a property
  rests on its behaviour a named predicate that states the documented law. \<open>gin_ok\<close>: what Gin's context
  stores, it returns, and writing appends one body; \<open>uuid_ok\<close>: UUIDs are not empty; \<open>jwt_ok\<close>: what is
  signed parses with the same secret within its times, and nothing else does; \<open>binding_stable\<close>: binding
  reads the request alone, and \<open>binding_ok\<close>: what it gives satisfies the tags of the request structs;
  \<open>os_quiet\<close>: reading the clock or making an id does not touch the database; \<open>rate_ok\<close>: a token bucket that
  was asked at times that do not go back gives, a minute after its last use, the verdicts of a new one;
  those of GORM: a transaction that fails or panics leaves the database as it was, a query reads the rows
  in order; those of Redis: a get returns what was set; \<open>db_counts\<close>, \<open>redis_counts\<close>, \<open>asynq_counts\<close>,
  \<open>env_counts\<close>: which calls open or close a connection. Each property with such a law has a witness in
  which a concrete library satisfies it.

  \<^bold>\<open>What the properties show.\<close> Of requests (\<open>Pipeline\<close>, \<open>TaskFlow\<close>, \<open>ExampleFlow\<close>, \<open>Catalogue\<close>,
  \<open>Accountability\<close>, this theory): they are answered exactly once, panics included; tokens open the protected route and nothing else does; the limiter decides before the
  route and preflights never reach either; every error names the trace id of its request and is one of those known for
  its route, every failure of the server is in the log under that id, with its cause, and a queued task runs under it; what one request creates the next one lists first. Of data: round
  trips of tokens, tasks and cache entries; well-formed configuration; usable pools; complete
  paging; transactions all or nothing, joined when nested. Of the limiter: under concurrency it is linearizable and refines one
  bucket per address, also through the whole server (\<open>Session\<close>), forgets invisibly, keeps only recent
  addresses, and its lock is never stuck. Of processes: what is opened is closed when
  \<open>main\<close> returns, a signal ends the API in every interleaving, with the results of the sequential
  \<open>shutdownWebServer\<close> and no others, \<open>Worker.Run\<close> waits for nothing but asynq's server once its context is done, and after \<open>bootstrap\<close>
  only the trusted proxies can keep a process from being assembled. And where the code does less than it means to: the retry delay that overflows, the race of
  two \<open>Stop\<close> calls, the connections a failed start leaves open.

  \<^bold>\<open>Bounds.\<close> Go's \<open>int\<close> and durations are \<open>int\<close> where the code cannot leave the 64 bits (\<open>Load\<close> yields
  values in range, by \<open>Config.load_wf\<close>), and \<open>64 word\<close> in the retry delay, where it can. The JSON parser
  takes fuel in proportion to its input, which \<open>Json.parse_fuel_enough\<close> shows to be enough.

  \<^bold>\<open>Not modelled.\<close> The insides of Gin (redirects of trailing slashes, request binding and validation),
  GORM, go-redis, asynq, zap's encoders and the JWT cryptography; the empty function
  \<open>InitValidator\<close>; the field \<open>Handlers\<close> of the server, which nothing reads after the
  construction. A request is served as one function, its operations on the limiter atomic: they
  linearize by \<open>LimiterThreads.requests_linearize\<close>, and requests share nothing else in the process. The
  places where goroutines meet, the limiter, its concurrent \<open>Stop\<close> calls and the shutdown, are step relations. When asynq's \<open>Run\<close> returns is left open: it documents to block until
  the process gets a signal, so no property has it return. Inside \<open>main\<close> the network, the scheduler and the signals act
  through functions on the outside world.
\<close>

section \<open>Properties that span components\<close>

text \<open>
  C1. Signing in works: the token the client gets for a subject from \<open>POST /api/v1/auth/token\<close>
  opens \<open>GET /api/v1/auth/me\<close>, raw or after the word Bearer, and shows this subject, from then
  until the configured time to live is over (to the second; never, when it is 0 or less); after
  that the answer is UNAUTHORIZED. Both requests are served by the assembled server, the second
  in whatever state of the outside, with the limiter off.
\<close>

theorem login_opens_me:
  fixes X :: "('c, 'db, 'sql, 'k, 'q, 'i, 'w, 'l, 'r) libs"
  assumes laws: "gin_ok (lib_gin X)" "uuid_ok (lib_os X)" "jwt_ok (lib_jwt X)" "binding_stable (lib_gin X) (lib_binding X)"
    and server: "new_server X p (Some reg) = Inr sv" "reg_cfg reg = Some cfg" "reg_auth reg = Some m" "valid_utf8 (jm_issuer m)"
    and login: "gin_method (lib_gin X) (ht_ctx s1) = ''POST''" "gin_path (lib_gin X) (ht_ctx s1) = ''/api/v1/auth/token''"
      "gin_bodies (lib_gin X) (ht_ctx s1) = []" "ht_limiter s1 = None"
      "bind_string (lib_binding X) ''subject'' (ht_ctx s1) = Inr subject" "valid_utf8 (trim_space subject)"
      "serve (lib_gin X) no_route (sv_engine sv) s1 = Returned () s1'"
      "gin_bodies (lib_gin X) (ht_ctx s1') = [Envelope e]" "rsp_data e = Some (TokenRes tok kind)"
    and later: "gin_method (lib_gin X) (ht_ctx s2) = ''GET''" "gin_path (lib_gin X) (ht_ctx s2) = ''/api/v1/auth/me''"
      "gin_bodies (lib_gin X) (ht_ctx s2) = []" "ht_limiter s2 = None"
      "presents (gin_get_header (lib_gin X) (ht_ctx s2) ''Authorization'') tok"
    and times: "t1 = fst (os_now (lib_os X) (route_world X cfg s1))" "t2 = fst (os_now (lib_os X) (route_world X cfg s2))" "t1 \<le> t2"
  shows "\<exists>s2' tid. serve (lib_gin X) no_route (sv_engine sv) s2 = Returned () s2' \<and>
     (jm_ttl m \<le> 0 \<or> t2 < (t1 + jm_ttl m) div second * second \<longrightarrow>
        gin_bodies (lib_gin X) (ht_ctx s2') = [Envelope (success_response (MeRes (trim_space subject)))]) \<and>
     (0 < jm_ttl m \<and> t1 + jm_ttl m \<le> t2 \<longrightarrow>
        gin_bodies (lib_gin X) (ht_ctx s2') = [Envelope (unauthorized_envelope tid)])"
proof -
  let ?J = "lib_jwt X" and ?hdr = "gin_get_header (lib_gin X) (ht_ctx s2) ''Authorization''"
  have gen: "generate_token ?J m t1 subject = Inr tok"
    using token_run [OF laws(1,2,4) server(1-3) login(1-4,7-9)] login(5) times(1) by auto
  note issued = laws(3) gen later(5) login(6) server(4)
  have accepted: "\<exists>cl. parse_token ?J m t2 ?hdr = Inr cl \<and> cl_subject cl = trim_space subject"
    if "jm_ttl m \<le> 0 \<or> t2 < (t1 + jm_ttl m) div second * second"
    using accepts_issued [OF issued times(3)] that laws(3) by (auto simp: jwt_ok_def)
  have refused: "\<exists>err. parse_token ?J m t2 ?hdr = Inl err" if "0 < jm_ttl m \<and> t1 + jm_ttl m \<le> t2"
    using refuses_issued [OF issued, of m t2] that by blast
  obtain s2' tid where s2': "serve (lib_gin X) no_route (sv_engine sv) s2 = Returned () s2'"
     "gin_bodies (lib_gin X) (ht_ctx s2') =
       [Envelope (case parse_token ?J m t2 ?hdr of
                    Inl err \<Rightarrow> unauthorized_envelope tid | Inr cl \<Rightarrow> success_response (MeRes (cl_subject cl)))]"
    using me_run [OF laws(1,2) server(1-3) later(1-4)] times(2) by blast
  then show ?thesis using accepted refused by (intro exI [of _ s2'] exI [of _ tid]) auto
qed

theorem login_opens_me_witness:
  "\<exists>s1' e s2'.
     serve (lib_gin sample_libs) sample_no_route (sv_engine sample_server) sample_login = Returned () s1' \<and>
     gin_bodies (lib_gin sample_libs) (ht_ctx s1') = [Envelope e] \<and> rsp_data e = Some (TokenRes ''tok1'' ''Bearer'') \<and>
     serve (lib_gin sample_libs) sample_no_route (sv_engine sample_server) (sample_me ''Bearer tok1'') = Returned () s2' \<and>
     gin_bodies (lib_gin sample_libs) (ht_ctx s2') = [Envelope (success_response (MeRes ''ann''))]"
proof -
  let ?m = "\<lparr>jm_secret = ''k1'', jm_issuer = ''gb'', jm_ttl = minute\<rparr>"
  obtain s1' where s1': "serve (lib_gin sample_libs) sample_no_route (sv_engine sample_server) sample_login = Returned () s1'"
      "gin_bodies (lib_gin sample_libs) (ht_ctx s1') = [Envelope (success_response (TokenRes ''tok1'' ''Bearer''))]"
    using sample_login_run by blast
  have b: "bind_string (lib_binding sample_libs) ''subject'' (ht_ctx sample_login) = Inr ''ann''"
    by (simp add: sample_libs_def sample_binding_def sample_state_def sample_request_def)
  have v: "trim_space ''ann'' = ''ann''" "valid_utf8 ''ann''" "valid_utf8 (jm_issuer ?m)" by code_simp+
  have j: "jwt_ok (lib_jwt sample_libs)" by (simp add: sample_lib_jwt sample_jwt_ok)
  have h: "presents (gin_get_header (lib_gin sample_libs) (ht_ctx (sample_me ''Bearer tok1'')) ''Authorization'') ''tok1''"
    unfolding presents_def sample_state_simps
    by (rule disjI2, rule exI [of _ "''Bearer ''"]) (simp, code_simp)
  have d: "0 \<le> second" "30 * second < (second + minute) div second * second" by (simp_all add: second_def minute_def)
  obtain s2' where
      "serve (lib_gin sample_libs) sample_no_route (sv_engine sample_server) (sample_me ''Bearer tok1'') = Returned () s2'"
      "gin_bodies (lib_gin sample_libs) (ht_ctx s2') = [Envelope (success_response (MeRes ''ann''))]"
    using login_opens_me [OF sample_libs_ok j sample_binding_stable sample_server_new sample_cfg v(3) _ _ _ _ b _ s1' _ _ _ _ _ h refl refl]
    by (auto simp: sample_state_simps sample_clock v d)
  then show ?thesis using s1' by auto
qed

end
